(* ===== verification/Prelude.thy ===== *)
theory Prelude
  imports Main "HOL-Library.Word" "HOL-Library.Multiset" "HOL-Library.Char_ord"
    "HOL-Library.List_Lexorder" "HOL-Library.Signed_Division"
begin

text \<open>
  Shared ground of the development.  It fixes how the C of the flight software is read in HOL:
  a C \<^verbatim>\<open>int\<close> is a HOL \<open>int\<close> kept in its 32-bit range by \<open>i32\<close>, an \<^verbatim>\<open>unsigned int\<close> is
  either a \<open>32 word\<close> or a HOL \<open>int\<close> reduced by \<open>u32\<close>, and a run that leaves defined behaviour
  (a null pointer followed, a block overrun, a mutex that will never be released) is a value
  of \<open>c_fault\<close>.  The theory also holds the facts on lists and arithmetic that several
  components share, and the collections their proofs draw on.
\<close>

section \<open>Collections\<close>

named_theorems c_arith \<open>wrap-around arithmetic of C integers\<close>
named_theorems dat_simps \<open>reading the status repository after a write\<close>
named_theorems cmd_simps \<open>reading the command repository after an operation\<close>
named_theorems phase_simps \<open>the phase automata of the housekeeping and wheel-test tasks\<close>

section \<open>Faults\<close>

text \<open>
  What stops a run.  \<open>Deadlock\<close> is a take of a mutex that nobody will give back,
  \<open>Diverges\<close> is not among them: a loop that may not end is a partial function.
\<close>

datatype c_fault =
    NullDeref            \<comment> \<open>a null pointer is read or written\<close>
  | OutOfBounds          \<comment> \<open>an array is indexed outside its extent\<close>
  | HeapOverflow         \<comment> \<open>a write past the end of a malloc block\<close>
  | StackOverflow        \<comment> \<open>a write past the end of a local array\<close>
  | UnterminatedString   \<comment> \<open>a string function runs past a block without NUL\<close>
  | UseAfterFree         \<comment> \<open>a freed block is read or freed again\<close>
  | Uninitialised        \<comment> \<open>a local variable is read before it is written\<close>
  | AssertFailed         \<comment> \<open>an assert of the source fails\<close>
  | Deadlock             \<comment> \<open>a mutex is taken that is never released\<close>

type_synonym 'a c_result = "c_fault + 'a"

text \<open>Sequencing of fallible steps: the first fault ends the run.\<close>

definition c_bind :: "'a c_result \<Rightarrow> ('a \<Rightarrow> 'b c_result) \<Rightarrow> 'b c_result" where
  "c_bind r f = (case r of Inl e \<Rightarrow> Inl e | Inr x \<Rightarrow> f x)"

lemma c_bind_simps [simp]:
  "c_bind (Inl e) f = Inl e"
  "c_bind (Inr x) f = f x"
  by (simp_all add: c_bind_def)

lemma c_bind_Inr_iff: "c_bind r f = Inr y \<longleftrightarrow> (\<exists>x. r = Inr x \<and> f x = Inr y)"
  by (cases r) simp_all

text \<open>A loop that collects one result per element.\<close>

fun c_mapM :: "('a \<Rightarrow> 'b c_result) \<Rightarrow> 'a list \<Rightarrow> 'b list c_result" where
  "c_mapM f [] = Inr []"
| "c_mapM f (x # xs) = c_bind (f x) (\<lambda>y. c_bind (c_mapM f xs) (\<lambda>ys. Inr (y # ys)))"

lemma c_mapM_Inr: "(\<And>x. x \<in> set xs \<Longrightarrow> f x = Inr (g x)) \<Longrightarrow> c_mapM f xs = Inr (map g xs)"
  by (induction xs) simp_all

section \<open>Machine integers\<close>

type_synonym u8 = "8 word"
type_synonym u16 = "16 word"
type_synonym u32w = "32 word"

abbreviation (input) INT_MAX :: int where "INT_MAX \<equiv> 2147483647"
abbreviation (input) INT_MIN :: int where "INT_MIN \<equiv> -2147483648"

definition in_i32 :: "int \<Rightarrow> bool" where
  "in_i32 x \<longleftrightarrow> INT_MIN \<le> x \<and> x \<le> INT_MAX"

text \<open>
  Conversion to \<^verbatim>\<open>int\<close>: the two's complement value gcc gives, both for a narrowing conversion
  (implementation defined) and for an overflowing sum (undefined in ISO C; every theorem that
  depends on it says so).
\<close>

definition i32 :: "int \<Rightarrow> int" where
  "i32 x = (x + 2147483648) mod 4294967296 - 2147483648"

definition u32 :: "int \<Rightarrow> int" where
  "u32 x = x mod 4294967296"

lemma i32_range [simp]: "in_i32 (i32 x)"
proof -
  have "0 \<le> (x + 2147483648) mod 4294967296" by simp
  moreover have "(x + 2147483648) mod 4294967296 < 4294967296" by simp
  ultimately show ?thesis by (simp add: i32_def in_i32_def)
qed

lemma i32_id [c_arith]: "in_i32 x \<Longrightarrow> i32 x = x"
  by (simp add: i32_def in_i32_def)

lemma i32_idem [simp]: "i32 (i32 x) = i32 x"
  by (simp add: i32_id)

lemma i32_eq_iff_id: "i32 x = x \<longleftrightarrow> in_i32 x"
  by (metis i32_id i32_range)

text \<open>The sums that come out negative.\<close>

lemma i32_wrap:
  assumes "INT_MAX < x" "x < 4294967296"
  shows "i32 x = x - 4294967296"
proof -
  have "(x + 2147483648 - 4294967296) mod 4294967296 = x + 2147483648 - 4294967296"
    using assms by (intro mod_pos_pos_trivial) simp_all
  then have "(x + 2147483648) mod 4294967296 = x + 2147483648 - 4294967296"
    by (simp only: minus_mod_self2)
  then show ?thesis by (simp add: i32_def)
qed

lemma u32_range [simp]: "0 \<le> u32 x" "u32 x < 4294967296"
  by (simp_all add: u32_def)

lemma u32_id [c_arith]: "0 \<le> x \<Longrightarrow> x < 4294967296 \<Longrightarrow> u32 x = x"
  by (simp add: u32_def)

lemma i32_u32 [simp]: "i32 (u32 x) = i32 x"
  by (simp add: i32_def u32_def mod_add_left_eq)

lemma in_i32_small: "0 \<le> x \<Longrightarrow> x \<le> INT_MAX \<Longrightarrow> in_i32 x"
  by (simp add: in_i32_def)

text \<open>C's division and remainder truncate towards zero: \<open>sdiv\<close> and \<open>smod\<close> of the library.\<close>

lemma sdiv_nonneg: "0 \<le> a \<Longrightarrow> 0 < b \<Longrightarrow> (a::int) sdiv b = a div b"
  by (auto simp: signed_divide_int_def sgn_if)

lemma smod_nonneg: "0 \<le> a \<Longrightarrow> 0 < b \<Longrightarrow> (a::int) smod b = a mod b"
  by (auto simp: signed_modulo_int_def sgn_if)

section \<open>Lists\<close>

lemma nth_list_update_if:
  "i < length xs \<Longrightarrow> xs[i := v] ! j = (if i = j then v else xs ! j)"
  by (cases "i = j") simp_all

lemma sorted_wrt_nth: "sorted_wrt P xs \<Longrightarrow> i < j \<Longrightarrow> j < length xs \<Longrightarrow> P (xs ! i) (xs ! j)"
  by (simp add: sorted_wrt_iff_nth_less)

lemma take_Suc_snoc: "i < length xs \<Longrightarrow> take (Suc i) xs = take i xs @ [xs ! i]"
  by (rule take_Suc_conv_app_nth)

lemma takeWhile_stop: "xs = [] \<or> \<not> P (hd xs) \<Longrightarrow> takeWhile P xs = []"
  and dropWhile_stop: "xs = [] \<or> \<not> P (hd xs) \<Longrightarrow> dropWhile P xs = xs"
  by (cases xs; simp)+

lemma list_all_takeWhile: "list_all P (takeWhile P xs)"
  by (induction xs) auto

lemma takeWhile_append_stop:
  assumes "list_all P xs" "ys = [] \<or> \<not> P (hd ys)"
  shows "takeWhile P (xs @ ys) = xs" "dropWhile P (xs @ ys) = ys"
  using assms by (induction xs) (simp_all add: takeWhile_stop dropWhile_stop)

text \<open>Splitting a range of indices into whole blocks of size \<open>k\<close> and a rest.\<close>

lemma upt_split: "a \<le> b \<Longrightarrow> b \<le> c \<Longrightarrow> [a..<c] = [a..<b] @ [b..<c]"
  by (metis le_add_diff_inverse upt_add_eq_append)

end
