(* ===== verification/LibC.thy ===== *)
theory LibC
  imports Prelude
begin

text \<open>
  What the flight software uses of the C library: byte blocks and NUL-terminated strings
  (\<^verbatim>\<open>strcmp\<close>, \<^verbatim>\<open>strncpy\<close>, \<^verbatim>\<open>strtok\<close>), decimal output (\<^verbatim>\<open>sprintf\<close> with \<^verbatim>\<open>%d\<close>, \<^verbatim>\<open>%u\<close>, \<^verbatim>\<open>%s\<close>)
  and formatted input (\<^verbatim>\<open>sscanf\<close> with \<^verbatim>\<open>%d\<close>, \<^verbatim>\<open>%u\<close>, \<^verbatim>\<open>%s\<close>, \<^verbatim>\<open>%f\<close>, \<^verbatim>\<open>%n\<close>).  A C string is the HOL
  string of the bytes before its NUL.
\<close>

section \<open>Blocks and strings\<close>

abbreviation NUL :: char where "NUL \<equiv> CHR 0x00"

definition c_string :: "string \<Rightarrow> bool" where
  "c_string s \<longleftrightarrow> NUL \<notin> set s"

text \<open>The string a block of bytes holds; a block without NUL makes the reader run off its end.\<close>

definition c_str :: "char list \<Rightarrow> string c_result" where
  "c_str b = (if NUL \<in> set b then Inr (takeWhile (\<lambda>c. c \<noteq> NUL) b) else Inl UnterminatedString)"

definition strncpy :: "string \<Rightarrow> nat \<Rightarrow> char list" where
  "strncpy src n = take n src @ replicate (n - length src) NUL"

text \<open>Only the sign of \<^verbatim>\<open>strcmp\<close> is specified by C; the model returns it.\<close>

fun strcmp :: "string \<Rightarrow> string \<Rightarrow> int" where
  "strcmp [] [] = 0"
| "strcmp [] (d # ds) = -1"
| "strcmp (c # cs) [] = 1"
| "strcmp (c # cs) (d # ds) = (if c < d then -1 else if d < c then 1 else strcmp cs ds)"

lemma strcmp_neg [simp]: "strcmp a b < 0 \<longleftrightarrow> a < b"
  by (induction a b rule: strcmp.induct) auto

lemma strcmp_zero [simp]: "strcmp a b = 0 \<longleftrightarrow> a = b"
  by (induction a b rule: strcmp.induct) auto

lemma strcmp_pos [simp]: "0 < strcmp a b \<longleftrightarrow> b < a"
  by (metis linorder_neqE not_less_iff_gr_or_eq strcmp_neg strcmp_zero)

lemma c_str_snoc [simp]: "c_string s \<Longrightarrow> c_str (s @ NUL # t) = Inr s"
  by (induction s) (auto simp: c_str_def c_string_def)

lemma c_str_no_NUL: "c_string b \<Longrightarrow> c_str b = Inl UnterminatedString"
  by (simp add: c_str_def c_string_def)

lemma c_str_Inr_c_string: "c_str b = Inr s \<Longrightarrow> c_string s"
  by (auto simp: c_str_def c_string_def split: if_splits dest: set_takeWhileD)

lemma c_string_Nil [simp]: "c_string []"
  and c_string_Cons [simp]: "c_string (c # s) \<longleftrightarrow> c \<noteq> NUL \<and> c_string s"
  and c_string_append [simp]: "c_string (s @ t) \<longleftrightarrow> c_string s \<and> c_string t"
  by (auto simp: c_string_def)

lemma c_string_drop: "c_string s \<Longrightarrow> c_string (drop n s)"
  and c_string_take: "c_string s \<Longrightarrow> c_string (take n s)"
  by (auto simp: c_string_def dest: in_set_dropD in_set_takeD)

lemma length_strncpy [simp]: "length (strncpy s n) = n"
  by (simp add: strncpy_def)

lemma strncpy_fits: "length s < n \<Longrightarrow> c_string s \<Longrightarrow> c_str (strncpy s n) = Inr s"
  by (cases "n - length s") (auto simp: strncpy_def)

lemma strncpy_short: "n \<le> length s \<Longrightarrow> c_string s \<Longrightarrow> c_str (strncpy s n) = Inl UnterminatedString"
  by (simp add: strncpy_def c_str_no_NUL c_string_take)

section \<open>Tokens: strtok\<close>

text \<open>All the tokens a run of \<^verbatim>\<open>strtok(s, "d")\<close>, \<^verbatim>\<open>strtok(NULL, "d")\<close>, \dots returns.\<close>

function strtok_all :: "char \<Rightarrow> string \<Rightarrow> string list" where
  "strtok_all d s =
     (case dropWhile (\<lambda>c. c = d) s of
        [] \<Rightarrow> []
      | c # cs \<Rightarrow> (c # takeWhile (\<lambda>x. x \<noteq> d) cs) # strtok_all d (dropWhile (\<lambda>x. x \<noteq> d) cs))"
  by pat_completeness auto
termination
proof (relation "measure (\<lambda>(d, s). length s)", simp)
  fix d c :: char and s cs :: string
  assume "dropWhile (\<lambda>c. c = d) s = c # cs"
  then have "length (c # cs) \<le> length s"
    by (metis length_dropWhile_le)
  moreover have "length (dropWhile (\<lambda>x. x \<noteq> d) cs) \<le> length cs"
    by (rule length_dropWhile_le)
  ultimately show "((d, dropWhile (\<lambda>x. x \<noteq> d) cs), d, s) \<in> measure (\<lambda>(d, s). length s)"
    by simp
qed

declare strtok_all.simps [simp del]

lemma strtok_all_Nil [simp]: "strtok_all d [] = []"
  by (simp add: strtok_all.simps [of d "[]"])

lemma strtok_all_delim [simp]: "strtok_all d (d # s) = strtok_all d s"
  by (simp add: strtok_all.simps [of d "d # s"] strtok_all.simps [of d s])

lemma strtok_all_token:
  assumes "t \<noteq> []" "d \<notin> set t"
  shows "strtok_all d (t @ d # s) = t # strtok_all d s"
proof -
  obtain c cs where t: "t = c # cs" and "c \<noteq> d" "d \<notin> set cs"
    using assms by (cases t) auto
  from \<open>d \<notin> set cs\<close> have tw: "takeWhile (\<lambda>x. x \<noteq> d) (cs @ d # s) = cs"
    and dw: "dropWhile (\<lambda>x. x \<noteq> d) (cs @ d # s) = d # s"
    by (induction cs) auto
  show ?thesis
    using \<open>c \<noteq> d\<close> by (simp add: t strtok_all.simps [of d "c # cs @ d # s"] tw dw)
qed

lemma strtok_all_last:
  assumes "t \<noteq> []" "d \<notin> set t"
  shows "strtok_all d t = [t]"
proof -
  obtain c cs where t: "t = c # cs" and "c \<noteq> d" "d \<notin> set cs"
    using assms by (cases t) auto
  from \<open>d \<notin> set cs\<close> have tw: "takeWhile (\<lambda>x. x \<noteq> d) cs = cs"
    and dw: "dropWhile (\<lambda>x. x \<noteq> d) cs = []"
    by (induction cs) auto
  show ?thesis
    using \<open>c \<noteq> d\<close> by (simp add: t strtok_all.simps [of d "c # cs"] tw dw del: takeWhile_eq_all_conv dropWhile_eq_Nil_conv)
qed

section \<open>Decimal numbers\<close>

definition isspace :: "char \<Rightarrow> bool" where
  "isspace c \<longleftrightarrow> c = CHR '' '' \<or> (CHR 0x09 \<le> c \<and> c \<le> CHR 0x0D)"

definition isdigit :: "char \<Rightarrow> bool" where
  "isdigit c \<longleftrightarrow> CHR ''0'' \<le> c \<and> c \<le> CHR ''9''"

definition digit_char :: "nat \<Rightarrow> char" where
  "digit_char d = char_of (48 + d)"

definition digit_val :: "char \<Rightarrow> nat" where
  "digit_val c = of_char c - 48"

fun show_nat :: "nat \<Rightarrow> string" where
  "show_nat n = (if n < 10 then [digit_char n] else show_nat (n div 10) @ [digit_char (n mod 10)])"

declare show_nat.simps [simp del]

definition show_int :: "int \<Rightarrow> string" where
  "show_int i = (if i < 0 then CHR ''-'' # show_nat (nat (- i)) else show_nat (nat i))"

definition dec_val :: "string \<Rightarrow> nat" where
  "dec_val s = foldl (\<lambda>n c. 10 * n + digit_val c) 0 s"

lemma of_digit_char: "d < 10 \<Longrightarrow> (of_char (digit_char d) :: nat) = 48 + d"
  by (simp add: digit_char_def)

lemma isdigit_digit_char [simp]: "d < 10 \<Longrightarrow> isdigit (digit_char d)"
  by (simp add: isdigit_def less_eq_char_def of_digit_char)

lemma digit_val_digit_char [simp]: "d < 10 \<Longrightarrow> digit_val (digit_char d) = d"
  by (simp add: digit_val_def of_digit_char)

lemma isdigit_not_space: "isdigit c \<Longrightarrow> \<not> isspace c"
  by (auto simp: isdigit_def isspace_def less_eq_char_def)

lemma isdigit_not_sign: "isdigit c \<Longrightarrow> c \<noteq> CHR ''-'' \<and> c \<noteq> CHR ''+'' \<and> c \<noteq> NUL"
  by (auto simp: isdigit_def less_eq_char_def)

lemma show_nat_digits: "list_all isdigit (show_nat n)"
proof (induction n rule: show_nat.induct)
  case (1 n)
  then show ?case by (cases "n < 10") (simp_all add: show_nat.simps [of n])
qed

lemma show_nat_nonempty [simp]: "show_nat n \<noteq> []"
  by (simp add: show_nat.simps [of n])

lemma dec_val_snoc [simp]: "dec_val (s @ [c]) = 10 * dec_val s + digit_val c"
  by (simp add: dec_val_def)

lemma dec_val_show_nat [simp]: "dec_val (show_nat n) = n"
proof (induction n rule: show_nat.induct)
  case (1 n)
  show ?case
  proof (cases "n < 10")
    case True
    then show ?thesis by (simp add: show_nat.simps [of n] dec_val_def)
  next
    case False
    then show ?thesis by (simp add: show_nat.simps [of n] 1)
  qed
qed

lemma c_string_show_int [simp]: "c_string (show_int i)"
  using show_nat_digits isdigit_not_sign
  by (auto simp: show_int_def c_string_def list_all_iff)

section \<open>Format strings\<close>

datatype directive =
    DSpace char   \<comment> \<open>white space: printed as it is; skips any white space of an input\<close>
  | DLit char     \<comment> \<open>any other ordinary character\<close>
  | DInt | DUInt | DStr | DFloat
  | DCount        \<comment> \<open>\<^verbatim>\<open>%n\<close>: the number of bytes consumed so far\<close>
  | DOther char

definition conversion :: "char \<Rightarrow> directive" where
  "conversion k =
     (if k = CHR ''d'' then DInt else if k = CHR ''u'' then DUInt
      else if k = CHR ''s'' then DStr else if k = CHR ''f'' then DFloat
      else if k = CHR ''n'' then DCount else DOther k)"

fun directives :: "string \<Rightarrow> directive list" where
  "directives [] = []"
| "directives [c] =
     (if c = CHR ''%'' then [] else if isspace c then [DSpace c] else [DLit c])"
| "directives (c # k # ks) =
     (if c = CHR ''%'' then conversion k # directives ks
      else (if isspace c then DSpace c else DLit c) # directives (k # ks))"

datatype c_arg = AInt int | AStr string

text \<open>\<^verbatim>\<open>vsprintf\<close>: the characters written, without the final NUL.\<close>

fun vsprintf :: "directive list \<Rightarrow> c_arg list \<Rightarrow> string" where
  "vsprintf (DSpace c # ds) as = c # vsprintf ds as"
| "vsprintf (DLit c # ds) as = c # vsprintf ds as"
| "vsprintf (DInt # ds) (AInt i # as) = show_int i @ vsprintf ds as"
| "vsprintf (DUInt # ds) (AInt i # as) = show_int (u32 i) @ vsprintf ds as"
| "vsprintf (DStr # ds) (AStr s # as) = s @ vsprintf ds as"
| "vsprintf ds as = []"

section \<open>Formatted input: sscanf\<close>

datatype scan_val = VInt int | VStr string | VFloat string | VCount nat

text \<open>
  An optional sign and a nonempty run of digits.  C leaves the result of an out-of-range
  number undefined; the model follows glibc on a 64-bit machine (\<^verbatim>\<open>strtol\<close>/\<^verbatim>\<open>strtoul\<close> saturate,
  the assignment truncates).
\<close>

definition scan_sign :: "string \<Rightarrow> bool \<times> string" where
  "scan_sign s =
     (case s of [] \<Rightarrow> (False, [])
      | c # cs \<Rightarrow> if c = CHR ''-'' then (True, cs) else if c = CHR ''+'' then (False, cs) else (False, s))"

definition scan_num :: "string \<Rightarrow> (bool \<times> nat \<times> string) option" where
  "scan_num s =
     (let (neg, t) = scan_sign s; ds = takeWhile isdigit t in
      if ds = [] then None else Some (neg, dec_val ds, dropWhile isdigit t))"

definition store_int :: "bool \<Rightarrow> nat \<Rightarrow> int" where
  "store_int neg m = i32 (max (- (2 ^ 63)) (min (2 ^ 63 - 1) (if neg then - int m else int m)))"

definition store_uint :: "bool \<Rightarrow> nat \<Rightarrow> int" where
  "store_uint neg m =
     u32 (if int m > 2 ^ 64 - 1 then 2 ^ 64 - 1 else if neg then - int m else int m)"

text \<open>\<^verbatim>\<open>%f\<close> in plain decimal notation: the characters consumed, uninterpreted.\<close>

definition scan_float :: "string \<Rightarrow> (string \<times> string) option" where
  "scan_float s =
     (let t = snd (scan_sign s); ip = takeWhile isdigit t; r = dropWhile isdigit t;
          (fp, r') = (case r of c # cs \<Rightarrow> if c = CHR ''.'' then (c # takeWhile isdigit cs, dropWhile isdigit cs)
                                          else ([], r)
                      | [] \<Rightarrow> ([], [])) in
      if ip = [] \<and> length fp \<le> 1 then None
      else Some (take (length s - length r') s, r'))"

definition eof_or :: "int \<Rightarrow> int" where
  "eof_or n = (if n = 0 then -1 else n)"

text \<open>
  The state of a scan: the rest of the input, the number of bytes consumed, the number of
  assignments, the values assigned.  An input that ends before the first assignment is
  EOF (\<^verbatim>\<open>-1\<close>); a mismatch ends the scan with the count so far.
\<close>

fun scan :: "directive list \<Rightarrow> string \<Rightarrow> nat \<Rightarrow> int \<Rightarrow> scan_val list \<Rightarrow> int \<times> scan_val list" where
  "scan [] s p n vs = (n, vs)"
| "scan (DSpace c # ds) s p n vs =
     scan ds (dropWhile isspace s) (p + length (takeWhile isspace s)) n vs"
| "scan (DLit c # ds) s p n vs =
     (case s of [] \<Rightarrow> (eof_or n, vs)
      | x # xs \<Rightarrow> if x = c then scan ds xs (p + 1) n vs else (n, vs))"
| "scan (DInt # ds) s p n vs =
     (let t = dropWhile isspace s in
      if t = [] then (eof_or n, vs)
      else (case scan_num t of None \<Rightarrow> (n, vs)
            | Some (neg, m, r) \<Rightarrow> scan ds r (p + (length s - length r)) (n + 1) (vs @ [VInt (store_int neg m)])))"
| "scan (DUInt # ds) s p n vs =
     (let t = dropWhile isspace s in
      if t = [] then (eof_or n, vs)
      else (case scan_num t of None \<Rightarrow> (n, vs)
            | Some (neg, m, r) \<Rightarrow> scan ds r (p + (length s - length r)) (n + 1) (vs @ [VInt (store_uint neg m)])))"
| "scan (DStr # ds) s p n vs =
     (let t = dropWhile isspace s; w = takeWhile (\<lambda>c. \<not> isspace c) t in
      if t = [] then (eof_or n, vs)
      else scan ds (drop (length w) t) (p + (length s - length t) + length w) (n + 1) (vs @ [VStr w]))"
| "scan (DFloat # ds) s p n vs =
     (let t = dropWhile isspace s in
      if t = [] then (eof_or n, vs)
      else (case scan_float t of None \<Rightarrow> (n, vs)
            | Some (f, r) \<Rightarrow> scan ds r (p + (length s - length r)) (n + 1) (vs @ [VFloat f])))"
| "scan (DCount # ds) s p n vs = scan ds s p n (vs @ [VCount p])"
| "scan (DOther c # ds) s p n vs = (n, vs)"

definition sscanf :: "string \<Rightarrow> string \<Rightarrow> int \<times> scan_val list" where
  "sscanf s fmt = scan (directives fmt) s 0 0 []"

text \<open>The integers among the values assigned, in order.\<close>

fun ints_of :: "scan_val list \<Rightarrow> int list" where
  "ints_of [] = []"
| "ints_of (VInt i # vs) = i # ints_of vs"
| "ints_of (VStr s # vs) = ints_of vs"
| "ints_of (VFloat f # vs) = ints_of vs"
| "ints_of (VCount k # vs) = ints_of vs"

section \<open>What was printed is scanned back\<close>

definition stops_digits :: "string \<Rightarrow> bool" where
  "stops_digits r \<longleftrightarrow> (r = [] \<or> \<not> isdigit (hd r))"

lemma digits_then_stop:
  assumes "list_all isdigit ds" "stops_digits r"
  shows "takeWhile isdigit (ds @ r) = ds" "dropWhile isdigit (ds @ r) = r"
  using assms takeWhile_append_stop [of isdigit ds r] by (simp_all add: stops_digits_def)

lemma scan_sign_digits: "list_all isdigit ds \<Longrightarrow> ds \<noteq> [] \<Longrightarrow> scan_sign (ds @ r) = (False, ds @ r)"
  using isdigit_not_sign by (cases ds) (auto simp: scan_sign_def)

lemma scan_num_show_nat: "stops_digits r \<Longrightarrow> scan_num (show_nat m @ r) = Some (False, m, r)"
  using show_nat_digits [of m]
  by (simp add: scan_num_def scan_sign_digits digits_then_stop)

lemma scan_num_show_int:
  "stops_digits r \<Longrightarrow> scan_num (show_int i @ r) = Some (i < 0, nat \<bar>i\<bar>, r)"
  using show_nat_digits [of "nat (- i)"]
  by (simp add: show_int_def scan_num_show_nat)
     (simp add: scan_num_def scan_sign_def digits_then_stop)

lemma show_int_nonempty [simp]: "show_int i \<noteq> []"
  by (simp add: show_int_def)

lemma hd_show_int_not_space: "\<not> isspace (hd (show_int i))"
proof -
  have "\<not> isspace (hd (show_nat m))" for m
    using show_nat_digits [of m] isdigit_not_space by (cases "show_nat m") auto
  then show ?thesis
    by (auto simp: show_int_def isspace_def less_eq_char_def)
qed

lemma spaces_show_int [simp]:
  "dropWhile isspace (show_int i @ r) = show_int i @ r" "takeWhile isspace (show_int i @ r) = []"
  using hd_show_int_not_space [of i] by (cases "show_int i"; auto)+

lemma store_int_id: "in_i32 i \<Longrightarrow> store_int (i < 0) (nat \<bar>i\<bar>) = i"
  by (auto simp: store_int_def in_i32_def i32_id)

lemma scan_DInt_show_int:
  assumes "in_i32 i" "stops_digits r"
  shows "scan (DInt # ds) (show_int i @ r) p n vs =
           scan ds r (p + length (show_int i)) (n + 1) (vs @ [VInt i])"
  using assms
  by (simp add: Let_def scan_num_show_int store_int_id)

text \<open>The format \<^verbatim>\<open>"%d %d ... %d"\<close> with \<open>n\<close> conversions.\<close>

fun int_dirs :: "nat \<Rightarrow> directive list" where
  "int_dirs 0 = []"
| "int_dirs (Suc 0) = [DInt]"
| "int_dirs (Suc (Suc n)) = DInt # DSpace (CHR '' '') # int_dirs (Suc n)"

lemma vsprintf_int_dirs_hd:
  "\<exists>r. vsprintf (int_dirs (Suc n)) (map AInt (i # is)) = show_int i @ r"
  by (cases n) auto

lemma isspace_blank [simp]: "isspace (CHR '' '')" "\<not> isdigit (CHR '' '')"
  by (simp_all add: isspace_def isdigit_def less_eq_char_def)

lemma scan_vsprintf_ints:
  assumes "length is = n" "list_all in_i32 is"
  shows "scan (int_dirs n) (vsprintf (int_dirs n) (map AInt is)) p k vs =
           (k + int n, vs @ map VInt is)"
  using assms
proof (induction n arbitrary: "is" p k vs rule: int_dirs.induct)
  case 1
  then show ?case by simp
next
  case 2
  then obtain i where "is = [i]" "in_i32 i" by (auto simp: length_Suc_conv)
  then show ?case
    using scan_DInt_show_int [of i "[]" "[]" p k vs] by (simp add: stops_digits_def)
next
  case (3 n)
  then obtain i j js where is_eq: "is = i # j # js" and i: "in_i32 i"
    and js: "length (j # js) = Suc n" "list_all in_i32 (j # js)"
    by (auto simp: length_Suc_conv)
  let ?rest = "vsprintf (int_dirs (Suc n)) (map AInt (j # js))"
  obtain r where r: "?rest = show_int j @ r"
    using vsprintf_int_dirs_hd by blast
  have "scan (int_dirs (Suc (Suc n))) (vsprintf (int_dirs (Suc (Suc n))) (map AInt is)) p k vs =
          scan (DInt # DSpace (CHR '' '') # int_dirs (Suc n)) (show_int i @ CHR '' '' # ?rest) p k vs"
    by (simp add: is_eq)
  also have "\<dots> = scan (DSpace (CHR '' '') # int_dirs (Suc n)) (CHR '' '' # ?rest)
                    (p + length (show_int i)) (k + 1) (vs @ [VInt i])"
    by (rule scan_DInt_show_int) (simp_all add: i stops_digits_def)
  also have "\<dots> = (k + 1 + int (Suc n), (vs @ [VInt i]) @ map VInt (j # js))"
    using "3.IH" [OF js] by (simp add: r del: list.map)
  finally show ?case by (simp add: is_eq)
qed

section \<open>Scanning a command line: \<^verbatim>\<open>"%s %n"\<close>\<close>

definition word :: "string \<Rightarrow> bool" where
  "word w \<longleftrightarrow> w \<noteq> [] \<and> list_all (\<lambda>c. \<not> isspace c) w"

definition no_lead_space :: "string \<Rightarrow> bool" where
  "no_lead_space a \<longleftrightarrow> (a = [] \<or> \<not> isspace (hd a))"

lemma directives_word_count: "directives ''%s %n'' = [DStr, DSpace (CHR '' ''), DCount]"
  by (simp add: conversion_def)

lemma spaces_then_stop:
  assumes "list_all isspace ws" "no_lead_space a"
  shows "takeWhile isspace (ws @ a) = ws" "dropWhile isspace (ws @ a) = a"
  using assms takeWhile_append_stop [of isspace ws a] by (simp_all add: no_lead_space_def)

lemma word_then_stop:
  assumes "word w" "r = [] \<or> isspace (hd r)"
  shows "takeWhile (\<lambda>c. \<not> isspace c) (w @ r) = w" "dropWhile isspace (w @ r) = w @ r"
proof -
  show "takeWhile (\<lambda>c. \<not> isspace c) (w @ r) = w"
    by (rule takeWhile_append_stop) (use assms in \<open>auto simp: word_def\<close>)
  show "dropWhile isspace (w @ r) = w @ r" using assms(1) by (cases w) (auto simp: word_def)
qed

lemma sscanf_word_count:
  assumes "word w" "list_all isspace ws" "no_lead_space a" "ws = [] \<Longrightarrow> a = []"
  shows "sscanf (w @ ws @ a) ''%s %n'' = (1, [VStr w, VCount (length w + length ws)])"
proof -
  have "ws @ a = [] \<or> isspace (hd (ws @ a))"
    using assms(2,4) by (cases ws) auto
  note w = word_then_stop [OF assms(1) this]
  have "w @ ws @ a \<noteq> []" using assms(1) by (simp add: word_def)
  then show ?thesis
    unfolding sscanf_def directives_word_count
    by (simp add: Let_def w spaces_then_stop [OF assms(2,3)])
qed

lemma sscanf_blank: "list_all isspace s \<Longrightarrow> sscanf s ''%s %n'' = (-1, [])"
proof -
  assume "list_all isspace s"
  then have "dropWhile isspace s = []" by (induction s) auto
  then show ?thesis unfolding sscanf_def directives_word_count by (simp add: Let_def eof_or_def)
qed

text \<open>Every line is blank or splits into a name, white space and the rest.\<close>

lemma line_shape:
  assumes "\<not> list_all isspace s"
  obtains pre w ws a where "s = pre @ w @ ws @ a" "list_all isspace pre" "word w"
    "list_all isspace ws" "no_lead_space a" "ws = [] \<Longrightarrow> a = []"
proof -
  let ?t = "dropWhile isspace s"
  let ?w = "takeWhile (\<lambda>c. \<not> isspace c) ?t" and ?r = "dropWhile (\<lambda>c. \<not> isspace c) ?t"
  have hd_t: "?t \<noteq> [] \<and> \<not> isspace (hd ?t)"
    using assms hd_dropWhile [of isspace s] by (auto simp: list_all_iff)
  then have w: "word ?w"
    by (cases ?t) (auto simp: word_def list_all_iff dest: set_takeWhileD)
  have hd_r: "?r = [] \<or> isspace (hd ?r)"
    using hd_dropWhile [of "\<lambda>c. \<not> isspace c" ?t] by auto
  have eq: "s = takeWhile isspace s @ ?w @ takeWhile isspace ?r @ dropWhile isspace ?r"
    by (simp only: takeWhile_dropWhile_id)
  show ?thesis
  proof (rule that [OF eq _ w])
    show "list_all isspace (takeWhile isspace s)" "list_all isspace (takeWhile isspace ?r)"
      by (rule list_all_takeWhile)+
    show "no_lead_space (dropWhile isspace ?r)"
      unfolding no_lead_space_def using hd_dropWhile [of isspace ?r] by blast
    show "dropWhile isspace ?r = []" if "takeWhile isspace ?r = []"
    proof -
      have "?r = []" using that hd_r unfolding takeWhile_eq_Nil_iff by blast
      then show ?thesis by (simp only: dropWhile.simps)
    qed
  qed
qed

lemma sscanf_lead_space:
  assumes "list_all isspace pre" "word w" "list_all isspace ws" "no_lead_space a" "ws = [] \<Longrightarrow> a = []"
  shows "sscanf (pre @ w @ ws @ a) ''%s %n'' =
           (1, [VStr w, VCount (length pre + length w + length ws)])"
proof -
  have r: "ws @ a = [] \<or> isspace (hd (ws @ a))"
    using assms(3,5) by (cases ws) auto
  have "no_lead_space (w @ ws @ a)"
    using assms(2) by (cases w) (auto simp: no_lead_space_def word_def)
  note p = spaces_then_stop [OF assms(1) this]
  have "w @ ws @ a \<noteq> []" using assms(2) by (simp add: word_def)
  then show ?thesis
    unfolding sscanf_def directives_word_count
    by (simp add: Let_def p word_then_stop [OF assms(2) r] spaces_then_stop [OF assms(3,4)])
qed

section \<open>Texts as bytes\<close>

definition bytes_of :: "string \<Rightarrow> u8 list" where
  "bytes_of s = map (\<lambda>c. word_of_nat (of_char c)) s"

definition chars_of :: "u8 list \<Rightarrow> char list" where
  "chars_of b = map (\<lambda>x. char_of (unat x)) b"

lemma length_bytes_of [simp]: "length (bytes_of s) = length s"
  by (simp add: bytes_of_def)

lemma char_of_bytes: "chars_of (bytes_of msg) = msg"
proof -
  have "unat (word_of_nat (of_char ch) :: u8) = of_char ch" for ch :: char
    by (simp add: unat_of_nat take_bit_nat_eq_self)
  then show ?thesis by (induction msg) (simp_all add: chars_of_def bytes_of_def)
qed

text \<open>Numbers as bytes, the least significant first.\<close>

definition le_bytes :: "nat \<Rightarrow> nat \<Rightarrow> u8 list" where
  "le_bytes n x = map (\<lambda>i. word_of_nat (x div 256 ^ i)) [0..<n]"

definition le_nat :: "u8 list \<Rightarrow> nat" where
  "le_nat b = foldr (\<lambda>x acc. unat x + 256 * acc) b 0"

lemma le_nat_le_bytes: "le_nat (le_bytes n x) = x mod 256 ^ n"
proof (induction n arbitrary: x)
  case (Suc n)
  have u: "unat (word_of_nat y :: u8) = y mod 256" for y :: nat by (simp add: unat_of_nat take_bit_eq_mod)
  have "le_bytes (Suc n) x = word_of_nat x # le_bytes n (x div 256)"
  proof -
    have "[0..<Suc n] = 0 # map Suc [0..<n]" by (simp add: map_Suc_upt upt_conv_Cons del: upt_Suc)
    then show ?thesis by (simp add: le_bytes_def div_mult2_eq del: upt_Suc)
  qed
  then have "le_nat (le_bytes (Suc n) x) = x mod 256 + 256 * le_nat (le_bytes n (x div 256))"
    by (simp add: le_nat_def u)
  then show ?case using Suc.IH [of "x div 256"] mod_mult2_eq [of x 256 "256 ^ n"] by simp
qed (simp add: le_nat_def le_bytes_def)

lemma length_le_bytes [simp]: "length (le_bytes n x) = n"
  by (simp add: le_bytes_def)

end
