(* ===== verification/Config.thy ===== *)
theory Config
  imports LibC
begin

text \<open>
  The build configuration (\<^verbatim>\<open>src/system/include/config.h\<close> and the template it is generated from).
  The options that select code with \<^verbatim>\<open>#if\<close> are fields of a record, an argument of every definition
  whose code depends on them; the numeric limits are constants.
\<close>

datatype platform = LINUX | AVR32 | ESP32 | NANOMIND

record sch_config =
  platform_of :: platform
  comm_enable :: bool          \<comment> \<open>\<^verbatim>\<open>SCH_COMM_ENABLE\<close>\<close>
  fp_enabled :: bool           \<comment> \<open>\<^verbatim>\<open>SCH_FP_ENABLED\<close>\<close>
  hk_enabled :: bool           \<comment> \<open>\<^verbatim>\<open>SCH_HK_ENABLED\<close>\<close>
  storage_mode :: nat          \<comment> \<open>\<^verbatim>\<open>SCH_STORAGE_MODE\<close>\<close>
  storage_triple_wr :: bool    \<comment> \<open>\<^verbatim>\<open>SCH_STORAGE_TRIPLE_WR\<close>\<close>
  cmd_max_entries :: nat       \<comment> \<open>\<^verbatim>\<open>SCH_CMD_MAX_ENTRIES\<close>\<close>

text \<open>\<^verbatim>\<open>SCH_USE_NANOPOWER\<close> and \<^verbatim>\<open>SCH_USE_NANOCOM\<close> are defined exactly on the Nanomind.\<close>

definition use_nanopower :: "sch_config \<Rightarrow> bool" where
  "use_nanopower c \<longleftrightarrow> platform_of c = NANOMIND"

definition use_nanocom :: "sch_config \<Rightarrow> bool" where
  "use_nanocom c \<longleftrightarrow> platform_of c = NANOMIND"

text \<open>The configuration checked in as \<^verbatim>\<open>config.h\<close>.\<close>

definition config_h :: sch_config where
  "config_h = \<lparr> platform_of = LINUX, comm_enable = True, fp_enabled = False, hk_enabled = False,
     storage_mode = 0, storage_triple_wr = True, cmd_max_entries = 65 \<rparr>"

text \<open>
  What the template fixes whatever the build options: \<^verbatim>\<open>SCH_CMD_MAX_ENTRIES\<close> is 50 there, and
  \<^verbatim>\<open>configure.py\<close> substitutes the other options.
\<close>

definition config_template :: "platform \<Rightarrow> bool \<Rightarrow> bool \<Rightarrow> bool \<Rightarrow> nat \<Rightarrow> bool \<Rightarrow> sch_config" where
  "config_template os comm fp hk st tr = \<lparr> platform_of = os, comm_enable = comm, fp_enabled = fp,
     hk_enabled = hk, storage_mode = st, storage_triple_wr = tr, cmd_max_entries = 50 \<rparr>"

abbreviation (input) SCH_FP_MAX_ENTRIES :: nat where "SCH_FP_MAX_ENTRIES \<equiv> 25"
abbreviation (input) SCH_CMD_MAX_STR_PARAMS :: nat where "SCH_CMD_MAX_STR_PARAMS \<equiv> 64"
abbreviation (input) SCH_CMD_MAX_STR_NAME :: nat where "SCH_CMD_MAX_STR_NAME \<equiv> 64"
abbreviation (input) SCH_BUFF_MAX_LEN :: nat where "SCH_BUFF_MAX_LEN \<equiv> 256"
abbreviation (input) SCH_MAX_WDT_TIMER :: u32w where "SCH_MAX_WDT_TIMER \<equiv> 5"
abbreviation (input) SCH_MAX_GND_WDT_TIMER :: u32w where "SCH_MAX_GND_WDT_TIMER \<equiv> 172800"

text \<open>Results of commands (\<^verbatim>\<open>repoCommand.h\<close>).\<close>

abbreviation (input) CMD_OK :: int where "CMD_OK \<equiv> 1"
abbreviation (input) CMD_FAIL :: int where "CMD_FAIL \<equiv> 0"
abbreviation (input) CMD_ERROR :: int where "CMD_ERROR \<equiv> -1"

end
