(* ===== verification/RepoCommand.thy ===== *)
theory RepoCommand
  imports Config
begin

text \<open>
  The command repository (\<^verbatim>\<open>src/system/repoCommand.c\<close>): the table of registered commands, their
  lookup by name and by index, the parameter buffers of a command, the parser of command
  lines and the sorting of the table.
\<close>

section \<open>Data\<close>

text \<open>A function pointer is represented by the C symbol it points to.\<close>

type_synonym cmdFunction = string

record cmd_t =
  c_id :: int
  c_nparams :: int
  c_fmt :: string
  c_params :: "char list option"   \<comment> \<open>the malloc block, None for NULL\<close>
  c_function :: cmdFunction

record cmd_list_t =
  l_nparams :: int
  l_fmt :: string
  l_name :: string
  l_function :: cmdFunction

text \<open>
  The global variables.  \<open>cmd_list\<close> holds the slots of the C array written so far; the array is
  filled from slot 0 up, so the slots beyond are still zeroed and their name pointer is NULL.
  \<open>cmd_index\<close> is the number of registered commands.
\<close>

record cmd_repo =
  cmd_list :: "cmd_list_t list"
  cmd_index :: nat
  cmd_is_sorted :: bool

definition cmd_repo_start :: cmd_repo where
  "cmd_repo_start = \<lparr> cmd_list = [], cmd_index = 0, cmd_is_sorted = True \<rparr>"

section \<open>Registration\<close>

definition slot_write :: "cmd_list_t list \<Rightarrow> nat \<Rightarrow> cmd_list_t \<Rightarrow> cmd_list_t list" where
  "slot_write xs i x = (if i < length xs then xs[i := x] else xs @ [x])"

definition cmd_add ::
  "sch_config \<Rightarrow> string \<Rightarrow> cmdFunction \<Rightarrow> string \<Rightarrow> int \<Rightarrow> cmd_repo \<Rightarrow> int \<times> cmd_repo" where
  "cmd_add c name f fparams nparam r =
     (if cmd_index r < cmd_max_entries c then
        let cmd_new = \<lparr> l_nparams = nparam, l_fmt = fparams, l_name = name, l_function = f \<rparr>;
            xs = slot_write (cmd_list r) (cmd_index r) cmd_new;
            srt = (if name \<noteq> ''null'' \<and> cmd_is_sorted r \<and> 1 < cmd_index r
                   then \<not> 0 < strcmp (l_name (xs ! (cmd_index r - 1))) (l_name (xs ! cmd_index r))
                   else cmd_is_sorted r)
        in (int (cmd_index r) + 1,
            r\<lparr> cmd_list := xs, cmd_is_sorted := srt, cmd_index := cmd_index r + 1 \<rparr>)
      else (CMD_ERROR, r))"

section \<open>Lookup\<close>

definition cmd_get_idx :: "sch_config \<Rightarrow> int \<Rightarrow> cmd_repo \<Rightarrow> cmd_t option c_result" where
  "cmd_get_idx c idx r =
     (if idx < int (cmd_max_entries c) then
        if idx < 0 then Inl OutOfBounds
        else if nat idx < length (cmd_list r) then
          let cmd_found = cmd_list r ! nat idx in
          Inr (Some \<lparr> c_id = idx, c_nparams = l_nparams cmd_found, c_fmt = l_fmt cmd_found,
                      c_params = None, c_function = l_function cmd_found \<rparr>)
        else Inr (Some \<lparr> c_id = idx, c_nparams = 0, c_fmt = '''', c_params = None, c_function = '''' \<rparr>)
      else Inr None)"

text \<open>The loop of \<^verbatim>\<open>cmd_get_str\<close> and \<^verbatim>\<open>cmd_get_fmt\<close>: the first slot with that name.\<close>

function find_slot :: "nat \<Rightarrow> string \<Rightarrow> cmd_list_t list \<Rightarrow> nat \<Rightarrow> nat option c_result" where
  "find_slot n name xs i =
     (if i < n then
        if i < length xs then
          if strcmp name (l_name (xs ! i)) = 0 then Inr (Some i) else find_slot n name xs (i + 1)
        else Inl NullDeref
      else Inr None)"
  by pat_completeness auto
termination
  by (relation "measure (\<lambda>(n, name, xs, i). n - i)") auto

definition cmd_get_str :: "sch_config \<Rightarrow> string \<Rightarrow> cmd_repo \<Rightarrow> cmd_t option c_result" where
  "cmd_get_str c name r =
     c_bind (find_slot (cmd_max_entries c) name (cmd_list r) 0)
       (\<lambda>res. case res of None \<Rightarrow> Inr None | Some i \<Rightarrow> cmd_get_idx c (int i) r)"

definition cmd_get_name :: "sch_config \<Rightarrow> int \<Rightarrow> cmd_repo \<Rightarrow> string option c_result" where
  "cmd_get_name c idx r =
     (if idx < int (cmd_max_entries c) then
        if idx < 0 then Inl OutOfBounds
        else if nat idx < length (cmd_list r) then Inr (Some (l_name (cmd_list r ! nat idx)))
        else Inl NullDeref
      else Inr None)"

text \<open>
  \<^verbatim>\<open>cmd_get_fmt\<close> returns a 30-byte block; \<open>heap\<close> is what \<^verbatim>\<open>malloc\<close> left in it, which is what
  the caller gets when no command has that name.
\<close>

definition cmd_get_fmt :: "sch_config \<Rightarrow> (nat \<Rightarrow> char) \<Rightarrow> string \<Rightarrow> cmd_repo \<Rightarrow> char list c_result" where
  "cmd_get_fmt c heap name r =
     c_bind (find_slot (cmd_max_entries c) name (cmd_list r) 0)
       (\<lambda>res. case res of
          None \<Rightarrow> Inr (map heap [0..<30])
        | Some i \<Rightarrow>
            let f = l_fmt (cmd_list r ! i) in
            if length f < 30 then Inr (f @ NUL # map heap [length f + 1..<30]) else Inl HeapOverflow)"

section \<open>Parameters of a command\<close>

text \<open>A command pointer may be NULL (None); the operations then leave it alone.\<close>

definition cmd_add_params_raw :: "cmd_t option \<Rightarrow> char list option \<Rightarrow> nat \<Rightarrow> cmd_t option c_result" where
  "cmd_add_params_raw cmd params len =
     (case (cmd, params) of
        (Some k, Some p) \<Rightarrow>
          if len \<le> length p then Inr (Some (k\<lparr> c_params := Some (take len p) \<rparr>)) else Inl OutOfBounds
      | _ \<Rightarrow> Inr cmd)"

definition cmd_add_params_str :: "cmd_t option \<Rightarrow> string \<Rightarrow> cmd_t option" where
  "cmd_add_params_str cmd params =
     (let len_param = (if SCH_CMD_MAX_STR_PARAMS < length params then SCH_CMD_MAX_STR_PARAMS
                       else length params) in
      case cmd of
        Some k \<Rightarrow> if len_param \<noteq> 0 then Some (k\<lparr> c_params := Some (strncpy params (len_param + 1)) \<rparr>)
                 else cmd
      | None \<Rightarrow> None)"

text \<open>
  \<^verbatim>\<open>cmd_add_params_strAndraw\<close> appends the raw bytes with \<^verbatim>\<open>strcat\<close>, which copies up to their first
  NUL: the block overruns when that is further than \<open>len\<close>, and a raw part with no NUL in it is
  read past its end.
\<close>

definition cmd_add_params_strAndraw ::
  "cmd_t option \<Rightarrow> string \<Rightarrow> char list \<Rightarrow> nat \<Rightarrow> cmd_t option c_result" where
  "cmd_add_params_strAndraw cmd paramStr paramsRaw len =
     (case cmd of
        Some k \<Rightarrow>
          if paramStr \<noteq> [] then
            c_bind (c_str paramsRaw) (\<lambda>raw.
              if length raw \<le> len
              then Inr (Some (k\<lparr> c_params :=
                     Some (paramStr @ raw @ replicate (len - length raw + 1) NUL) \<rparr>))
              else Inl HeapOverflow)
          else Inr cmd
      | None \<Rightarrow> Inr None)"

definition cmd_add_params_var :: "cmd_t option \<Rightarrow> c_arg list \<Rightarrow> cmd_t option c_result" where
  "cmd_add_params_var cmd args =
     (case cmd of
        Some k \<Rightarrow>
          let str_params = vsprintf (directives (c_fmt k)) args in
          if length str_params < SCH_CMD_MAX_STR_PARAMS then Inr (cmd_add_params_str cmd str_params)
          else Inl StackOverflow
      | None \<Rightarrow> Inr None)"

section \<open>Command lines\<close>

definition cmd_parse_from_str :: "sch_config \<Rightarrow> string \<Rightarrow> cmd_repo \<Rightarrow> cmd_t option c_result" where
  "cmd_parse_from_str c buff r =
     (if 0 < length buff then
        case sscanf buff ''%s %n'' of
          (ok, [VStr tmp_cmd, VCount nxt]) \<Rightarrow>
            if 0 < ok then
              c_bind (cmd_get_str c tmp_cmd r) (\<lambda>new_cmd.
                case new_cmd of
                  Some k \<Rightarrow>
                    if nxt < length buff then Inr (cmd_add_params_str new_cmd (drop nxt buff))
                    else Inr (cmd_add_params_str new_cmd '''')
                | None \<Rightarrow> Inr None)
            else Inr None
        | _ \<Rightarrow> Inr None
      else Inr None)"

text \<open>
  \<^verbatim>\<open>fix_fmt\<close>: commas become spaces.  The terminator goes one byte too far, so byte
  \<open>length fmt\<close> of the block keeps what \<^verbatim>\<open>malloc\<close> left there.
\<close>

definition fix_fmt :: "(nat \<Rightarrow> char) \<Rightarrow> string \<Rightarrow> char list c_result" where
  "fix_fmt heap fmt =
     (if length fmt + 1 < SCH_CMD_MAX_STR_PARAMS then
        Inr (map (\<lambda>ch. if ch = CHR '','' then CHR '' '' else ch) fmt @ heap (length fmt) # NUL #
             map heap [length fmt + 2..<SCH_CMD_MAX_STR_PARAMS])
      else Inl HeapOverflow)"

section \<open>Sorting the table\<close>

text \<open>\<^verbatim>\<open>for (int j = i; j > pivot; j--) commands[j] = commands[j-1];\<close>\<close>

fun shift_right :: "cmd_list_t list \<Rightarrow> nat \<Rightarrow> nat \<Rightarrow> cmd_list_t list" where
  "shift_right xs j pivot =
     (if pivot < j then shift_right (xs[j := xs ! (j - 1)]) (j - 1) pivot else xs)"

declare shift_right.simps [simp del]

text \<open>The outer \<^verbatim>\<open>for\<close> of \<^verbatim>\<open>quicksort_by_name\<close>, with the array and the pivot position as state.\<close>

function partition_by_name ::
  "cmd_list_t list \<Rightarrow> nat \<Rightarrow> nat \<Rightarrow> nat \<Rightarrow> cmd_list_t list \<times> nat" where
  "partition_by_name xs i e pivot =
     (if i \<le> e then
        if strcmp (l_name (xs ! i)) (l_name (xs ! pivot)) < 0 then
          let aux = xs ! i; ys = (shift_right xs i pivot)[pivot := aux] in
          partition_by_name ys (i + 1) e (pivot + 1)
        else partition_by_name xs (i + 1) e pivot
      else (xs, pivot))"
  by pat_completeness auto
termination
  by (relation "measure (\<lambda>(xs, i, e, p). Suc e - i)") auto

declare partition_by_name.simps [simp del]

text \<open>What the loops compute, on a list split at the positions they work on.\<close>

lemma rotate_slice:
  "(shift_right (A @ M @ y # R) (length A + length M) (length A))[length A := z] = A @ z # M @ R"
proof (induction M arbitrary: y R rule: rev_induct)
  case Nil
  then show ?case by (simp add: shift_right.simps)
next
  case (snoc m N)
  have "shift_right (A @ (N @ [m]) @ y # R) (length A + length (N @ [m])) (length A) =
          shift_right (A @ N @ m # m # R) (length A + length N) (length A)"
    by (subst shift_right.simps) (simp add: nth_append list_update_append)
  then show ?case using snoc.IH [of m "m # R"] by simp
qed

lemma partition_by_name_slice:
  assumes "p = length A + length S" "i = p + 1 + length G" "e + 1 = i + length R"
  shows "partition_by_name (A @ S @ (x # G) @ R @ C) i e p =
    (A @ S @ filter (\<lambda>y. l_name y < l_name x) R @ (x # G) @ filter (\<lambda>y. \<not> l_name y < l_name x) R @ C,
     p + length (filter (\<lambda>y. l_name y < l_name x) R))"
  using assms
proof (induction R arbitrary: S G i p)
  case Nil
  then show ?case by (simp add: partition_by_name.simps)
next
  case (Cons y R)
  let ?xs = "A @ S @ (x # G) @ (y # R) @ C"
  have i: "i \<le> e" "?xs ! i = y" "?xs ! p = x"
    using Cons.prems by (simp_all add: nth_append)
  show ?case
  proof (cases "l_name y < l_name x")
    case True
    have "(shift_right ?xs i p)[p := y] = A @ (S @ [y]) @ (x # G) @ R @ C"
      using rotate_slice [of "A @ S" "x # G" y "R @ C" y] Cons.prems by simp
    moreover have "partition_by_name (A @ (S @ [y]) @ (x # G) @ R @ C) (i + 1) e (p + 1) =
      (A @ (S @ [y]) @ filter (\<lambda>y. l_name y < l_name x) R @ (x # G) @
         filter (\<lambda>y. \<not> l_name y < l_name x) R @ C,
       p + 1 + length (filter (\<lambda>y. l_name y < l_name x) R))"
      using Cons.prems by (intro Cons.IH) simp_all
    ultimately show ?thesis
      using i True by (subst partition_by_name.simps) (simp add: Let_def)
  next
    case False
    have "partition_by_name (A @ S @ (x # G @ [y]) @ R @ C) (i + 1) e p =
      (A @ S @ filter (\<lambda>y. l_name y < l_name x) R @ (x # G @ [y]) @
         filter (\<lambda>y. \<not> l_name y < l_name x) R @ C,
       p + length (filter (\<lambda>y. l_name y < l_name x) R))"
      using Cons.prems by (intro Cons.IH) simp_all
    then show ?thesis
      using i False by (subst partition_by_name.simps) simp
  qed
qed

lemma slice_exists:
  assumes "start < e" "e < length xs"
  obtains A x B C where "xs = A @ (x # B) @ C" "length A = start" "length A + length B = e"
proof -
  have "xs = take start xs @ drop start xs" by simp
  moreover have "drop start xs = xs ! start # drop (Suc start) xs"
    using assms by (simp add: Cons_nth_drop_Suc)
  moreover have "drop (Suc start) xs = take (e - start) (drop (Suc start) xs) @ drop (e - start) (drop (Suc start) xs)"
    by (simp only: append_take_drop_id)
  ultimately have "xs = take start xs @ (xs ! start # take (e - start) (drop (Suc start) xs)) @
      drop (e - start) (drop (Suc start) xs)"
    by (metis append_Cons)
  then show ?thesis by (rule that) (use assms in simp_all)
qed

lemma partition_whole_slice:
  assumes "length A = start" "length A + length B = e"
  shows "partition_by_name (A @ (x # B) @ C) (start + 1) e start =
    (A @ filter (\<lambda>y. l_name y < l_name x) B @ x # filter (\<lambda>y. \<not> l_name y < l_name x) B @ C,
     start + length (filter (\<lambda>y. l_name y < l_name x) B))"
  using partition_by_name_slice [of start A "[]" "start + 1" "[]" e B x C] assms by simp

text \<open>
  The first recursive call of the source keeps the pivot (\<^verbatim>\<open>quicksort_by_name(commands, start,
  pivot)\<close>), so its range shrinks only when the pivot does not land on the last slot.  When it
  does, the next call cannot land there again: the last slot then holds a strictly greater name
  than the first.  \<open>pivot_last\<close> is that bit of the measure.
\<close>

definition pivot_last :: "cmd_list_t list \<Rightarrow> nat \<Rightarrow> nat \<Rightarrow> bool" where
  "pivot_last xs start e \<longleftrightarrow> start < e \<and> snd (partition_by_name xs (start + 1) e start) = e"

definition qs_measure :: "cmd_list_t list \<Rightarrow> nat \<Rightarrow> nat \<Rightarrow> nat" where
  "qs_measure xs start e = 2 * (e - start) + (if pivot_last xs start e then 1 else 0)"

lemma partition_pivot_bounds:
  assumes "start < e" "e < length xs" "partition_by_name xs (start + 1) e start = (ys, p)"
  shows "start \<le> p" "p \<le> e" "length ys = length xs"
proof -
  obtain A x B C where "xs = A @ (x # B) @ C" "length A = start" "length A + length B = e"
    using slice_exists assms(1,2) by blast
  then have p: "p = start + length (filter (\<lambda>y. l_name y < l_name x) B)"
    and ys: "ys = A @ filter (\<lambda>y. l_name y < l_name x) B @ x # filter (\<lambda>y. \<not> l_name y < l_name x) B @ C"
    using assms(3) partition_whole_slice [of A start B e x C] by simp_all
  show "start \<le> p" by (simp add: p)
  show "p \<le> e" using \<open>length A = start\<close> \<open>length A + length B = e\<close>
    length_filter_le [of "\<lambda>y. l_name y < l_name x" B] unfolding p by linarith
  show "length ys = length xs"
    using sum_length_filter_compl [of "\<lambda>y. l_name y < l_name x" B]
    by (simp add: ys \<open>xs = A @ (x # B) @ C\<close>)
qed

lemma qs_measure_left:
  assumes "start < e" "e < length xs" "partition_by_name xs (start + 1) e start = (ys, p)"
  shows "qs_measure ys start p < qs_measure xs start e"
proof (cases "p = e")
  case False
  then show ?thesis using partition_pivot_bounds [OF assms] assms(1)
    unfolding qs_measure_def by auto
next
  case True
  obtain A x B C where xs: "xs = A @ (x # B) @ C" and A: "length A = start" "length A + length B = e"
    using slice_exists assms(1,2) by blast
  let ?lt = "\<lambda>y. l_name y < l_name x"
  have "length (filter ?lt B) = length B"
    using assms(3) partition_whole_slice [OF A, of x C] True A by (simp add: xs)
  then have lt: "\<forall>y \<in> set B. ?lt y"
    by (metis length_filter_less less_irrefl)
  then have split: "filter ?lt B = B" "filter (\<lambda>y. \<not> ?lt y) B = []"
    by simp_all
  obtain b B' where B: "B = b # B'" using A assms(1) by (cases B) auto
  have "ys = A @ B @ [x] @ C"
    using assms(3) partition_whole_slice [OF A, of x C] by (simp add: xs split)
  then have ys: "ys = A @ (b # B' @ [x]) @ C" by (simp add: B)
  have "\<not> l_name x < l_name b" using lt by (auto simp: B)
  then have "length (filter (\<lambda>y. l_name y < l_name b) (B' @ [x])) < length (B' @ [x])"
    by (simp add: le_imp_less_Suc)
  then have "\<not> pivot_last ys start p"
    using partition_whole_slice [of A start "B' @ [x]" e b C] A True B by (simp add: pivot_last_def ys)
  moreover have "pivot_last xs start e" using assms True by (simp add: pivot_last_def)
  ultimately show ?thesis using True by (simp add: qs_measure_def)
qed

lemma qs_measure_right:
  assumes "start < e" "e < length xs" "partition_by_name xs (start + 1) e start = (ys, p)"
  shows "qs_measure zs (p + 1) e < qs_measure xs start e"
  using partition_pivot_bounds [OF assms] assms(1) unfolding qs_measure_def by auto

text \<open>The range always lies inside the table; outside it the C would read past the array.\<close>

function quicksort_by_name :: "cmd_list_t list \<Rightarrow> nat \<Rightarrow> nat \<Rightarrow> cmd_list_t list" where
  "quicksort_by_name xs start e =
     (if e \<le> start \<or> length xs \<le> e then xs
      else let (ys, pivot) = partition_by_name xs (start + 1) e start;
               zs = quicksort_by_name ys start pivot
           in quicksort_by_name zs (pivot + 1) e)"
  by pat_completeness auto
termination
proof (relation "measure (\<lambda>(xs, start, e). qs_measure xs start e)", goal_cases)
  case 1
  show ?case by simp
next
  case (2 xs start e z ys pivot)
  then show ?case using qs_measure_left [of start e xs ys pivot] by simp
next
  case (3 xs start e z ys pivot zs)
  then show ?case using qs_measure_right [of start e xs ys pivot zs] by simp
qed

declare quicksort_by_name.simps [simp del]

text \<open>\<^verbatim>\<open>quicksort_by_name(cmd_list, 0, cmd_index-1)\<close>: an empty table gives an empty range in both.\<close>

definition sort_cmd_list :: "cmd_repo \<Rightarrow> cmd_repo" where
  "sort_cmd_list r =
     (if \<not> cmd_is_sorted r
      then r\<lparr> cmd_list := quicksort_by_name (cmd_list r) 0 (cmd_index r - 1), cmd_is_sorted := True \<rparr>
      else r)"

section \<open>The sort is the stable sort by name\<close>

lemma sort_key_partition:
  "sort_key f (filter (\<lambda>y. f y < f x) B @ [x]) @ sort_key f (filter (\<lambda>y. \<not> f y < f x) B) =
     sort_key f (x # B)" (is "?s = _")
proof -
  have "sorted (map f ?s)"
    by (auto simp: sorted_append)
  moreover have "mset ?s = mset (x # B)"
    by simp
  moreover have "filter (\<lambda>y. f k = f y) ?s = filter (\<lambda>y. f k = f y) (x # B)" for k
  proof -
    have stable: "filter (\<lambda>y. f k = f y) (sort_key f zs) = filter (\<lambda>y. f k = f y) zs" for zs
      using sort_key_stable [of f "f k" zs] by (simp add: eq_commute [of _ "f k"])
    have "filter (\<lambda>y. f k = f y) B =
        filter (\<lambda>y. f k = f y) (if f k < f x then filter (\<lambda>y. f y < f x) B
                                else filter (\<lambda>y. \<not> f y < f x) B)"
      by (auto intro: filter_cong)
    moreover have "filter (\<lambda>y. f k = f y) (if f k < f x then filter (\<lambda>y. \<not> f y < f x) B
                                else filter (\<lambda>y. f y < f x) B) = []"
      by (auto simp: filter_empty_conv)
    ultimately show ?thesis by (auto simp: stable simp del: filter_filter split: if_splits)
  qed
  ultimately show ?thesis by (metis properties_for_sort_key)
qed

lemma quicksort_by_name_slice:
  assumes "M \<noteq> []"
  shows "quicksort_by_name (A @ M @ C) (length A) (length A + length M - 1) = A @ sort_key l_name M @ C"
  using assms
proof (induction "qs_measure (A @ M @ C) (length A) (length A + length M - 1)"
    arbitrary: A M C rule: less_induct)
  case less
  obtain x B where M: "M = x # B" using less.prems by (cases M) auto
  show ?case
  proof (cases "B = []")
    case True
    then show ?thesis by (simp add: M quicksort_by_name.simps)
  next
    case False
    let ?xs = "A @ M @ C" and ?e = "length A + length M - 1"
    let ?S = "filter (\<lambda>y. l_name y < l_name x) B" and ?G = "filter (\<lambda>y. \<not> l_name y < l_name x) B"
    let ?p = "length A + length ?S"
    have rng: "length A < ?e" "?e < length ?xs" using False by (cases B; simp add: M)+
    have part: "partition_by_name ?xs (length A + 1) ?e (length A) = (A @ (?S @ [x]) @ ?G @ C, ?p)"
      using partition_whole_slice [of A "length A" B ?e x C] by (simp add: M)
    have "quicksort_by_name (A @ (?S @ [x]) @ (?G @ C)) (length A) (length A + length (?S @ [x]) - 1) =
        A @ sort_key l_name (?S @ [x]) @ ?G @ C"
      using qs_measure_left [OF rng part] by (intro less.hyps) simp_all
    then have left: "quicksort_by_name (A @ (?S @ [x]) @ ?G @ C) (length A) ?p =
        A @ sort_key l_name (?S @ [x]) @ ?G @ C"
      by simp
    let ?A' = "A @ sort_key l_name (?S @ [x])"
    have right: "quicksort_by_name (?A' @ ?G @ C) (?p + 1) ?e = ?A' @ sort_key l_name ?G @ C"
    proof (cases "?G = []")
      case True
      then have "?e < ?p + 1"
        using sum_length_filter_compl [of "\<lambda>y. l_name y < l_name x" B] by (simp add: M)
      then show ?thesis by (simp add: True quicksort_by_name.simps)
    next
      case False
      have e: "length ?A' + length ?G - 1 = ?e" and p: "length ?A' = ?p + 1"
        using sum_length_filter_compl [of "\<lambda>y. l_name y < l_name x" B] by (simp_all add: M)
      have "quicksort_by_name (?A' @ ?G @ C) (length ?A') (length ?A' + length ?G - 1) =
          ?A' @ sort_key l_name ?G @ C"
      proof (rule less.hyps)
        show "qs_measure (?A' @ ?G @ C) (length ?A') (length ?A' + length ?G - 1) <
            qs_measure ?xs (length A) ?e"
          unfolding e by (subst p) (rule qs_measure_right [OF rng part])
      qed (rule False)
      then show ?thesis unfolding e by (subst (asm) p)
    qed
    have "quicksort_by_name ?xs (length A) ?e = ?A' @ sort_key l_name ?G @ C"
      using rng part left right by (subst quicksort_by_name.simps) simp
    then show ?thesis using sort_key_partition [of l_name x B] by (simp add: M)
  qed
qed

lemma quicksort_by_name_prefix:
  assumes "n \<le> length xs"
  shows "quicksort_by_name xs 0 (n - 1) = sort_key l_name (take n xs) @ drop n xs"
proof (cases "n = 0")
  case True
  then show ?thesis by (simp add: quicksort_by_name.simps)
next
  case False
  then have "take n xs \<noteq> []" using assms by auto
  from quicksort_by_name_slice [OF this, of "[]" "drop n xs"] show ?thesis
    using assms by simp
qed


section \<open>Lookups\<close>

lemma find_slot_eq:
  "n \<le> length xs \<Longrightarrow> find_slot n name xs i = Inr (find (\<lambda>j. l_name (xs ! j) = name) [i..<n])"
proof (induction n name xs i rule: find_slot.induct)
  case (1 n name xs i)
  show ?case
  proof (cases "i < n")
    case True
    then have "[i..<n] = i # [i + 1..<n]" by (simp add: upt_conv_Cons)
    then show ?thesis using 1 True by (subst find_slot.simps) auto
  qed simp
qed

declare find_slot.simps [simp del]

lemma find_upt_nth:
  "find P xs = map_option ((!) xs) (find (\<lambda>j. P (xs ! j)) [0..<length xs])"
proof -
  have "find (\<lambda>j. P ((ys @ xs) ! j)) [length ys..<length ys + length xs] =
      map_option (\<lambda>i. length ys + i) (find (\<lambda>j. P (xs ! j)) [0..<length xs])" for ys xs
  proof -
    have "map (\<lambda>i. length ys + i) [0..<length xs] = [length ys..<length ys + length xs]"
      by (simp add: map_add_upt add.commute [of "length ys"])
    moreover have "find Q (map g zs) = map_option g (find (Q \<circ> g) zs)" for Q g and zs :: "nat list"
      by (induction zs) auto
    ultimately show ?thesis
      by (metis (mono_tags, lifting) comp_apply find_cong nth_append_length_plus)
  qed note shift = this
  show ?thesis
  proof (induction xs)
    case Nil
    then show ?case by simp
  next
    case (Cons x xs)
    have hd: "[0..<length (x # xs)] = 0 # [1..<1 + length xs]"
      by (simp add: upt_conv_Cons del: upt_Suc)
    have tl: "find (\<lambda>j. P ((x # xs) ! j)) [1..<1 + length xs] =
        map_option Suc (find (\<lambda>j. P (xs ! j)) [0..<length xs])"
      using shift [of "[x]"] by (simp del: upt_Suc)
    show ?case unfolding hd find.simps tl by (simp add: Cons option.map_comp comp_def)
  qed
qed

text \<open>What a lookup by name delivers: the command with that slot's contents.\<close>

definition cmd_of :: "nat \<Rightarrow> cmd_list_t \<Rightarrow> cmd_t" where
  "cmd_of i s = \<lparr> c_id = int i, c_nparams = l_nparams s, c_fmt = l_fmt s, c_params = None,
                  c_function = l_function s \<rparr>"

lemma cmd_get_idx_slot:
  "i < length (cmd_list r) \<Longrightarrow> i < cmd_max_entries c \<Longrightarrow>
     cmd_get_idx c (int i) r = Inr (Some (cmd_of i (cmd_list r ! i)))"
  by (simp add: cmd_get_idx_def cmd_of_def Let_def)

lemma cmd_get_str_find:
  assumes "length (cmd_list r) = cmd_max_entries c"
  shows "cmd_get_str c name r =
    Inr (map_option (\<lambda>i. cmd_of i (cmd_list r ! i))
          (find (\<lambda>j. l_name (cmd_list r ! j) = name) [0..<cmd_max_entries c]))"
proof (cases "find (\<lambda>j. l_name (cmd_list r ! j) = name) [0..<cmd_max_entries c]")
  case None
  then show ?thesis using assms by (simp add: cmd_get_str_def find_slot_eq)
next
  case (Some i)
  then have "i < cmd_max_entries c" by (auto simp: find_Some_iff)
  then show ?thesis using assms Some by (simp add: cmd_get_str_def find_slot_eq cmd_get_idx_slot)
qed

text \<open>A command without its index, which is only a position in the table.\<close>

definition forget_id :: "cmd_t \<Rightarrow> cmd_t" where
  "forget_id k = k\<lparr> c_id := 0 \<rparr>"

lemma forget_id_eq_cmd_of:
  "forget_id k = cmd_of 0 s \<longleftrightarrow> c_fmt k = l_fmt s \<and> c_nparams k = l_nparams s \<and>
     c_function k = l_function s \<and> c_params k = None"
  by (cases k) (auto simp: forget_id_def cmd_of_def)

lemma cmd_get_str_contents:
  assumes "length (cmd_list r) = cmd_max_entries c"
  shows "\<exists>res. cmd_get_str c name r = Inr res \<and>
    map_option forget_id res = map_option (cmd_of 0) (find (\<lambda>s. l_name s = name) (cmd_list r))"
  using assms find_upt_nth [of "\<lambda>s. l_name s = name" "cmd_list r"]
  by (auto simp: cmd_get_str_find option.map_comp comp_def forget_id_def cmd_of_def)

lemma find_eq_filter: "find P xs = (case filter P xs of [] \<Rightarrow> None | x # _ \<Rightarrow> Some x)"
  by (induction xs) auto

lemma find_sort_key:
  fixes f :: "'a \<Rightarrow> 'b::linorder"
  shows "find (\<lambda>s. f s = k) (sort_key f xs) = find (\<lambda>s. f s = k) xs"
  by (simp add: find_eq_filter sort_key_stable)

lemma find_append: "find P (xs @ ys) = (case find P xs of None \<Rightarrow> find P ys | Some x \<Rightarrow> Some x)"
  by (induction xs) auto

lemma find_sort_prefix:
  fixes f :: "'a \<Rightarrow> 'b::linorder"
  shows "find (\<lambda>s. f s = k) (sort_key f (take n xs) @ drop n xs) = find (\<lambda>s. f s = k) xs"
  using find_append [of "\<lambda>s. f s = k" "take n xs" "drop n xs"]
  by (simp add: find_append find_sort_key)

lemma sort_cmd_list_list:
  "cmd_index r \<le> length (cmd_list r) \<Longrightarrow>
     cmd_list (sort_cmd_list r) =
       (if cmd_is_sorted r then cmd_list r
        else sort_key l_name (take (cmd_index r) (cmd_list r)) @ drop (cmd_index r) (cmd_list r))"
  using quicksort_by_name_prefix [of "cmd_index r" "cmd_list r"] by (simp add: sort_cmd_list_def)


section \<open>The table as a bounded registry\<close>

text \<open>
  What the users of a table of bounded size rely on: a registration appends an entry while there
  is room and is dropped when there is none.
\<close>

locale registry =
  fixes inv :: "'r \<Rightarrow> bool"
    and reg :: "'e \<Rightarrow> 'r \<Rightarrow> 'r"
    and entries :: "'r \<Rightarrow> 'e list"
    and room :: "'r \<Rightarrow> nat"
  assumes inv_reg: "inv r \<Longrightarrow> inv (reg e r)"
    and entries_reg: "inv r \<Longrightarrow> 0 < room r \<Longrightarrow> entries (reg e r) = entries r @ [e]"
    and room_reg: "inv r \<Longrightarrow> 0 < room r \<Longrightarrow> room (reg e r) = room r - 1"
    and full_reg: "inv r \<Longrightarrow> room r = 0 \<Longrightarrow> entries (reg e r) = entries r \<and> room (reg e r) = 0"
begin

lemma inv_fold: "inv r \<Longrightarrow> inv (fold reg es r)"
  by (induction es arbitrary: r) (simp_all add: inv_reg)

lemma room_fold: "inv r \<Longrightarrow> room (fold reg es r) = room r - length es"
proof (induction es arbitrary: r)
  case (Cons e es)
  then show ?case by (cases "room r = 0") (simp_all add: inv_reg room_reg full_reg)
qed simp

lemma entries_fold: "inv r \<Longrightarrow> entries (fold reg es r) = entries r @ take (room r) es"
proof (induction es arbitrary: r)
  case (Cons e es)
  show ?case
  proof (cases "room r")
    case 0
    then show ?thesis using Cons by (simp add: inv_reg full_reg)
  next
    case (Suc n)
    then show ?thesis using Cons by (simp add: inv_reg room_reg entries_reg)
  qed
qed simp

end

definition cmd_entry :: "string \<Rightarrow> cmdFunction \<Rightarrow> string \<Rightarrow> int \<Rightarrow> cmd_list_t" where
  "cmd_entry name f fmt n = \<lparr> l_nparams = n, l_fmt = fmt, l_name = name, l_function = f \<rparr>"

definition cmd_register :: "sch_config \<Rightarrow> cmd_list_t \<Rightarrow> cmd_repo \<Rightarrow> cmd_repo" where
  "cmd_register c s r = snd (cmd_add c (l_name s) (l_function s) (l_fmt s) (l_nparams s) r)"

definition registered :: "cmd_repo \<Rightarrow> cmd_list_t list" where
  "registered r = take (cmd_index r) (cmd_list r)"

definition cmd_wf :: "sch_config \<Rightarrow> cmd_repo \<Rightarrow> bool" where
  "cmd_wf c r \<longleftrightarrow> cmd_index r \<le> length (cmd_list r) \<and> length (cmd_list r) \<le> cmd_max_entries c"

definition cmd_room :: "sch_config \<Rightarrow> cmd_repo \<Rightarrow> nat" where
  "cmd_room c r = cmd_max_entries c - cmd_index r"

lemma cmd_entry_eta [simp]: "cmd_entry (l_name s) (l_function s) (l_fmt s) (l_nparams s) = s"
  by (simp add: cmd_entry_def)

lemma cmd_add_fields [cmd_simps]:
  assumes "cmd_index r < cmd_max_entries c"
  shows "fst (cmd_add c name f fmt n r) = int (cmd_index r) + 1"
    "cmd_index (snd (cmd_add c name f fmt n r)) = cmd_index r + 1"
    "cmd_list (snd (cmd_add c name f fmt n r)) =
       slot_write (cmd_list r) (cmd_index r) (cmd_entry name f fmt n)"
  using assms by (simp_all add: cmd_add_def Let_def cmd_entry_def)

lemma cmd_add_full [cmd_simps]:
  "\<not> cmd_index r < cmd_max_entries c \<Longrightarrow> cmd_add c name f fmt n r = (CMD_ERROR, r)"
  by (simp add: cmd_add_def)

lemma take_slot_write:
  "i \<le> length xs \<Longrightarrow> take (Suc i) (slot_write xs i x) = take i xs @ [x]"
  by (auto simp: slot_write_def take_Suc_conv_app_nth)

lemma drop_slot_write:
  "i \<le> length xs \<Longrightarrow> drop (Suc i) (slot_write xs i x) = drop (Suc i) xs"
  by (auto simp: slot_write_def)

lemma length_slot_write:
  "i \<le> length xs \<Longrightarrow> length (slot_write xs i x) = max (length xs) (Suc i)"
  by (auto simp: slot_write_def)

interpretation ct: registry "cmd_wf c" "cmd_register c" registered "cmd_room c" for c
proof (unfold_locales, goal_cases)
  case (1 r e)
  then show ?case
    by (cases "cmd_index r < cmd_max_entries c")
       (auto simp: cmd_wf_def cmd_register_def cmd_simps length_slot_write)
next
  case (2 r e)
  then show ?case
    by (simp add: cmd_wf_def cmd_register_def cmd_room_def registered_def cmd_simps take_slot_write)
next
  case (3 r e)
  then show ?case by (simp add: cmd_register_def cmd_room_def cmd_simps)
next
  case (4 r e)
  then show ?case by (simp add: cmd_register_def cmd_room_def cmd_simps)
qed

text \<open>Every slot beyond the registered ones keeps its contents.\<close>

lemma cmd_register_list:
  assumes "cmd_wf c r" "0 < cmd_room c r"
  shows "cmd_list (cmd_register c s r) = registered r @ s # drop (Suc (cmd_index r)) (cmd_list r)"
    "cmd_index (cmd_register c s r) = Suc (cmd_index r)"
proof -
  have i: "cmd_index r < cmd_max_entries c" "cmd_index r \<le> length (cmd_list r)"
    using assms by (simp_all add: cmd_wf_def cmd_room_def)
  let ?ys = "slot_write (cmd_list r) (cmd_index r) s"
  have "?ys = take (Suc (cmd_index r)) ?ys @ drop (Suc (cmd_index r)) ?ys"
    by (simp only: append_take_drop_id)
  then show "cmd_list (cmd_register c s r) = registered r @ s # drop (Suc (cmd_index r)) (cmd_list r)"
    using i by (simp add: cmd_register_def cmd_simps registered_def take_slot_write drop_slot_write)
  show "cmd_index (cmd_register c s r) = Suc (cmd_index r)"
    using i by (simp add: cmd_register_def cmd_simps)
qed

end
