(* ===== verification/CmdTable.thy ===== *)
theory CmdTable
  imports RepoCommand
begin

text \<open>
  The commands each module registers (the \<^verbatim>\<open>cmd_*_init\<close> functions of \<^verbatim>\<open>src/system/cmd*.c\<close>) and
  the start-up of the command repository (\<^verbatim>\<open>cmd_repo_init\<close>), with the listing of the table and
  the console commands.  The drivers that \<^verbatim>\<open>cmd_eps_init\<close> sets up are outside the sources.
\<close>

section \<open>The registrations\<close>

definition cmd_obc_table :: "sch_config \<Rightarrow> cmd_list_t list" where
  "cmd_obc_table c =
     [cmd_entry ''obc_ident'' ''obc_ident'' '''' 0,
      cmd_entry ''obc_debug'' ''obc_debug'' ''%d'' 1,
      cmd_entry ''obc_reset'' ''obc_reset'' '''' 0,
      cmd_entry ''obc_get_mem'' ''obc_get_os_memory'' '''' 0,
      cmd_entry ''obc_set_time'' ''obc_set_time'' ''%d'' 1,
      cmd_entry ''obc_get_time'' ''obc_get_time'' ''%d'' 1,
      cmd_entry ''obc_reset_wdt'' ''obc_reset_wdt'' '''' 0,
      cmd_entry ''obc_system'' ''obc_system'' ''%s'' 1,
      cmd_entry ''obc_set_pwm_duty'' ''obc_set_pwm_duty'' ''%d %d'' 2,
      cmd_entry ''obc_get_sensors'' ''obc_get_sensors'' '''' 0,
      cmd_entry ''obc_update_status'' ''obc_update_status'' '''' 0] @
     (if platform_of c = NANOMIND then
     [cmd_entry ''istage_pwr'' ''gssb_pwr'' ''%d %d'' 2,
      cmd_entry ''istage_select'' ''gssb_select_dev'' ''%d'' 1,
      cmd_entry ''istage_set_addr'' ''gssb_set_addr'' ''%d'' 1,
      cmd_entry ''istage_ident'' ''gssb_ident'' '''' 0,
      cmd_entry ''istage_get_config'' ''gssb_istage_get_settings'' '''' 0,
      cmd_entry ''istage_set_config'' ''gssb_istage_settings'' ''%d %d %d %d %d %d %d'' 7,
      cmd_entry ''istage_reset'' ''gssb_istage_reboot'' '''' 0,
      cmd_entry ''istage_deploy'' ''gssb_istage_deploy'' '''' 0,
      cmd_entry ''istage_unlock'' ''gssb_unlock'' '''' 0,
      cmd_entry ''istage_set_arm'' ''gssb_istage_arm'' ''%d'' 1,
      cmd_entry ''istage_get_sensors'' ''gssb_istage_sensors'' '''' 0,
      cmd_entry ''istage_get_status'' ''gssb_istage_status'' '''' 0,
      cmd_entry ''istage_update_status'' ''gssb_istage_update_status'' '''' 0,
      cmd_entry ''istage_antenna_release'' ''gssb_istage_antenna_release'' ''%d %d %d %d'' 4]
      else [])"

definition cmd_drp_table :: "sch_config \<Rightarrow> cmd_list_t list" where
  "cmd_drp_table c =
     [cmd_entry ''drp_ebf'' ''drp_execute_before_flight'' ''%d'' 1,
      cmd_entry ''drp_get_vars'' ''drp_print_system_vars'' '''' 0,
      cmd_entry ''drp_set_var'' ''drp_update_sys_var_idx'' ''%d %d'' 2,
      cmd_entry ''drp_add_hrs_alive'' ''drp_update_hours_alive'' ''%d'' 1,
      cmd_entry ''drp_clear_gnd_wdt'' ''drp_clear_gnd_wdt'' '''' 0,
      cmd_entry ''drp_test_system_vars'' ''drp_test_system_vars'' '''' 0,
      cmd_entry ''drp_set_deployed'' ''drp_set_deployed'' ''%d'' 1]"

definition cmd_eps_table :: "sch_config \<Rightarrow> cmd_list_t list" where
  "cmd_eps_table c = (if use_nanopower c then
     [cmd_entry ''eps_hard_reset'' ''eps_hard_reset'' '''' 0,
      cmd_entry ''eps_get_hk'' ''eps_get_hk'' '''' 0,
      cmd_entry ''eps_get_config'' ''eps_get_config'' '''' 0,
      cmd_entry ''eps_set_heater'' ''eps_set_heater'' ''%d %d'' 2,
      cmd_entry ''eps_update_status'' ''eps_update_status_vars'' '''' 0]
      else [])"

definition cmd_com_table :: "sch_config \<Rightarrow> cmd_list_t list" where
  "cmd_com_table c =
     [cmd_entry ''com_ping'' ''com_ping'' ''%d'' 1,
      cmd_entry ''com_send_rpt'' ''com_send_rpt'' ''%d %s'' 2,
      cmd_entry ''com_send_cmd'' ''com_send_cmd'' ''%d %n'' 1,
      cmd_entry ''com_send_tc'' ''com_send_tc_frame'' ''%d %n'' 1,
      cmd_entry ''com_send_data'' ''com_send_data'' ''%p'' 1,
      cmd_entry ''com_debug'' ''com_debug'' '''' 0] @
     (if use_nanocom c then
     [cmd_entry ''com_reset_wdt'' ''com_reset_wdt'' ''%d'' 1,
      cmd_entry ''com_get_config'' ''com_get_config'' ''%s'' 1,
      cmd_entry ''com_set_config'' ''com_set_config'' ''%s %s'' 2,
      cmd_entry ''com_update_status'' ''com_set_config'' '''' 2]
      else [])"

definition cmd_tm_table :: "sch_config \<Rightarrow> cmd_list_t list" where
  "cmd_tm_table c =
     [cmd_entry ''tm_parse_status'' ''tm_parse_status'' '''' 0,
      cmd_entry ''tm_send_status'' ''tm_send_status'' ''%d'' 1,
      cmd_entry ''tm_send_last'' ''tm_send_last'' ''%u %u'' 2,
      cmd_entry ''tm_send_all'' ''tm_send_all'' ''%u %u'' 2,
      cmd_entry ''tm_send_from'' ''tm_send_from'' ''%u %u %u'' 3,
      cmd_entry ''tm_set_ack'' ''tm_set_ack'' ''%u %u'' 2]"

definition cmd_subsys_table :: "sch_config \<Rightarrow> cmd_list_t list" where
  "cmd_subsys_table c =
     [cmd_entry ''get_gps_data'' ''get_gps_data'' '''' 0,
      cmd_entry ''get_dpl_data'' ''get_dpl_data'' '''' 0,
      cmd_entry ''get_prs_data'' ''get_prs_data'' '''' 0,
      cmd_entry ''open_dpl_1'' ''open_dpl_1'' '''' 0,
      cmd_entry ''open_dpl_2'' ''open_dpl_2'' '''' 0,
      cmd_entry ''open_dpl_sm'' ''open_dpl_sm'' '''' 0,
      cmd_entry ''close_dpl_sm'' ''close_dpl_sm'' '''' 0,
      cmd_entry ''send_iridium_data'' ''send_iridium_data'' '''' 2,
      cmd_entry ''send_iridium_msg1'' ''send_iridium_msg1'' '''' 0,
      cmd_entry ''send_iridium_msg2'' ''send_iridium_msg2'' '''' 0,
      cmd_entry ''run_sstv'' ''run_sstv'' '''' 0,
      cmd_entry ''send_xbee_data'' ''send_xbee_data'' '''' 0,
      cmd_entry ''send_sun_data'' ''send_sun_data'' '''' 0]"

definition cmd_rw_table :: "sch_config \<Rightarrow> cmd_list_t list" where
  "cmd_rw_table c = (if platform_of c = LINUX then
     [cmd_entry ''rw_sample_speed'' ''rw_sample_speed'' '''' 0,
      cmd_entry ''rw_sample_current'' ''rw_sample_current'' '''' 0,
      cmd_entry ''rw_get_speed'' ''rw_get_speed'' '''' 0,
      cmd_entry ''rw_get_current'' ''rw_get_current'' '''' 0,
      cmd_entry ''rw_set_speed'' ''rw_set_speed'' ''%d'' 1]
      else [])"

definition cmd_fod_table :: "sch_config \<Rightarrow> cmd_list_t list" where
  "cmd_fod_table c =
     [cmd_entry ''fod_update_data'' ''fod_update_data'' ''%d %d %d %d %f %f %f'' 7,
      cmd_entry ''fod_send_beacon'' ''fod_send_beacon'' '''' 0,
      cmd_entry ''fod_deploy'' ''deploy_femtosats'' '''' 0,
      cmd_entry ''fod_get_status'' ''fod_get_status'' '''' 0,
      cmd_entry ''fod_get_femtosat_data'' ''get_femtosat_data'' '''' 0,
      cmd_entry ''fod_set_on_time'' ''set_on_time'' ''%d'' 1,
      cmd_entry ''fod_get_config'' ''fod_get_config'' '''' 0,
      cmd_entry ''fod_get_version'' ''fod_get_version'' '''' 0,
      cmd_entry ''fod_enable_low_power'' ''enable_low_power_mode'' '''' 0,
      cmd_entry ''fod_disable_low_power'' ''disable_low_power_mode'' '''' 0,
      cmd_entry ''fod_help'' ''fod_help'' '''' 0]"

definition cmd_console_table :: "sch_config \<Rightarrow> cmd_list_t list" where
  "cmd_console_table c =
     [cmd_entry ''test'' ''con_debug_msg'' ''%s'' 1,
      cmd_entry ''help'' ''con_help'' '''' 0]"

definition cmd_fp_table :: "sch_config \<Rightarrow> cmd_list_t list" where
  "cmd_fp_table c =
     [cmd_entry ''fp_set_cmd'' ''fp_set'' ''%d %d %d %d %d %d %s %s %d %d'' 10,
      cmd_entry ''fp_del_cmd'' ''fp_delete'' ''%d %d %d %d %d %d'' 6,
      cmd_entry ''fp_show'' ''fp_show'' '''' 0,
      cmd_entry ''fp_reset'' ''fp_reset'' '''' 0,
      cmd_entry ''fp_test_params'' ''test_fp_params'' ''%d %s %d'' 3]"

definition cmd_add_each :: "sch_config \<Rightarrow> cmd_list_t list \<Rightarrow> cmd_repo \<Rightarrow> cmd_repo" where
  "cmd_add_each c es r = fold (cmd_register c) es r"

definition cmd_table :: "sch_config \<Rightarrow> cmd_list_t list" where
  "cmd_table c =
     cmd_obc_table c @ cmd_drp_table c @
     (if use_nanopower c then cmd_eps_table c else []) @
     (if comm_enable c then cmd_com_table c @ cmd_tm_table c @ cmd_subsys_table c @ cmd_rw_table c @
        cmd_fod_table c else []) @
     cmd_console_table c @
     (if fp_enabled c then cmd_fp_table c else [])"

section \<open>Start-up\<close>

definition cmd_null :: "string \<Rightarrow> char list option \<Rightarrow> int \<Rightarrow> int" where
  "cmd_null fparams params nparam = CMD_ERROR"

abbreviation null_entry :: cmd_list_t where
  "null_entry \<equiv> cmd_entry ''null'' ''cmd_null'' '''' 0"

text \<open>\<^verbatim>\<open>do n_cmd = cmd_add("null", cmd_null, "", 0); while (n_cmd < SCH_CMD_MAX_ENTRIES);\<close>\<close>

partial_function (option) fill_null :: "sch_config \<Rightarrow> cmd_repo \<Rightarrow> cmd_repo option" where
  "fill_null c r =
     (let (n_cmd, r') = cmd_add c ''null'' ''cmd_null'' '''' 0 r in
      if n_cmd < int (cmd_max_entries c) then fill_null c r' else Some r')"

definition cmd_repo_init :: "sch_config \<Rightarrow> cmd_repo \<Rightarrow> (int \<times> cmd_repo) option" where
  "cmd_repo_init c r =
     (let r1 = cmd_add_each c (cmd_table c) (r\<lparr> cmd_index := 0 \<rparr>) in
      case fill_null c r1 of
        None \<Rightarrow> None
      | Some r2 \<Rightarrow> Some (CMD_OK, r2\<lparr> cmd_index := cmd_index r1 \<rparr>))"

section \<open>Listing the table\<close>

definition pad_left :: "nat \<Rightarrow> string \<Rightarrow> string" where
  "pad_left w s = replicate (w - length s) (CHR '' '') @ s"

text \<open>One line of \<^verbatim>\<open>cmd_print_all\<close>: dashes up to column 30, then the format.\<close>

definition print_entry :: "nat \<Rightarrow> cmd_list_t \<Rightarrow> string" where
  "print_entry i s =
     (let start = pad_left 5 (show_nat i) @ '' '' @ l_name s in
      if l_fmt s \<noteq> [] then
        start @ map (\<lambda>g. if odd g then CHR ''-'' else CHR '' '') [0..<30 - length start] @ l_fmt s @ [CHR 0x0A]
      else start @ [CHR 0x0A])"

definition cmd_print_all :: "cmd_repo \<Rightarrow> (string \<times> cmd_repo) c_result" where
  "cmd_print_all r =
     (let r' = sort_cmd_list r in
      if cmd_index r' \<le> length (cmd_list r') then
        Inr (pad_left 5 ''Index'' @ '' Name '' @ pad_left 25 ''Params'' @ [CHR 0x0A] @
             concat (map (\<lambda>i. print_entry i (cmd_list r' ! i)) [0..<cmd_index r']), r')
      else Inl NullDeref)"

definition con_help :: "string \<Rightarrow> char list option \<Rightarrow> int \<Rightarrow> cmd_repo \<Rightarrow> (string \<times> int \<times> cmd_repo) c_result" where
  "con_help fmt params nparams r =
     c_bind (cmd_print_all r) (\<lambda>(out, r'). Inr (''List of commands:'' @ [CHR 0x0A] @ out, CMD_OK, r'))"

text \<open>\<^verbatim>\<open>con_debug_msg\<close> scans its message into 64 bytes without a width.\<close>

definition con_debug_msg :: "string \<Rightarrow> char list option \<Rightarrow> int \<Rightarrow> (string \<times> int) c_result" where
  "con_debug_msg fmt params nparams =
     (case params of
        None \<Rightarrow> Inr ('''', CMD_FAIL)
      | Some b \<Rightarrow>
          c_bind (c_str b) (\<lambda>p.
            case sscanf p fmt of
              (n, [VStr msg]) \<Rightarrow>
                if SCH_CMD_MAX_STR_PARAMS \<le> length msg then Inl StackOverflow
                else if n = nparams then Inr (''[Debug Msg] '' @ msg @ [CHR 0x0A], CMD_OK)
                else Inr ('''', CMD_FAIL)
            | (n, _) \<Rightarrow> Inr ('''', CMD_FAIL)))"

section \<open>What start-up leaves\<close>

lemma cmd_wf_reset: "cmd_wf c r \<Longrightarrow> cmd_wf c (r\<lparr> cmd_index := 0 \<rparr>)"
  by (simp add: cmd_wf_def)

lemma fill_null_Some: "fill_null c r = Some y \<Longrightarrow> cmd_index r < cmd_max_entries c"
proof (rule fill_null.raw_induct [where P = "\<lambda>c r y. cmd_index r < cmd_max_entries c"])
  fix f c r y
  assume IH: "\<And>c r y. f c r = Some y \<Longrightarrow> cmd_index r < cmd_max_entries c"
    and body: "(let (n_cmd, r') = cmd_add c ''null'' ''cmd_null'' [] 0 r in
      if n_cmd < int (cmd_max_entries c) then f c r' else Some r') = Some y"
  show "cmd_index r < cmd_max_entries c"
  proof (rule ccontr)
    assume full: "\<not> cmd_index r < cmd_max_entries c"
    then have "f c r = Some y" using body by (simp add: cmd_simps)
    then show False using IH full by blast
  qed
qed

lemma fill_null_full: "cmd_max_entries c \<le> cmd_index r \<Longrightarrow> fill_null c r = None"
  using fill_null_Some [of c r] by (cases "fill_null c r") fastforce+

lemma fill_null_room:
  assumes "cmd_wf c r" "0 < cmd_room c r"
  shows "\<exists>r'. fill_null c r = Some r' \<and> cmd_wf c r' \<and>
    cmd_list r' = registered r @ replicate (cmd_room c r) null_entry"
  using assms
proof (induction "cmd_room c r" arbitrary: r)
  case 0
  then show ?case by simp
next
  case (Suc n)
  let ?r = "cmd_register c null_entry r"
  have add: "cmd_add c ''null'' ''cmd_null'' '''' 0 r = (int (cmd_index r) + 1, ?r)"
    using Suc.prems
    by (intro prod_eqI) (simp_all add: cmd_register_def cmd_room_def cmd_simps cmd_entry_def)
  have wf: "cmd_wf c ?r" using Suc.prems ct.inv_reg by blast
  have room: "cmd_room c ?r = n" using Suc.hyps(2) Suc.prems ct.room_reg by fastforce
  show ?case
  proof (cases "n = 0")
    case True
    then have last: "Suc (cmd_index r) = cmd_max_entries c"
      using Suc.hyps(2) by (simp add: cmd_room_def)
    have "drop (Suc (cmd_index r)) (cmd_list r) = []"
      using Suc.prems last by (simp add: cmd_wf_def)
    then have "cmd_list ?r = registered r @ [null_entry]"
      using cmd_register_list [OF Suc.prems, of null_entry] by simp
    moreover have "fill_null c r = Some ?r"
      using add last by (subst fill_null.simps) simp
    ultimately show ?thesis using wf True by (auto simp flip: Suc.hyps(2))
  next
    case False
    then obtain r' where "fill_null c ?r = Some r'" "cmd_wf c r'"
      and list: "cmd_list r' = registered ?r @ replicate n null_entry"
      using Suc.hyps(1) [of ?r] wf room by auto
    moreover have "fill_null c r = fill_null c ?r"
      using add False Suc.hyps(2) by (subst fill_null.simps) (auto simp: cmd_room_def)
    moreover have "registered ?r = registered r @ [null_entry]"
      using Suc.prems ct.entries_reg by blast
    ultimately show ?thesis by (simp flip: Suc.hyps(2) replicate_append_same)
  qed
qed


lemma cmd_add_each_facts:
  assumes "cmd_wf c r"
  shows "cmd_wf c (cmd_add_each c es r)"
    "registered (cmd_add_each c es r) = registered r @ take (cmd_room c r) es"
    "cmd_room c (cmd_add_each c es r) = cmd_room c r - length es"
  using assms ct.inv_fold ct.entries_fold ct.room_fold by (simp_all add: cmd_add_each_def)

lemma registered_length: "cmd_wf c r \<Longrightarrow> length (registered r) = cmd_index r"
  by (simp add: registered_def cmd_wf_def)

lemma cmd_repo_init_ok:
  assumes "cmd_wf c r" "length (cmd_table c) < cmd_max_entries c"
  shows "\<exists>r'. cmd_repo_init c r = Some (CMD_OK, r') \<and> cmd_index r' = length (cmd_table c) \<and>
    cmd_list r' = cmd_table c @ replicate (cmd_max_entries c - length (cmd_table c)) null_entry"
proof -
  let ?r0 = "r\<lparr> cmd_index := 0 \<rparr>" and ?r1 = "cmd_add_each c (cmd_table c) (r\<lparr> cmd_index := 0 \<rparr>)"
  note r1 = cmd_add_each_facts [OF cmd_wf_reset [OF assms(1)], of "cmd_table c"]
  have reg: "registered ?r1 = cmd_table c"
    using r1(2) assms(2) by (simp add: registered_def cmd_room_def)
  have room: "cmd_room c ?r1 = cmd_max_entries c - length (cmd_table c)"
    using r1(3) by (simp add: cmd_room_def)
  obtain r2 where "fill_null c ?r1 = Some r2"
    "cmd_list r2 = cmd_table c @ replicate (cmd_max_entries c - length (cmd_table c)) null_entry"
    using fill_null_room [OF r1(1)] reg room assms(2) by auto
  moreover have "cmd_index ?r1 = length (cmd_table c)"
    using registered_length [OF r1(1)] reg by simp
  ultimately show ?thesis by (simp add: cmd_repo_init_def Let_def)
qed

lemma cmd_repo_init_hangs:
  assumes "cmd_wf c r" "cmd_max_entries c \<le> length (cmd_table c)"
  shows "cmd_repo_init c r = None"
proof -
  note r1 = cmd_add_each_facts [OF cmd_wf_reset [OF assms(1)], of "cmd_table c"]
  have "cmd_max_entries c \<le> cmd_index (cmd_add_each c (cmd_table c) (r\<lparr> cmd_index := 0 \<rparr>))"
    using r1(3) assms(2) by (simp add: cmd_room_def)
  then show ?thesis by (simp add: cmd_repo_init_def fill_null_full)
qed

lemmas cmd_tables = cmd_obc_table_def cmd_drp_table_def cmd_eps_table_def cmd_com_table_def
  cmd_tm_table_def cmd_subsys_table_def cmd_rw_table_def cmd_fod_table_def cmd_console_table_def
  cmd_fp_table_def

lemma length_cmd_table:
  "length (cmd_table c) =
     20 + (if platform_of c = NANOMIND then 19 else 0) + (if fp_enabled c then 5 else 0) +
     (if comm_enable c then 36 + (case platform_of c of NANOMIND \<Rightarrow> 4 | LINUX \<Rightarrow> 5 | _ \<Rightarrow> 0) else 0)"
  by (cases "platform_of c") (simp_all add: cmd_table_def cmd_tables use_nanopower_def use_nanocom_def)

lemma distinct_cmd_table: "distinct (map l_name (cmd_table c))"
  by (cases "platform_of c"; cases "fp_enabled c"; cases "comm_enable c")
     (simp_all add: cmd_table_def cmd_tables use_nanopower_def use_nanocom_def cmd_entry_def)

lemma null_not_in_table: "s \<in> set (cmd_table c) \<Longrightarrow> l_name s \<noteq> ''null''"
  by (cases "platform_of c")
     (auto simp: cmd_table_def cmd_tables use_nanopower_def use_nanocom_def cmd_entry_def split: if_splits)

lemma find_distinct:
  "distinct (map f xs) \<Longrightarrow> x \<in> set xs \<Longrightarrow> find (\<lambda>y. f y = f x) xs = Some x"
  by (induction xs) (auto simp: rev_image_eqI)

section \<open>Lookups in a table as start-up leaves it\<close>

definition table_built :: "sch_config \<Rightarrow> cmd_repo \<Rightarrow> bool" where
  "table_built c r \<longleftrightarrow> length (cmd_table c) < cmd_max_entries c \<and> cmd_index r = length (cmd_table c) \<and>
     cmd_list r = cmd_table c @ replicate (cmd_max_entries c - length (cmd_table c)) null_entry"

lemma table_built_full: "table_built c r \<Longrightarrow> length (cmd_list r) = cmd_max_entries c"
  by (simp add: table_built_def)

lemma cmd_repo_init_built:
  assumes "cmd_wf c r" "cmd_repo_init c r = Some (rc, r')"
  shows "table_built c r'"
proof -
  have len: "length (cmd_table c) < cmd_max_entries c"
    using cmd_repo_init_hangs [OF assms(1)] assms(2) by (metis option.distinct(1) not_le)
  then show ?thesis using cmd_repo_init_ok [OF assms(1) len] assms(2) by (auto simp: table_built_def)
qed

lemma cmd_get_str_registered:
  assumes "table_built c r" "s \<in> set (cmd_table c)"
  shows "\<exists>i. cmd_get_str c (l_name s) r = Inr (Some (cmd_of i s))"
proof -
  have "find (\<lambda>t. l_name t = l_name s) (cmd_list r) = Some s"
    using find_distinct [OF distinct_cmd_table assms(2)] assms(1) by (simp add: table_built_def find_append)
  then obtain k where k: "cmd_get_str c (l_name s) r = Inr (Some k)" "forget_id k = cmd_of 0 s"
    using cmd_get_str_contents [OF table_built_full [OF assms(1)], of "l_name s"] by auto
  have "c_id k = int (nat (c_id k))"
    using k(1) cmd_get_str_find [OF table_built_full [OF assms(1)], of "l_name s"] by (auto simp: cmd_of_def)
  then have "k = cmd_of (nat (c_id k)) s"
    using k(2) unfolding forget_id_eq_cmd_of by (simp add: cmd_of_def)
  then show ?thesis using k(1) by metis
qed

lemma cmd_get_str_unregistered:
  assumes "table_built c r" "name \<notin> l_name ` set (cmd_table c)" "name \<noteq> ''null''"
  shows "cmd_get_str c name r = Inr None"
proof -
  have "find (\<lambda>t. l_name t = name) (cmd_list r) = None"
    using assms by (auto simp: table_built_def find_None_iff cmd_entry_def)
  then show ?thesis using cmd_get_str_contents [OF table_built_full [OF assms(1)], of name] by auto
qed

lemma cmd_get_str_null:
  assumes "table_built c r"
  shows "\<exists>i. cmd_get_str c ''null'' r = Inr (Some (cmd_of i null_entry))"
proof -
  obtain m where "cmd_max_entries c - length (cmd_table c) = Suc m"
    using assms by (metis Suc_diff_Suc table_built_def)
  moreover have "find (\<lambda>t. l_name t = ''null'') (cmd_table c) = None"
    using null_not_in_table by (auto simp: find_None_iff)
  ultimately have f: "find (\<lambda>t. l_name t = ''null'') (cmd_list r) = Some null_entry"
    using assms by (simp add: table_built_def find_append cmd_entry_def)
  then obtain k where k: "cmd_get_str c ''null'' r = Inr (Some k)" "forget_id k = cmd_of 0 null_entry"
    using cmd_get_str_contents [OF table_built_full [OF assms], of "''null''"] by auto
  have "c_id k = int (nat (c_id k))"
    using k(1) cmd_get_str_find [OF table_built_full [OF assms], of "''null''"] by (auto simp: cmd_of_def)
  then have "k = cmd_of (nat (c_id k)) null_entry"
    using k(2) unfolding forget_id_eq_cmd_of by (simp add: cmd_of_def)
  then show ?thesis using k(1) by metis
qed

section \<open>Properties\<close>

text \<open>
  C1.  Start-up of the command repository returns exactly when the commands registered by the
  configuration leave at least one slot free; otherwise the loop that fills the table with null
  commands never ends.  When it returns, it returns \<^verbatim>\<open>CMD_OK\<close> and the table holds the commands of
  the modules in registration order and null commands in every other slot, whatever the table
  held before.
\<close>

theorem cmd_repo_init_spec:
  assumes "cmd_wf c r"
  shows "if length (cmd_table c) < cmd_max_entries c
    then \<exists>r'. cmd_repo_init c r = Some (CMD_OK, r') \<and> cmd_index r' = length (cmd_table c) \<and>
      cmd_list r' = cmd_table c @ replicate (cmd_max_entries c - length (cmd_table c)) null_entry
    else cmd_repo_init c r = None"
  using cmd_repo_init_ok [OF assms] cmd_repo_init_hangs [OF assms] by simp

theorem cmd_repo_init_spec_witness:
  "cmd_wf config_h cmd_repo_start \<and> (\<exists>r'. cmd_repo_init config_h cmd_repo_start = Some (CMD_OK, r') \<and>
     cmd_index r' = 61 \<and> length (cmd_list r') = 65)"
proof -
  have wf: "cmd_wf config_h cmd_repo_start" by (simp add: cmd_wf_def cmd_repo_start_def)
  have len: "length (cmd_table config_h) = 61" by (simp add: length_cmd_table config_h_def)
  have max: "cmd_max_entries config_h = 65" by (simp add: config_h_def)
  show ?thesis using cmd_repo_init_spec [OF wf] wf by (auto simp: len max)
qed

text \<open>
  The builds that hang at start-up.  With the generated template (50 entries) every Linux or
  Nanomind build with communications enabled never leaves \<^verbatim>\<open>cmd_repo_init\<close>; with the 65 entries of
  the configuration checked in, enabling the flight plan is enough.
\<close>

lemma cmd_repo_init_hanging_builds:
  assumes "cmd_wf (config_template os True fp hk st tr) r" "os = LINUX \<or> os = NANOMIND"
    and "cmd_wf (config_h\<lparr> fp_enabled := True \<rparr>) r'"
  shows "cmd_repo_init (config_template os True fp hk st tr) r = None \<and>
    cmd_repo_init (config_h\<lparr> fp_enabled := True \<rparr>) r' = None"
proof
  have "50 \<le> length (cmd_table (config_template os True fp hk st tr))"
    using assms(2) by (auto simp: length_cmd_table config_template_def)
  then show "cmd_repo_init (config_template os True fp hk st tr) r = None"
    by (intro cmd_repo_init_hangs assms) (simp add: config_template_def)
  show "cmd_repo_init (config_h\<lparr> fp_enabled := True \<rparr>) r' = None"
    by (intro cmd_repo_init_hangs assms) (simp add: length_cmd_table config_h_def)
qed

lemma cmd_repo_init_hanging_builds_witness:
  "cmd_repo_init (config_template LINUX True False False 0 True) cmd_repo_start = None \<and>
   cmd_repo_init (config_h\<lparr> fp_enabled := True \<rparr>) cmd_repo_start = None"
  using cmd_repo_init_hanging_builds [of LINUX False False 0 True cmd_repo_start cmd_repo_start]
  by (simp add: cmd_wf_def cmd_repo_start_def)

text \<open>
  C2.  After start-up every registered command is found by its name, with the format, the number
  of parameters and the handler its module gave, and no parameters yet; a name that no module
  registers is not found, apart from \<^verbatim>\<open>null\<close>, which gives \<^verbatim>\<open>cmd_null\<close>.
\<close>

theorem cmd_get_str_after_init:
  assumes "cmd_wf c r" "cmd_repo_init c r = Some (rc, r')"
  shows "(\<forall>s \<in> set (cmd_table c).
      \<exists>k. cmd_get_str c (l_name s) r' = Inr (Some k) \<and> c_fmt k = l_fmt s \<and> c_nparams k = l_nparams s \<and>
        c_function k = l_function s \<and> c_params k = None) \<and>
    (\<forall>name. name \<notin> l_name ` set (cmd_table c) \<and> name \<noteq> ''null'' \<longrightarrow> cmd_get_str c name r' = Inr None) \<and>
    (\<exists>k. cmd_get_str c ''null'' r' = Inr (Some k) \<and> c_function k = ''cmd_null'')"
proof -
  have b: "table_built c r'" by (rule cmd_repo_init_built [OF assms])
  show ?thesis
    using cmd_get_str_registered [OF b] cmd_get_str_unregistered [OF b] cmd_get_str_null [OF b]
    by (fastforce simp: cmd_of_def cmd_entry_def)
qed

lemma config_h_start: "cmd_wf config_h cmd_repo_start" "length (cmd_table config_h) < cmd_max_entries config_h"
  "cmd_repo_init config_h cmd_repo_start =
     Some (CMD_OK, snd (the (cmd_repo_init config_h cmd_repo_start)))"
proof -
  show wf: "cmd_wf config_h cmd_repo_start" by (simp add: cmd_wf_def cmd_repo_start_def)
  show "length (cmd_table config_h) < cmd_max_entries config_h"
    by (simp add: length_cmd_table config_h_def)
  from cmd_repo_init_ok [OF wf this] show "cmd_repo_init config_h cmd_repo_start =
     Some (CMD_OK, snd (the (cmd_repo_init config_h cmd_repo_start)))" by auto
qed

theorem cmd_get_str_after_init_witness:
  "let r = snd (the (cmd_repo_init config_h cmd_repo_start)) in
   (\<exists>k. cmd_get_str config_h ''tm_send_from'' r = Inr (Some k) \<and> c_fmt k = ''%u %u %u'' \<and>
      c_function k = ''tm_send_from'') \<and>
   cmd_get_str config_h ''fp_set_cmd'' r = Inr None"
proof -
  let ?s = "cmd_entry ''tm_send_from'' ''tm_send_from'' ''%u %u %u'' 3"
  note init = cmd_get_str_after_init [OF config_h_start(1,3)]
  have "?s \<in> set (cmd_table config_h)"
    by (simp add: cmd_table_def cmd_tm_table_def config_h_def)
  note a = conjunct1 [OF init, THEN bspec, OF this]
  have "''fp_set_cmd'' \<notin> l_name ` set (cmd_table config_h)"
    by (simp add: cmd_table_def cmd_tables config_h_def use_nanopower_def use_nanocom_def cmd_entry_def)
  then have b: "cmd_get_str config_h ''fp_set_cmd'' (snd (the (cmd_repo_init config_h cmd_repo_start))) = Inr None"
    using init by simp
  show ?thesis using a b by (simp add: Let_def cmd_entry_def) blast
qed



end
