(* ===== verification/CmdLine.thy ===== *)
theory CmdLine
  imports CmdTable
begin

text \<open>
  What the command-line side of the command repository promises: how a line is split into a
  command and its parameter block, what the block holds, and that integers printed into a block
  with a command's format are the integers its handler scans back.
\<close>

section \<open>Parameter blocks\<close>

lemma cmd_add_params_str_Some:
  "cmd_add_params_str (Some k) p =
     Some (if p = [] then k else k\<lparr> c_params := Some (strncpy p (min (length p) 64 + 1)) \<rparr>)"
  by (simp add: cmd_add_params_str_def Let_def min_def)

lemma params_block_fits:
  assumes "c_string p" "p \<noteq> []" "length p \<le> SCH_CMD_MAX_STR_PARAMS"
  shows "cmd_add_params_str (Some k) p = Some (k\<lparr> c_params := Some (strncpy p (length p + 1)) \<rparr>)"
    "c_str (strncpy p (length p + 1)) = Inr p"
  using assms by (simp_all add: cmd_add_params_str_Some strncpy_fits)

lemma cmd_get_idx_params: "cmd_get_idx c i r = Inr (Some k) \<Longrightarrow> c_params k = None"
  by (auto simp: cmd_get_idx_def Let_def split: if_splits)

lemma cmd_get_str_params:
  assumes "cmd_get_str c name r = Inr (Some k)"
  shows "c_params k = None"
proof -
  obtain res where "find_slot (cmd_max_entries c) name (cmd_list r) 0 = Inr res"
    and res: "(case res of None \<Rightarrow> Inr None | Some i \<Rightarrow> cmd_get_idx c (int i) r) = Inr (Some k)"
    using assms unfolding cmd_get_str_def c_bind_Inr_iff by blast
  then show ?thesis by (cases res) (auto dest: cmd_get_idx_params)
qed

lemma cmd_parse_line:
  assumes "list_all isspace pre" "word w" "list_all isspace ws" "no_lead_space a" "ws = [] \<Longrightarrow> a = []"
  shows "cmd_parse_from_str c (pre @ w @ ws @ a) r =
    c_bind (cmd_get_str c w r) (\<lambda>k. Inr (cmd_add_params_str k a))"
proof -
  have "pre @ w @ ws @ a \<noteq> []" using assms(2) by (simp add: word_def)
  moreover have "drop (length pre + length w + length ws) (pre @ w @ ws @ a) = a" by simp
  moreover have "(length pre + length w + length ws < length (pre @ w @ ws @ a)) = (a \<noteq> [])" by simp
  moreover have "sscanf (pre @ w @ ws @ a) ''%s %n'' =
      (1, [VStr w, VCount (length pre + length w + length ws)])"
    using assms by (intro sscanf_lead_space) auto
  ultimately show ?thesis
    by (cases "cmd_get_str c w r")
       (auto simp: cmd_parse_from_str_def cmd_add_params_str_def simp del: drop_append length_append
         split: option.splits)
qed

lemma cmd_parse_blank: "list_all isspace s \<Longrightarrow> cmd_parse_from_str c s r = Inr None"
  by (simp add: cmd_parse_from_str_def sscanf_blank)

section \<open>Integers through a parameter block\<close>

lemma length_show_nat: "n < 10 ^ k \<Longrightarrow> 0 < k \<Longrightarrow> length (show_nat n) \<le> k"
proof (induction n arbitrary: k rule: show_nat.induct)
  case (1 n)
  show ?case
  proof (cases "n < 10")
    case True
    then show ?thesis using 1(3) by (simp add: show_nat.simps [of n])
  next
    case False
    obtain j where j: "k = Suc j" using 1(3) by (cases k) auto
    have "0 < j" using 1(2) False by (cases j) (simp_all add: j)
    note j = j this
    have "n div 10 < 10 ^ j" using 1(2) by (simp add: j(1) less_mult_imp_div_less mult.commute)
    then show ?thesis using 1(1) [OF False, of j] j False by (simp add: show_nat.simps [of n])
  qed
qed

lemma length_show_int: "in_i32 i \<Longrightarrow> length (show_int i) \<le> 11"
proof -
  assume "in_i32 i"
  then have "nat \<bar>i\<bar> < 10 ^ 10" by (auto simp: in_i32_def nat_less_iff)
  then have "length (show_nat (nat \<bar>i\<bar>)) \<le> 10" by (rule length_show_nat) simp
  then show ?thesis by (cases "i < 0") (simp_all add: show_int_def)
qed

lemma length_vsprintf_ints:
  "length is = n \<Longrightarrow> list_all in_i32 is \<Longrightarrow> length (vsprintf (int_dirs n) (map AInt is)) \<le> 12 * n"
proof (induction n arbitrary: "is" rule: int_dirs.induct)
  case 2
  then obtain i where "is = [i]" "in_i32 i" by (auto simp: length_Suc_conv)
  then show ?case using length_show_int [of i] by simp
next
  case (3 n)
  then obtain i js where e: "is = i # js" "in_i32 i" "length js = Suc n" "list_all in_i32 js"
    by (auto simp: length_Suc_conv)
  then show ?case using length_show_int [of i] "3.IH" [of js] by simp
qed simp

lemma c_string_vsprintf_ints: "c_string (vsprintf (int_dirs n) (map AInt is))"
proof (induction n arbitrary: "is" rule: int_dirs.induct)
  case 2
  then show ?case by (cases "is") auto
next
  case (3 n)
  then show ?case by (cases "is") auto
qed simp

lemma vsprintf_ints_nonempty: "0 < n \<Longrightarrow> length is = n \<Longrightarrow> vsprintf (int_dirs n) (map AInt is) \<noteq> []"
  by (cases n rule: int_dirs.cases; cases "is") auto

section \<open>Properties\<close>


definition small_repo :: cmd_repo where
  "small_repo = \<lparr> cmd_list = [cmd_entry ''go'' ''f'' ''%d %d'' 2], cmd_index = 1, cmd_is_sorted = True \<rparr>"

definition small_config :: sch_config where
  "small_config = config_h\<lparr> cmd_max_entries := 1 \<rparr>"


text \<open>
  The parameter block of a command holds exactly the parameter string when that has at most
  64 characters.  A longer string is not shortened to a string of 64 characters: the block gets
  65 of its characters and no terminator, so every handler that reads it runs past its end.
\<close>

lemma cmd_add_params_str_block:
  assumes "c_string p" "p \<noteq> []"
  shows "\<exists>b. cmd_add_params_str (Some k) p = Some (k\<lparr> c_params := Some b \<rparr>) \<and>
    (if length p \<le> SCH_CMD_MAX_STR_PARAMS then c_str b = Inr p
     else b = take 65 p \<and> c_str b = Inl UnterminatedString)"
proof (cases "length p \<le> 64")
  case True
  then show ?thesis using params_block_fits [OF assms] by auto
next
  case False
  then have "strncpy p 65 = take 65 p" "min (length p) 64 + 1 = 65"
    by (simp_all add: strncpy_def)
  then show ?thesis using assms False strncpy_short [of 65 p]
    by (intro exI [of _ "take 65 p"]) (simp add: cmd_add_params_str_Some)
qed

lemma cmd_add_params_str_block_witness:
  "let p = replicate 70 (CHR ''a'') in
   \<exists>b. cmd_add_params_str (Some (cmd_of 0 (cmd_entry ''go'' ''f'' [] 0))) p =
         Some ((cmd_of 0 (cmd_entry ''go'' ''f'' [] 0))\<lparr> c_params := Some b \<rparr>) \<and>
       length b = 65 \<and> c_str b = Inl UnterminatedString"
  using cmd_add_params_str_block [of "replicate 70 (CHR ''a'')" "cmd_of 0 (cmd_entry ''go'' ''f'' [] 0)"]
  by (auto simp: Let_def c_string_def)

text \<open>
  Integers passed to a command with \<^verbatim>\<open>cmd_add_params_var\<close> are the integers its handler
  scans with \<^verbatim>\<open>sscanf(params, fmt, ...)\<close>, for every command whose format is a row of up to five
  \<^verbatim>\<open>%d\<close>: the text always fits the 64-byte buffer, the scan assigns all of them and its count is
  the number of parameters.
\<close>

lemma cmd_add_params_var_roundtrip:
  assumes "directives (c_fmt k) = int_dirs n" "0 < n" "n \<le> 5" "length is = n" "list_all in_i32 is"
  shows "\<exists>b p. cmd_add_params_var (Some k) (map AInt is) = Inr (Some (k\<lparr> c_params := Some b \<rparr>)) \<and>
    c_str b = Inr p \<and> sscanf p (c_fmt k) = (int n, map VInt is)"
proof -
  let ?p = "vsprintf (int_dirs n) (map AInt is)"
  have len: "length ?p < 64" using length_vsprintf_ints [OF assms(4,5)] assms(3) by simp
  have "?p \<noteq> []" using assms by (intro vsprintf_ints_nonempty)
  note b = params_block_fits [OF c_string_vsprintf_ints this less_imp_le [OF len]]
  have "sscanf ?p (c_fmt k) = (int n, map VInt is)"
    unfolding sscanf_def assms(1) by (simp add: scan_vsprintf_ints [OF assms(4,5)])
  then show ?thesis using len assms(1) b
    by (intro exI) (auto simp: cmd_add_params_var_def Let_def)
qed

lemma cmd_add_params_var_roundtrip_witness:
  "let k = cmd_of 0 (cmd_entry ''drp_set_var'' ''drp_update_sys_var_idx'' ''%d %d'' 2) in
   \<exists>b p. cmd_add_params_var (Some k) [AInt 3, AInt (-17)] = Inr (Some (k\<lparr> c_params := Some b \<rparr>)) \<and>
     c_str b = Inr p \<and> sscanf p ''%d %d'' = (2, [VInt 3, VInt (-17)])"
  using cmd_add_params_var_roundtrip
      [of "cmd_of 0 (cmd_entry ''drp_set_var'' ''drp_update_sys_var_idx'' ''%d %d'' 2)" 2 "[3, -17]"]
  by (simp add: Let_def cmd_of_def cmd_entry_def conversion_def isspace_def in_i32_def
      numeral_2_eq_2)

end
