(* ===== verification/StatusVars.thy ===== *)
theory StatusVars
  imports Config
begin

text \<open>
  The vocabulary of the data repository (\<^verbatim>\<open>src/system/include/repoData.h\<close>): the status variables,
  the payloads and the table \<^verbatim>\<open>data_map\<close> that says, for each payload, where its sample counters are
  and what a sample looks like.
\<close>

section \<open>Status variables\<close>

text \<open>The constants of \<^verbatim>\<open>dat_system_t\<close>, in their order; \<open>dat_idx\<close> is their value.\<close>

datatype (plugins only: code) dat_system =
    dat_obc_opmode | dat_obc_last_reset | dat_obc_hrs_alive | dat_obc_hrs_wo_reset |
    dat_obc_reset_counter | dat_obc_sw_wdt | dat_obc_temp_1 | dat_obc_temp_2 | dat_obc_temp_3 |
    dat_dep_deployed | dat_dep_ant_deployed | dat_dep_date_time | dat_rtc_date_time |
    dat_com_count_tm | dat_com_count_tc | dat_com_last_tc | dat_com_freq | dat_com_tx_pwr |
    dat_com_baud | dat_com_mode | dat_com_bcn_period | dat_fpl_last | dat_fpl_queue |
    dat_ads_acc_x | dat_ads_acc_y | dat_ads_acc_z | dat_ads_mag_x | dat_ads_mag_y | dat_ads_mag_z |
    dat_eps_vbatt | dat_eps_cur_sun | dat_eps_cur_sys | dat_eps_temp_bat0 | dat_fod_ver |
    dat_fod_released | dat_fod_on_time | dat_fod_attempts | dat_mem_temp | dat_mem_ads |
    dat_mem_eps | dat_mem_lang | dat_mem_gps | dat_mem_prs | dat_mem_dpl | dat_mem_fod |
    dat_mem_ack_temp | dat_mem_ack_ads | dat_mem_ack_eps | dat_mem_ack_lang | dat_mem_ack_gps |
    dat_mem_ack_prs | dat_mem_ack_dpl | dat_mem_ack_fod | dat_balloon_phase | dat_balloon_deploys |
    dat_balloon_height | dat_balloon_pressure

definition dat_all :: "dat_system list" where
  "dat_all =
     [dat_obc_opmode, dat_obc_last_reset, dat_obc_hrs_alive, dat_obc_hrs_wo_reset,
      dat_obc_reset_counter, dat_obc_sw_wdt, dat_obc_temp_1, dat_obc_temp_2, dat_obc_temp_3,
      dat_dep_deployed, dat_dep_ant_deployed, dat_dep_date_time, dat_rtc_date_time, dat_com_count_tm,
      dat_com_count_tc, dat_com_last_tc, dat_com_freq, dat_com_tx_pwr, dat_com_baud, dat_com_mode,
      dat_com_bcn_period, dat_fpl_last, dat_fpl_queue, dat_ads_acc_x, dat_ads_acc_y, dat_ads_acc_z,
      dat_ads_mag_x, dat_ads_mag_y, dat_ads_mag_z, dat_eps_vbatt, dat_eps_cur_sun, dat_eps_cur_sys,
      dat_eps_temp_bat0, dat_fod_ver, dat_fod_released, dat_fod_on_time, dat_fod_attempts,
      dat_mem_temp, dat_mem_ads, dat_mem_eps, dat_mem_lang, dat_mem_gps, dat_mem_prs, dat_mem_dpl,
      dat_mem_fod, dat_mem_ack_temp, dat_mem_ack_ads, dat_mem_ack_eps, dat_mem_ack_lang,
      dat_mem_ack_gps, dat_mem_ack_prs, dat_mem_ack_dpl, dat_mem_ack_fod, dat_balloon_phase,
      dat_balloon_deploys, dat_balloon_height, dat_balloon_pressure]"

primrec dat_idx :: "dat_system \<Rightarrow> nat" where
  "dat_idx dat_obc_opmode = 0"
| "dat_idx dat_obc_last_reset = 1"
| "dat_idx dat_obc_hrs_alive = 2"
| "dat_idx dat_obc_hrs_wo_reset = 3"
| "dat_idx dat_obc_reset_counter = 4"
| "dat_idx dat_obc_sw_wdt = 5"
| "dat_idx dat_obc_temp_1 = 6"
| "dat_idx dat_obc_temp_2 = 7"
| "dat_idx dat_obc_temp_3 = 8"
| "dat_idx dat_dep_deployed = 9"
| "dat_idx dat_dep_ant_deployed = 10"
| "dat_idx dat_dep_date_time = 11"
| "dat_idx dat_rtc_date_time = 12"
| "dat_idx dat_com_count_tm = 13"
| "dat_idx dat_com_count_tc = 14"
| "dat_idx dat_com_last_tc = 15"
| "dat_idx dat_com_freq = 16"
| "dat_idx dat_com_tx_pwr = 17"
| "dat_idx dat_com_baud = 18"
| "dat_idx dat_com_mode = 19"
| "dat_idx dat_com_bcn_period = 20"
| "dat_idx dat_fpl_last = 21"
| "dat_idx dat_fpl_queue = 22"
| "dat_idx dat_ads_acc_x = 23"
| "dat_idx dat_ads_acc_y = 24"
| "dat_idx dat_ads_acc_z = 25"
| "dat_idx dat_ads_mag_x = 26"
| "dat_idx dat_ads_mag_y = 27"
| "dat_idx dat_ads_mag_z = 28"
| "dat_idx dat_eps_vbatt = 29"
| "dat_idx dat_eps_cur_sun = 30"
| "dat_idx dat_eps_cur_sys = 31"
| "dat_idx dat_eps_temp_bat0 = 32"
| "dat_idx dat_fod_ver = 33"
| "dat_idx dat_fod_released = 34"
| "dat_idx dat_fod_on_time = 35"
| "dat_idx dat_fod_attempts = 36"
| "dat_idx dat_mem_temp = 37"
| "dat_idx dat_mem_ads = 38"
| "dat_idx dat_mem_eps = 39"
| "dat_idx dat_mem_lang = 40"
| "dat_idx dat_mem_gps = 41"
| "dat_idx dat_mem_prs = 42"
| "dat_idx dat_mem_dpl = 43"
| "dat_idx dat_mem_fod = 44"
| "dat_idx dat_mem_ack_temp = 45"
| "dat_idx dat_mem_ack_ads = 46"
| "dat_idx dat_mem_ack_eps = 47"
| "dat_idx dat_mem_ack_lang = 48"
| "dat_idx dat_mem_ack_gps = 49"
| "dat_idx dat_mem_ack_prs = 50"
| "dat_idx dat_mem_ack_dpl = 51"
| "dat_idx dat_mem_ack_fod = 52"
| "dat_idx dat_balloon_phase = 53"
| "dat_idx dat_balloon_deploys = 54"
| "dat_idx dat_balloon_height = 55"
| "dat_idx dat_balloon_pressure = 56"

abbreviation (input) dat_system_last_var :: nat where "dat_system_last_var \<equiv> 57"

text \<open>The cast \<^verbatim>\<open>(dat_system_t) index\<close>, with what lies outside the constants left out.\<close>

definition dat_of_idx :: "int \<Rightarrow> dat_system option" where
  "dat_of_idx i = (if 0 \<le> i \<and> i < int dat_system_last_var then Some (dat_all ! nat i) else None)"

lemma length_dat_all [simp]: "length dat_all = dat_system_last_var"
  by (simp add: dat_all_def)

lemma dat_all_nth [simp]: "dat_all ! dat_idx v = v"
  by (cases v) (simp_all add: dat_all_def)

lemma dat_idx_less [simp]: "dat_idx v < dat_system_last_var"
  by (cases v) simp_all

lemma dat_idx_inj [simp]: "dat_idx v = dat_idx w \<longleftrightarrow> v = w"
  by (metis dat_all_nth)

lemma dat_idx_nth [simp]: "i < dat_system_last_var \<Longrightarrow> dat_idx (dat_all ! i) = i"
proof -
  have "map dat_idx dat_all = [0..<dat_system_last_var]" by (simp add: dat_all_def upt_rec)
  moreover assume "i < dat_system_last_var"
  ultimately show "dat_idx (dat_all ! i) = i" by (metis length_dat_all nth_map nth_upt add_0)
qed

lemma dat_of_idx_Some: "dat_of_idx i = Some v \<longleftrightarrow> i = int (dat_idx v)"
  using dat_idx_less [of v] by (auto simp: dat_of_idx_def) 

lemma set_dat_all [simp]: "v \<in> set dat_all"
  by (metis dat_all_nth dat_idx_less length_dat_all nth_mem)

lemma distinct_dat_all: "distinct dat_all"
  by (metis dat_idx_nth distinct_conv_nth length_dat_all)

section \<open>Payloads\<close>

datatype payload_id = temp_sensors | ads_sensors | eps_sensors | lang_sensors | gps_sensors |
  prs_sensors | dpl_sensors | fod_sensors

abbreviation (input) last_sensor :: nat where "last_sensor \<equiv> 8"

definition payload_all :: "payload_id list" where
  "payload_all = [temp_sensors, ads_sensors, eps_sensors, lang_sensors, gps_sensors, prs_sensors,
                  dpl_sensors, fod_sensors]"

definition payload_of :: "int \<Rightarrow> payload_id option" where
  "payload_of i = (if 0 \<le> i \<and> i < int last_sensor then Some (payload_all ! nat i) else None)"

primrec payload_idx :: "payload_id \<Rightarrow> nat" where
  "payload_idx temp_sensors = 0"
| "payload_idx ads_sensors = 1"
| "payload_idx eps_sensors = 2"
| "payload_idx lang_sensors = 3"
| "payload_idx gps_sensors = 4"
| "payload_idx prs_sensors = 5"
| "payload_idx dpl_sensors = 6"
| "payload_idx fod_sensors = 7"

lemma payload_of_idx [simp]: "payload_of (int (payload_idx p)) = Some p"
  by (cases p) (simp_all add: payload_of_def payload_all_def)

record data_map_t =
  dm_table :: string
  dm_size :: nat
  dm_sys_index :: dat_system
  dm_sys_ack :: dat_system
  dm_order :: string
  dm_var_names :: string

text \<open>Every field of the payload structures is four bytes wide; \<open>dm_size\<close> is their \<^verbatim>\<open>sizeof\<close>.\<close>

fun data_map :: "payload_id \<Rightarrow> data_map_t" where
  "data_map temp_sensors = \<lparr> dm_table = ''temp_data'', dm_size = 16, dm_sys_index = dat_mem_temp,
     dm_sys_ack = dat_mem_ack_temp, dm_order = ''%u %f %f %f'',
     dm_var_names = ''timestamp obc_temp_1 obc_temp_2 obc_temp_3'' \<rparr>"
| "data_map ads_sensors = \<lparr> dm_table = ''ads_data'', dm_size = 28, dm_sys_index = dat_mem_ads,
     dm_sys_ack = dat_mem_ack_ads, dm_order = ''%u %f %f %f %f %f %f'',
     dm_var_names = ''timestamp acc_x acc_y acc_z mag_x mag_y mag_z'' \<rparr>"
| "data_map eps_sensors = \<lparr> dm_table = ''eps_data'', dm_size = 40, dm_sys_index = dat_mem_eps,
     dm_sys_ack = dat_mem_ack_eps, dm_order = ''%u %u %u %u %d %d %d %d %d %d'',
     dm_var_names = ''timestamp cursun cursys vbatt temp1 temp2 temp3 temp4 temp5 temp6'' \<rparr>"
| "data_map lang_sensors = \<lparr> dm_table = ''langmuir_data'', dm_size = 20, dm_sys_index = dat_mem_lang,
     dm_sys_ack = dat_mem_ack_lang, dm_order = ''%u %f %f %f %d'',
     dm_var_names = ''timestamp sweep_voltage plasma_voltage plasma_temperature particles_counter'' \<rparr>"
| "data_map gps_sensors = \<lparr> dm_table = ''gps_data'', dm_size = 32, dm_sys_index = dat_mem_gps,
     dm_sys_ack = dat_mem_ack_gps, dm_order = ''%u %f %f %f %f %f %d %d'',
     dm_var_names = ''timestamp latitude longitude height velocity_x velocity_y satellites_number mode'' \<rparr>"
| "data_map prs_sensors = \<lparr> dm_table = ''prs_data'', dm_size = 16, dm_sys_index = dat_mem_prs,
     dm_sys_ack = dat_mem_ack_prs, dm_order = ''%u %f %f %f'',
     dm_var_names = ''timestamp pressure temperature height'' \<rparr>"
| "data_map dpl_sensors = \<lparr> dm_table = ''dpl_data'', dm_size = 8, dm_sys_index = dat_mem_dpl,
     dm_sys_ack = dat_mem_ack_dpl, dm_order = ''%u %d %d'', dm_var_names = ''timestamp port_status'' \<rparr>"
| "data_map fod_sensors = \<lparr> dm_table = ''fod_data'', dm_size = 16, dm_sys_index = dat_mem_fod,
     dm_sys_ack = dat_mem_ack_fod, dm_order = ''%u %f %d %d %d'',
     dm_var_names = ''timestamp ver released on_time attempts'' \<rparr>"

lemma sys_index_inj [simp]: "dm_sys_index (data_map p) = dm_sys_index (data_map q) \<longleftrightarrow> p = q"
  by (cases p; cases q) simp_all

lemma sys_ack_inj [simp]: "dm_sys_ack (data_map p) = dm_sys_ack (data_map q) \<longleftrightarrow> p = q"
  by (cases p; cases q) simp_all

lemma sys_index_not_ack [simp]: "dm_sys_index (data_map p) \<noteq> dm_sys_ack (data_map q)"
  by (cases p; cases q) simp_all

lemma set_payload_all [simp]: "p \<in> set payload_all"
  by (cases p) (simp_all add: payload_all_def)

lemma distinct_payload_all: "distinct payload_all"
  by (simp add: payload_all_def)

end
