(* ===== verification/RepoFP.thy ===== *)
theory RepoFP
  imports Config
begin

text \<open>
  The flight plan table in RAM (\<^verbatim>\<open>src/system/repoData.c\<close>, \<^verbatim>\<open>SCH_STORAGE_MODE == 0\<close>): an array of
  25 entries, each with a time and two heap blocks, under the mutex \<^verbatim>\<open>repo_data_fp_sem\<close>.  The
  model keeps the mutex and the life of the blocks, since the code is not always right about them:
  taking the mutex while it is taken is a \<open>Deadlock\<close>, because every release of it comes after a
  take in the same call.
\<close>

section \<open>Data\<close>

text \<open>A \<^verbatim>\<open>char *\<close> field: NULL, a live block with its string, or a freed block.\<close>

datatype cptr = Null | Block string | Freed

record fp_entry =
  unixtime :: int
  fp_cmd :: cptr
  fp_args :: cptr
  executions :: int
  periodical :: int

record fp_state =
  data_base :: "fp_entry list"
  fp_taken :: bool

definition fp_empty :: fp_entry where
  "fp_empty = \<lparr> unixtime = 0, fp_cmd = Null, fp_args = Null, executions = 0, periodical = 0 \<rparr>"

definition fp_initial :: fp_state where
  "fp_initial = \<lparr> data_base = replicate SCH_FP_MAX_ENTRIES fp_empty, fp_taken = False \<rparr>"

section \<open>Operations\<close>

text \<open>The loops look for the first entry with a given time.\<close>

fun fp_find :: "int \<Rightarrow> fp_entry list \<Rightarrow> nat \<Rightarrow> nat option" where
  "fp_find t [] i = None"
| "fp_find t (e # es) i = (if unixtime e = t then Some i else fp_find t es (i + 1))"

definition c_read :: "cptr \<Rightarrow> string c_result" where
  "c_read p = (case p of Null \<Rightarrow> Inl NullDeref | Block s \<Rightarrow> Inr s | Freed \<Rightarrow> Inl UseAfterFree)"

definition c_free :: "cptr \<Rightarrow> cptr c_result" where
  "c_free p = (case p of Null \<Rightarrow> Inr Null | Block s \<Rightarrow> Inr Freed | Freed \<Rightarrow> Inl UseAfterFree)"

text \<open>Two blocks of 50 bytes are filled with \<^verbatim>\<open>strcpy\<close>.\<close>

definition dat_set_fp_async ::
  "int \<Rightarrow> string \<Rightarrow> string \<Rightarrow> int \<Rightarrow> int \<Rightarrow> fp_state \<Rightarrow> (int \<times> fp_state) c_result" where
  "dat_set_fp_async timetodo command args exec period s =
     (case fp_find 0 (data_base s) 0 of
        None \<Rightarrow> Inr (1, s)
      | Some i \<Rightarrow>
          if length command < 50 \<and> length args < 50 then
            Inr (0, s\<lparr> data_base := (data_base s)[i :=
              \<lparr> unixtime = timetodo, fp_cmd = Block command, fp_args = Block args,
                executions = exec, periodical = period \<rparr>] \<rparr>)
          else Inl HeapOverflow)"

text \<open>When no entry has that time, \<^verbatim>\<open>dat_del_fp_async\<close> releases the mutex its caller holds.\<close>

definition dat_del_fp_async :: "int \<Rightarrow> fp_state \<Rightarrow> (int \<times> fp_state) c_result" where
  "dat_del_fp_async timetodo s =
     (case fp_find timetodo (data_base s) 0 of
        None \<Rightarrow> Inr (1, s\<lparr> fp_taken := False \<rparr>)
      | Some i \<Rightarrow>
          let e = data_base s ! i in
          c_bind (c_free (fp_args e)) (\<lambda>a. c_bind (c_free (fp_cmd e)) (\<lambda>k.
            Inr (0, s\<lparr> data_base := (data_base s)[i :=
              \<lparr> unixtime = 0, fp_cmd = k, fp_args = a, executions = 0, periodical = 0 \<rparr>] \<rparr>))))"

definition fp_take :: "fp_state \<Rightarrow> fp_state c_result" where
  "fp_take s = (if fp_taken s then Inl Deadlock else Inr (s\<lparr> fp_taken := True \<rparr>))"

definition fp_given :: "fp_state \<Rightarrow> fp_state" where
  "fp_given s = s\<lparr> fp_taken := False \<rparr>"

text \<open>
  The output arguments of \<^verbatim>\<open>dat_get_fp\<close> are the second component: command, arguments, executions,
  period.  The result of the insertion of the next occurrence is ignored, and the successful path
  returns with the mutex taken.
\<close>

definition dat_get_fp_ram ::
  "int \<Rightarrow> fp_state \<Rightarrow> (int \<times> (string \<times> string \<times> int \<times> int) option \<times> fp_state) c_result" where
  "dat_get_fp_ram elapsed_sec s =
     c_bind (fp_take s) (\<lambda>s.
       case fp_find elapsed_sec (data_base s) 0 of
         None \<Rightarrow> Inr (-1, None, fp_given s)
       | Some i \<Rightarrow>
           let e = data_base s ! i in
           c_bind (c_read (fp_cmd e)) (\<lambda>command.
           c_bind (c_read (fp_args e)) (\<lambda>args.
           c_bind (if periodical e > 0
                   then dat_set_fp_async (i32 (elapsed_sec + periodical e)) command args
                          (executions e) (periodical e) s
                   else Inr (0, s)) (\<lambda>(rc, s).
           c_bind (dat_del_fp_async elapsed_sec s) (\<lambda>(rc, s).
             Inr (0, Some (command, args, executions e, periodical e), s))))))"

definition dat_set_fp_ram ::
  "int \<Rightarrow> string \<Rightarrow> string \<Rightarrow> int \<Rightarrow> int \<Rightarrow> fp_state \<Rightarrow> (int \<times> fp_state) c_result" where
  "dat_set_fp_ram timetodo command args exec period s =
     c_bind (fp_take s) (\<lambda>s.
     c_bind (dat_set_fp_async timetodo command args exec period s) (\<lambda>(rc, s).
       Inr (rc, fp_given s)))"

definition dat_del_fp_ram :: "int \<Rightarrow> fp_state \<Rightarrow> (int \<times> fp_state) c_result" where
  "dat_del_fp_ram timetodo s =
     c_bind (fp_take s) (\<lambda>s.
     c_bind (dat_del_fp_async timetodo s) (\<lambda>(rc, s). Inr (rc, fp_given s)))"

definition dat_reset_fp_ram :: "fp_state \<Rightarrow> (int \<times> fp_state) c_result" where
  "dat_reset_fp_ram s =
     c_bind (fp_take s) (\<lambda>s.
       Inr (0, fp_given (s\<lparr> data_base := replicate SCH_FP_MAX_ENTRIES fp_empty \<rparr>)))"

text \<open>What \<^verbatim>\<open>dat_show_fp\<close> prints, as the list of the rows.\<close>

definition dat_show_fp_ram ::
  "fp_state \<Rightarrow> (int \<times> (int \<times> string \<times> string \<times> int \<times> int) list \<times> fp_state) c_result" where
  "dat_show_fp_ram s =
     c_bind (fp_take s) (\<lambda>s.
     c_bind (foldr (\<lambda>e acc. c_bind acc (\<lambda>rows.
               if unixtime e \<noteq> 0 then
                 c_bind (c_read (fp_cmd e)) (\<lambda>k. c_bind (c_read (fp_args e)) (\<lambda>a.
                   Inr ((unixtime e, k, a, executions e, periodical e) # rows)))
               else Inr rows)) (data_base s) (Inr [])) (\<lambda>rows.
       Inr (0, rows, fp_given s)))"

section \<open>Well-formed tables\<close>

text \<open>25 slots; an occupied one has its two blocks, and their strings fit.\<close>

definition fp_slot_ok :: "fp_entry \<Rightarrow> bool" where
  "fp_slot_ok e \<longleftrightarrow> in_i32 (periodical e) \<and> (unixtime e \<noteq> 0 \<longrightarrow>
     (\<exists>k a. fp_cmd e = Block k \<and> fp_args e = Block a \<and> length k < 50 \<and> length a < 50))"

definition fp_wf :: "fp_state \<Rightarrow> bool" where
  "fp_wf s \<longleftrightarrow> length (data_base s) = SCH_FP_MAX_ENTRIES \<and> (\<forall>e \<in> set (data_base s). fp_slot_ok e)"

text \<open>The entries due at a time, as the plan a user wrote.\<close>

definition fp_plan :: "fp_entry \<Rightarrow> cptr \<times> cptr \<times> int \<times> int" where
  "fp_plan e = (fp_cmd e, fp_args e, executions e, periodical e)"

definition fp_at :: "int \<Rightarrow> fp_state \<Rightarrow> (cptr \<times> cptr \<times> int \<times> int) list" where
  "fp_at t s = map fp_plan (filter (\<lambda>e. unixtime e = t) (data_base s))"

definition fp_free_slot :: "fp_state \<Rightarrow> bool" where
  "fp_free_slot s \<longleftrightarrow> (\<exists>e \<in> set (data_base s). unixtime e = 0)"

lemma fp_find_Some:
  "fp_find t es k = Some i \<Longrightarrow> k \<le> i \<and> i - k < length es \<and> unixtime (es ! (i - k)) = t \<and>
     (\<forall>j < i - k. unixtime (es ! j) \<noteq> t)"
proof (induction t es k rule: fp_find.induct)
  case (2 t e es k)
  show ?case
  proof (cases "unixtime e = t")
    case True
    then show ?thesis using 2 by simp
  next
    case False
    then have IH: "k + 1 \<le> i \<and> i - (k + 1) < length es \<and> unixtime (es ! (i - (k + 1))) = t \<and>
        (\<forall>j < i - (k + 1). unixtime (es ! j) \<noteq> t)"
      using 2 by simp
    have "i - k = Suc (i - (k + 1))" using conjunct1 [OF IH] by linarith
    then show ?thesis using IH False by (auto simp: less_Suc_eq_0_disj)
  qed
qed simp

lemma fp_find_None: "fp_find t es k = None \<longleftrightarrow> (\<forall>e \<in> set es. unixtime e \<noteq> t)"
  by (induction t es k rule: fp_find.induct) auto

lemma fp_find_split:
  assumes "fp_find t es 0 = Some i"
  obtains A e B where "es = A @ e # B" "length A = i" "unixtime e = t" "\<forall>x \<in> set A. unixtime x \<noteq> t"
proof
  have i: "i < length es" "unixtime (es ! i) = t" "\<forall>j < i. unixtime (es ! j) \<noteq> t"
    using fp_find_Some [OF assms] by simp_all
  show "es = take i es @ es ! i # drop (Suc i) es" using i(1) by (rule id_take_nth_drop)
  show "length (take i es) = i" using i(1) by simp
  show "unixtime (es ! i) = t" by (rule i(2))
  show "\<forall>x \<in> set (take i es). unixtime x \<noteq> t" using i by (auto simp: in_set_conv_nth)
qed


lemma dat_set_fp_async_full:
  "\<not> fp_free_slot s \<Longrightarrow> dat_set_fp_async t k a ex per s = Inr (1, s)"
  by (simp add: dat_set_fp_async_def fp_free_slot_def flip: fp_find_None [of 0 _ 0])

lemma dat_set_fp_async_free:
  assumes "fp_wf s" "fp_free_slot s" "length k < 50" "length a < 50" "in_i32 per"
  shows "\<exists>s'. dat_set_fp_async t k a ex per s = Inr (0, s') \<and> fp_wf s' \<and> fp_taken s' = fp_taken s \<and>
    (\<forall>u. u \<noteq> 0 \<longrightarrow> mset (fp_at u s') =
       mset (fp_at u s) + (if u = t then {# (Block k, Block a, ex, per) #} else {#})) \<and>
    (\<forall>u. u \<noteq> 0 \<and> u \<noteq> t \<longrightarrow> fp_at u s' = fp_at u s)"
proof -
  obtain i where i: "fp_find 0 (data_base s) 0 = Some i"
    using assms(2) fp_find_None [of 0 "data_base s" 0] by (cases "fp_find 0 (data_base s) 0") (auto simp: fp_free_slot_def)
  then obtain A e B where es: "data_base s = A @ e # B" and A: "length A = i" and e: "unixtime e = 0"
    by (rule fp_find_split)
  let ?e = "\<lparr> unixtime = t, fp_cmd = Block k, fp_args = Block a, executions = ex, periodical = per \<rparr>"
  let ?s = "s\<lparr> data_base := A @ ?e # B \<rparr>"
  have "dat_set_fp_async t k a ex per s = Inr (0, ?s)"
    using i assms(3,4) by (simp add: dat_set_fp_async_def es flip: A)
  moreover have "fp_wf ?s" using assms by (auto simp: fp_wf_def es fp_slot_ok_def)
  moreover have "u \<noteq> 0 \<longrightarrow> mset (fp_at u ?s) =
       mset (fp_at u s) + (if u = t then {# (Block k, Block a, ex, per) #} else {#})" for u
    using e by (auto simp: fp_at_def es fp_plan_def)
  moreover have "u \<noteq> 0 \<and> u \<noteq> t \<longrightarrow> fp_at u ?s = fp_at u s" for u
    using e by (auto simp: fp_at_def es)
  ultimately show ?thesis by (intro exI [of _ ?s]) simp
qed

lemma dat_del_fp_async_due:
  assumes "fp_wf s" "t \<noteq> 0" "fp_at t s = r # rs"
  shows "\<exists>s'. dat_del_fp_async t s = Inr (0, s') \<and> fp_wf s' \<and> fp_taken s' = fp_taken s \<and>
    fp_at t s' = rs \<and> (\<forall>u. u \<noteq> 0 \<and> u \<noteq> t \<longrightarrow> fp_at u s' = fp_at u s)"
proof -
  have "\<exists>e \<in> set (data_base s). unixtime e = t"
  proof (rule ccontr)
    assume "\<not> ?thesis"
    then have "filter (\<lambda>e. unixtime e = t) (data_base s) = []" by (auto simp: filter_empty_conv)
    then show False using assms(3) by (simp add: fp_at_def)
  qed
  then obtain i where i: "fp_find t (data_base s) 0 = Some i"
    using fp_find_None [of t "data_base s" 0] by (cases "fp_find t (data_base s) 0") auto
  then obtain A e B where es: "data_base s = A @ e # B" and A: "length A = i" and e: "unixtime e = t"
    and before: "\<forall>x \<in> set A. unixtime x \<noteq> t"
    by (rule fp_find_split)
  have ok: "fp_slot_ok e" using assms(1) by (simp add: fp_wf_def es)
  then obtain k a where blocks: "fp_cmd e = Block k" "fp_args e = Block a"
    using e assms(2) by (auto simp: fp_slot_ok_def)
  let ?e = "\<lparr> unixtime = 0, fp_cmd = Freed, fp_args = Freed, executions = 0, periodical = 0 \<rparr>"
  let ?s = "s\<lparr> data_base := A @ ?e # B \<rparr>"
  have "dat_del_fp_async t s = Inr (0, ?s)"
    using i by (simp add: dat_del_fp_async_def es c_free_def blocks Let_def flip: A)
  moreover have "fp_wf ?s" using assms(1) by (auto simp: fp_wf_def es fp_slot_ok_def in_i32_def)
  moreover have "fp_at t ?s = rs"
    using assms(2,3) before e by (simp add: fp_at_def es filter_empty_conv [THEN iffD2])
  moreover have "u \<noteq> 0 \<and> u \<noteq> t \<longrightarrow> fp_at u ?s = fp_at u s" for u
    using e by (auto simp: fp_at_def es)
  ultimately show ?thesis by (intro exI [of _ ?s]) simp
qed

lemma i32_add_pos: "0 < p \<Longrightarrow> p \<le> INT_MAX \<Longrightarrow> i32 (t + p) \<noteq> t"
proof
  assume p: "0 < p" "p \<le> INT_MAX" and "i32 (t + p) = t"
  then have "(t + p + 2147483648) mod 4294967296 = t + 2147483648" by (simp add: i32_def)
  then have "0 \<le> t + 2147483648" "t + 2147483648 < 4294967296"
    by (metis Euclidean_Rings.pos_mod_sign Euclidean_Rings.pos_mod_bound zero_less_numeral)+
  then have "(t + 2147483648) mod 4294967296 = (t + p + 2147483648) mod 4294967296"
    using \<open>(t + p + 2147483648) mod 4294967296 = t + 2147483648\<close> by simp
  then have "4294967296 dvd (t + p + 2147483648) - (t + 2147483648)"
    by (metis mod_eq_dvd_iff)
  then have "4294967296 dvd p" by simp
  then show False using p zdvd_imp_le [of 4294967296 p] by simp
qed


section \<open>Properties\<close>

lemma fp_at_same [simp]: "fp_at u (s\<lparr> fp_taken := b \<rparr>) = fp_at u s"
  "fp_wf (s\<lparr> fp_taken := b \<rparr>) = fp_wf s" "fp_free_slot (s\<lparr> fp_taken := b \<rparr>) = fp_free_slot s"
  by (simp_all add: fp_at_def fp_wf_def fp_free_slot_def)

lemma fp_at_head:
  assumes "fp_wf s" "t \<noteq> 0" "fp_at t s = r # rs"
  obtains i k a ex per where "fp_find t (data_base s) 0 = Some i" "r = (Block k, Block a, ex, per)"
    "fp_plan (data_base s ! i) = r" "length k < 50" "length a < 50" "in_i32 per"
proof -
  have "\<exists>e \<in> set (data_base s). unixtime e = t"
    using assms(3) by (auto simp: fp_at_def filter_eq_Cons_iff)
  then obtain i where i: "fp_find t (data_base s) 0 = Some i"
    using fp_find_None [of t "data_base s" 0] by (cases "fp_find t (data_base s) 0") auto
  then obtain A e B where es: "data_base s = A @ e # B" "length A = i" "unixtime e = t"
    and "\<forall>x \<in> set A. unixtime x \<noteq> t" by (rule fp_find_split)
  then have "filter (\<lambda>x. unixtime x = t) (data_base s) = e # filter (\<lambda>x. unixtime x = t) B"
    by (simp add: filter_empty_conv [THEN iffD2])
  then have "r = fp_plan e" using assms(3) by (simp add: fp_at_def)
  moreover have "fp_slot_ok e" using assms(1) es(1) by (simp add: fp_wf_def)
  then obtain k a where "fp_cmd e = Block k" "fp_args e = Block a" "length k < 50" "length a < 50"
    "in_i32 (periodical e)"
    using es(3) assms(2) by (auto simp: fp_slot_ok_def)
  moreover have "data_base s ! i = e" using es by (simp add: nth_append)
  ultimately show ?thesis using that [OF i] by (simp add: fp_plan_def)
qed

text \<open>
  C28.  Adding a flight-plan entry (RAM storage, mutex free, time not 0, strings under 50
  characters): with a free slot it returns 0, the plan for that time gains exactly this entry, the
  plan for every other time is unchanged, the table stays well formed and the mutex is released;
  with all 25 slots occupied it returns 1 and changes nothing.
\<close>

theorem dat_set_fp_spec:
  assumes "fp_wf s" "\<not> fp_taken s" "t \<noteq> 0" "length k < 50" "length a < 50" "in_i32 per"
  shows "if fp_free_slot s then
      \<exists>s'. dat_set_fp_ram t k a ex per s = Inr (0, s') \<and> fp_wf s' \<and> \<not> fp_taken s' \<and>
        (\<forall>u. u \<noteq> 0 \<longrightarrow> mset (fp_at u s') =
           mset (fp_at u s) + (if u = t then {# (Block k, Block a, ex, per) #} else {#}))
    else dat_set_fp_ram t k a ex per s = Inr (1, s)"
proof (cases "fp_free_slot s")
  case True
  let ?s = "s\<lparr> fp_taken := True \<rparr>"
  obtain s' where "dat_set_fp_async t k a ex per ?s = Inr (0, s')" "fp_wf s'"
    "\<forall>u. u \<noteq> 0 \<longrightarrow> mset (fp_at u s') =
       mset (fp_at u s) + (if u = t then {# (Block k, Block a, ex, per) #} else {#})"
    using dat_set_fp_async_free [of ?s k a per t ex] True assms by auto
  then show ?thesis using True assms(2)
    by (simp add: dat_set_fp_ram_def fp_take_def fp_given_def)
next
  case False
  then show ?thesis using assms(2) dat_set_fp_async_full [of "s\<lparr> fp_taken := True \<rparr>"]
    by (simp add: dat_set_fp_ram_def fp_take_def fp_given_def)
qed

theorem dat_set_fp_spec_witness:
  "fp_wf fp_initial \<and> fp_free_slot fp_initial \<and>
   (\<exists>s'. dat_set_fp_ram 100 ''help'' '''' 1 0 fp_initial = Inr (0, s') \<and> fp_wf s' \<and>
      mset (fp_at 100 s') = {# (Block ''help'', Block '''', 1, 0) #})"
proof -
  have init: "fp_wf fp_initial" "fp_free_slot fp_initial" "\<not> fp_taken fp_initial" "fp_at 100 fp_initial = []"
    by (simp_all add: fp_wf_def fp_free_slot_def fp_initial_def fp_empty_def fp_slot_ok_def fp_at_def in_i32_def)
  then show ?thesis
    using dat_set_fp_spec [of fp_initial 100 "''help''" "''''" 0 1]
    by (fastforce simp: in_i32_def simp del: mset_single_iff mset_single_iff_right)
qed

lemma dat_get_fp_none:
  assumes "\<not> fp_taken s" "fp_at t s = []"
  shows "dat_get_fp_ram t s = Inr (-1, None, s)"
proof -
  have "fp_find t (data_base s) 0 = None"
    using assms(2) by (auto simp: fp_find_None fp_at_def filter_empty_conv)
  then show ?thesis using assms(1) by (simp add: dat_get_fp_ram_def fp_take_def fp_given_def)
qed

text \<open>The insertion of the next occurrence, where the period asks for one.\<close>

lemma fp_reinsert:
  assumes "fp_wf s" "t \<noteq> 0" "fp_at t s = r # rs" "r = (Block k, Block a, ex, per)"
    "length k < 50" "length a < 50" "in_i32 per"
  shows "\<exists>rc s1. (if per > 0 then dat_set_fp_async (i32 (t + per)) k a ex per s else Inr (0, s)) = Inr (rc, s1) \<and>
    fp_wf s1 \<and> fp_taken s1 = fp_taken s \<and> fp_at t s1 = r # rs \<and>
    (\<forall>u. u \<noteq> 0 \<and> u \<noteq> t \<longrightarrow> mset (fp_at u s1) =
       mset (fp_at u s) + (if 0 < per \<and> u = i32 (t + per) \<and> fp_free_slot s then {# r #} else {#}))"
proof (cases "0 < per \<and> fp_free_slot s")
  case True
  then have "i32 (t + per) \<noteq> t" using assms(7) by (intro i32_add_pos) (simp_all add: in_i32_def)
  then show ?thesis
    using dat_set_fp_async_free [of s k a per "i32 (t + per)" ex] assms True by auto
next
  case False
  then show ?thesis
    using dat_set_fp_async_full [of s "i32 (t + per)" k a ex per] assms(1,3)
    by (intro exI [of _ "if 0 < per then 1 else 0"] exI [of _ s]) auto
qed

lemma dat_get_fp_due:
  assumes "fp_wf s" "\<not> fp_taken s" "t \<noteq> 0" "fp_at t s = r # rs"
  shows "\<exists>k a ex per s'. r = (Block k, Block a, ex, per) \<and>
    dat_get_fp_ram t s = Inr (0, Some (k, a, ex, per), s') \<and> fp_wf s' \<and> fp_taken s' \<and> fp_at t s' = rs \<and>
    (\<forall>u. u \<noteq> 0 \<and> u \<noteq> t \<longrightarrow> mset (fp_at u s') =
       mset (fp_at u s) + (if 0 < per \<and> u = i32 (t + per) \<and> fp_free_slot s then {# r #} else {#}))"
proof -
  from assms(1,3,4) obtain i k a ex per where i: "fp_find t (data_base s) 0 = Some i"
    and r: "r = (Block k, Block a, ex, per)" and plan: "fp_plan (data_base s ! i) = r"
    and len: "length k < 50" "length a < 50" "in_i32 per"
    by (rule fp_at_head)
  let ?s = "s\<lparr> fp_taken := True \<rparr>"
  have e: "fp_cmd (data_base s ! i) = Block k" "fp_args (data_base s ! i) = Block a"
    "executions (data_base s ! i) = ex" "periodical (data_base s ! i) = per"
    using plan r by (simp_all add: fp_plan_def)
  obtain rc s1 where s1: "(if per > 0 then dat_set_fp_async (i32 (t + per)) k a ex per ?s else Inr (0, ?s)) = Inr (rc, s1)"
    "fp_wf s1" "fp_taken s1" "fp_at t s1 = r # rs"
    "\<forall>u. u \<noteq> 0 \<and> u \<noteq> t \<longrightarrow> mset (fp_at u s1) =
       mset (fp_at u s) + (if 0 < per \<and> u = i32 (t + per) \<and> fp_free_slot s then {# r #} else {#})"
    using fp_reinsert [of ?s t r rs k a ex per] assms(1,3,4) r len by auto
  obtain s2 where "dat_del_fp_async t s1 = Inr (0, s2)" "fp_wf s2" "fp_taken s2" "fp_at t s2 = rs"
    "\<forall>u. u \<noteq> 0 \<and> u \<noteq> t \<longrightarrow> fp_at u s2 = fp_at u s1"
    using dat_del_fp_async_due [OF s1(2) assms(3) s1(4)] s1(3) by auto
  moreover from this have "dat_get_fp_ram t s = Inr (0, Some (k, a, ex, per), s2)"
    using assms(2) i e s1(1)
    by (simp add: dat_get_fp_ram_def fp_take_def Let_def c_read_def split: if_splits)
  ultimately show ?thesis using r s1(5) by simp
qed

text \<open>
  C29.  Fetching the entry due at a time.  When nothing is due the call returns -1 and changes
  nothing.  Otherwise it returns 0 and the first entry due: the plan for that time loses exactly this
  entry, and for a positive period the same entry appears one period later, provided a slot was free
  beforehand: in a full table the periodic entry is lost.  All other times keep their plan.
\<close>

theorem dat_get_fp_spec:
  assumes "fp_wf s" "\<not> fp_taken s" "t \<noteq> 0"
  shows "case fp_at t s of
      [] \<Rightarrow> dat_get_fp_ram t s = Inr (-1, None, s)
    | r # rs \<Rightarrow> \<exists>k a ex per s'. r = (Block k, Block a, ex, per) \<and>
        dat_get_fp_ram t s = Inr (0, Some (k, a, ex, per), s') \<and> fp_wf s' \<and> fp_at t s' = rs \<and>
        (\<forall>u. u \<noteq> 0 \<and> u \<noteq> t \<longrightarrow> mset (fp_at u s') =
           mset (fp_at u s) + (if 0 < per \<and> u = i32 (t + per) \<and> fp_free_slot s then {# r #} else {#}))"
proof (cases "fp_at t s")
  case Nil
  then show ?thesis using dat_get_fp_none [OF assms(2)] by simp
next
  case (Cons r rs)
  then show ?thesis using dat_get_fp_due [OF assms Cons] by fastforce
qed

theorem dat_get_fp_spec_witness:
  "\<exists>s s'. dat_set_fp_ram 100 ''help'' '''' 1 60 fp_initial = Inr (0, s) \<and>
     dat_get_fp_ram 100 s = Inr (0, Some (''help'', '''', 1, 60), s') \<and>
     fp_at 100 s' = [] \<and> mset (fp_at 160 s') = {# (Block ''help'', Block '''', 1, 60) #}"
proof -
  let ?s = "\<lparr> data_base = \<lparr> unixtime = 100, fp_cmd = Block ''help'', fp_args = Block '''',
      executions = 1, periodical = 60 \<rparr> # replicate 24 fp_empty, fp_taken = False \<rparr>"
  have r: "replicate 25 fp_empty = fp_empty # replicate 24 fp_empty"
    by (simp flip: replicate_Suc)
  have set: "dat_set_fp_ram 100 ''help'' '''' 1 60 fp_initial = Inr (0, ?s)"
    by (simp add: dat_set_fp_ram_def fp_take_def fp_initial_def fp_given_def dat_set_fp_async_def r)
       (simp add: fp_empty_def)
  have wf: "fp_wf ?s" "\<not> fp_taken ?s" "fp_free_slot ?s"
    "fp_at 100 ?s = [(Block ''help'', Block '''', 1, 60)]" "fp_at 160 ?s = []"
    by (simp_all add: fp_wf_def fp_free_slot_def fp_empty_def fp_slot_ok_def fp_at_def fp_plan_def in_i32_def)
  have "i32 160 = 160" by (simp add: i32_def)
  then show ?thesis using dat_get_fp_spec [OF wf(1,2), of 100] wf set
    by (fastforce simp del: mset_single_iff mset_single_iff_right)
qed

text \<open>
  Fetching a due entry leaves the mutex taken: from then on every operation on the flight
  plan blocks forever, the next fetch of the flight-plan task included.
\<close>

lemma dat_get_fp_blocks_plan:
  assumes "fp_wf s" "t \<noteq> 0" "dat_get_fp_ram t s = Inr (0, res, s')"
  shows "dat_get_fp_ram u s' = Inl Deadlock \<and> dat_set_fp_ram u k a ex per s' = Inl Deadlock \<and>
    dat_del_fp_ram u s' = Inl Deadlock \<and> dat_reset_fp_ram s' = Inl Deadlock \<and> dat_show_fp_ram s' = Inl Deadlock"
proof -
  have free: "\<not> fp_taken s" using assms(3) by (auto simp: dat_get_fp_ram_def fp_take_def)
  then have "fp_at t s \<noteq> []" using dat_get_fp_none [of s t] assms(3) by auto
  then obtain r rs where "fp_at t s = r # rs" by (cases "fp_at t s") auto
  then have "fp_taken s'" using dat_get_fp_due [OF assms(1) free assms(2)] assms(3) by auto
  then show ?thesis
    by (simp add: dat_get_fp_ram_def dat_set_fp_ram_def dat_del_fp_ram_def dat_reset_fp_ram_def dat_show_fp_ram_def fp_take_def)
qed

lemma dat_get_fp_blocks_plan_witness:
  "\<exists>s s'. dat_set_fp_ram 100 ''help'' '''' 1 0 fp_initial = Inr (0, s) \<and>
     dat_get_fp_ram 100 s = Inr (0, Some (''help'', '''', 1, 0), s') \<and> dat_get_fp_ram 101 s' = Inl Deadlock"
proof -
  let ?e = "\<lparr> unixtime = 100, fp_cmd = Block ''help'', fp_args = Block '''', executions = 1, periodical = 0 \<rparr>"
  let ?f = "\<lparr> unixtime = 0, fp_cmd = Freed, fp_args = Freed, executions = 0, periodical = 0 \<rparr>"
  let ?s = "\<lparr> data_base = ?e # replicate 24 fp_empty, fp_taken = False \<rparr>"
  let ?t = "\<lparr> data_base = ?f # replicate 24 fp_empty, fp_taken = True \<rparr>"
  have r: "replicate 25 fp_empty = fp_empty # replicate 24 fp_empty"
    by (simp flip: replicate_Suc)
  have set: "dat_set_fp_ram 100 ''help'' '''' 1 0 fp_initial = Inr (0, ?s)"
    by (simp add: dat_set_fp_ram_def fp_take_def fp_initial_def fp_given_def dat_set_fp_async_def r)
       (simp add: fp_empty_def)
  have get: "dat_get_fp_ram 100 ?s = Inr (0, Some (''help'', '''', 1, 0), ?t)"
    by (simp add: dat_get_fp_ram_def fp_take_def c_read_def c_free_def dat_del_fp_async_def Let_def)
  have "fp_wf ?s" by (simp add: fp_wf_def fp_slot_ok_def fp_empty_def in_i32_def)
  then show ?thesis using dat_get_fp_blocks_plan [of ?s 100 _ ?t 101] set get by auto
qed

end
