(* ===== verification/RepoData.thy ===== *)
theory RepoData
  imports StatusVars RepoFP
begin

text \<open>
  The data repository (\<^verbatim>\<open>src/system/repoData.c\<close>): the status variables with their tripled copies
  and majority vote, in RAM or in an external storage, the payload sample counters, the clock, and
  the start-up of the repository.  The storage driver is an argument, the record of the functions of
  \<^verbatim>\<open>data_storage.c\<close> that the repository calls; what it must guarantee is stated as
  \<open>value_store\<close>.  Each function takes the repository mutex on entry and gives it back on every
  path, so a call is one atomic step.
\<close>

section \<open>State\<close>

text \<open>
  The functions of \<^verbatim>\<open>data_storage.c\<close>, over the state \<open>'x\<close> of the driver.  A payload sample is the
  list of its bytes; \<open>st_get_payload_data\<close> also returns the bytes it wrote.
\<close>

record 'x storage =
  st_init :: "'x \<Rightarrow> int \<times> 'x"
  st_table_repo_init :: "int \<Rightarrow> 'x \<Rightarrow> int \<times> 'x"
  st_table_payload_init :: "int \<Rightarrow> 'x \<Rightarrow> int \<times> 'x"
  st_table_flight_plan_init :: "int \<Rightarrow> 'x \<Rightarrow> int \<times> 'x"
  st_repo_get_value_idx :: "int \<Rightarrow> 'x \<Rightarrow> int"
  st_repo_set_value_idx :: "int \<Rightarrow> int \<Rightarrow> 'x \<Rightarrow> int \<times> 'x"
  st_set_payload_data :: "int \<Rightarrow> u8 list \<Rightarrow> payload_id \<Rightarrow> 'x \<Rightarrow> int \<times> 'x"
  st_get_payload_data :: "int \<Rightarrow> payload_id \<Rightarrow> 'x \<Rightarrow> int \<times> u8 list"
  st_delete_memory_sections :: "'x \<Rightarrow> int \<times> 'x"
  st_flight_plan_reset :: "'x \<Rightarrow> int \<times> 'x"
  st_close :: "'x \<Rightarrow> int \<times> 'x"

text \<open>
  The variables of the repository: \<^verbatim>\<open>DAT_SYSTEM_VAR_BUFF\<close>, the state behind the storage driver,
  the flight plan in RAM, and the seconds counter of the AVR32.
\<close>

record 'x dat_state =
  var_buff :: "int list"
  ext :: 'x
  fplan :: fp_state
  sec :: int

definition buff_size :: "sch_config \<Rightarrow> nat" where
  "buff_size c = (if storage_triple_wr c then dat_system_last_var * 3 else dat_system_last_var)"

section \<open>Status variables\<close>

text \<open>One cell of the memory, in RAM or in the external storage.\<close>

definition cell_set :: "sch_config \<Rightarrow> 'x storage \<Rightarrow> nat \<Rightarrow> int \<Rightarrow> 'x dat_state \<Rightarrow> 'x dat_state" where
  "cell_set c st i value s =
     (if storage_mode c = 0 then s\<lparr> var_buff := (var_buff s)[i := value] \<rparr>
      else s\<lparr> ext := snd (st_repo_set_value_idx st (int i) value (ext s)) \<rparr>)"

definition cell_get :: "sch_config \<Rightarrow> 'x storage \<Rightarrow> nat \<Rightarrow> 'x dat_state \<Rightarrow> int" where
  "cell_get c st i s =
     (if storage_mode c = 0 then var_buff s ! i else st_repo_get_value_idx st (int i) (ext s))"

definition dat_set_system_var ::
  "sch_config \<Rightarrow> 'x storage \<Rightarrow> dat_system \<Rightarrow> int \<Rightarrow> 'x dat_state \<Rightarrow> 'x dat_state" where
  "dat_set_system_var c st index value s =
     (let s1 = cell_set c st (dat_idx index) value s in
      if storage_triple_wr c then
        cell_set c st (dat_idx index + dat_system_last_var * 2) value
          (cell_set c st (dat_idx index + dat_system_last_var) value s1)
      else s1)"

definition dat_get_system_var :: "sch_config \<Rightarrow> 'x storage \<Rightarrow> dat_system \<Rightarrow> 'x dat_state \<Rightarrow> int" where
  "dat_get_system_var c st index s =
     (let value_1 = cell_get c st (dat_idx index) s in
      if storage_triple_wr c then
        let value_2 = cell_get c st (dat_idx index + dat_system_last_var) s;
            value_3 = cell_get c st (dat_idx index + dat_system_last_var * 2) s
        in if value_1 = value_2 \<or> value_1 = value_3 then value_1
           else if value_2 = value_3 then value_2
           else value_1
      else value_1)"

text \<open>The single-copy variants kept for testing (\<^verbatim>\<open>_dat_set_system_var\<close>, \<^verbatim>\<open>_dat_get_system_var\<close>).\<close>

definition dat_set_system_var_single ::
  "sch_config \<Rightarrow> 'x storage \<Rightarrow> dat_system \<Rightarrow> int \<Rightarrow> 'x dat_state \<Rightarrow> 'x dat_state" where
  "dat_set_system_var_single c st index value s = cell_set c st (dat_idx index) value s"

definition dat_get_system_var_single :: "sch_config \<Rightarrow> 'x storage \<Rightarrow> dat_system \<Rightarrow> 'x dat_state \<Rightarrow> int" where
  "dat_get_system_var_single c st index s = cell_get c st (dat_idx index) s"

section \<open>Start-up\<close>

definition initialize_payload_vars :: "sch_config \<Rightarrow> 'x storage \<Rightarrow> 'x dat_state \<Rightarrow> 'x dat_state" where
  "initialize_payload_vars c st s =
     fold (\<lambda>p s. if dat_get_system_var c st (dm_sys_index (data_map p)) s = -1 then
                   dat_set_system_var c st (dm_sys_ack (data_map p)) 0
                     (dat_set_system_var c st (dm_sys_index (data_map p)) 0 s)
                 else s) payload_all s"

text \<open>Run an initialisation of the storage and assert that it returned 0.\<close>

definition st_assert :: "('x \<Rightarrow> int \<times> 'x) \<Rightarrow> 'x dat_state \<Rightarrow> 'x dat_state c_result" where
  "st_assert f s = (let (rc, x) = f (ext s) in
     if rc = 0 then Inr (s\<lparr> ext := x \<rparr>) else Inl AssertFailed)"

definition dat_storage_init :: "sch_config \<Rightarrow> 'x storage \<Rightarrow> 'x dat_state \<Rightarrow> 'x dat_state c_result" where
  "dat_storage_init c st s =
     (if storage_mode c = 0 then
        Inr ((fold (\<lambda>v s. dat_set_system_var c st v INT_MAX s) dat_all s)
               \<lparr> fplan := \<lparr> data_base = replicate SCH_FP_MAX_ENTRIES fp_empty, fp_taken = False \<rparr> \<rparr>)
      else if storage_mode c = 1 then
        c_bind (st_assert (st_init st) s) (\<lambda>s.
        c_bind (st_assert (st_table_repo_init st 0) s) (\<lambda>s.
        c_bind (st_assert (st_table_payload_init st 0) s) (\<lambda>s.
        st_assert (st_table_flight_plan_init st 0) s)))
      else if storage_mode c = 2 then
        c_bind (st_assert (st_init st) s) (\<lambda>s.
        c_bind (st_assert (st_table_repo_init st 0) s) (\<lambda>s.
        st_assert (st_table_payload_init st 0) s))
      else Inr s)"

definition dat_repo_init :: "sch_config \<Rightarrow> 'x storage \<Rightarrow> 'x dat_state \<Rightarrow> 'x dat_state c_result" where
  "dat_repo_init c st s =
     c_bind (dat_storage_init c st s) (\<lambda>s.
       let s = dat_set_system_var c st dat_obc_hrs_wo_reset 0 s;
           s = dat_set_system_var c st dat_obc_reset_counter
                 (i32 (dat_get_system_var c st dat_obc_reset_counter s + 1)) s;
           s = dat_set_system_var c st dat_obc_sw_wdt 0 s
       in Inr (if 0 < storage_mode c then initialize_payload_vars c st s else s))"

definition dat_repo_close :: "sch_config \<Rightarrow> 'x storage \<Rightarrow> 'x dat_state \<Rightarrow> 'x dat_state" where
  "dat_repo_close c st s = (if storage_mode c \<noteq> 0 then s\<lparr> ext := snd (st_close st (ext s)) \<rparr> else s)"

section \<open>Payload samples\<close>

text \<open>The driver is called only on Linux and on the Nanomind.\<close>

definition has_payload_storage :: "sch_config \<Rightarrow> bool" where
  "has_payload_storage c \<longleftrightarrow> platform_of c = LINUX \<or> platform_of c = NANOMIND"

definition dat_add_payload_sample ::
  "sch_config \<Rightarrow> 'x storage \<Rightarrow> u8 list \<Rightarrow> payload_id \<Rightarrow> 'x dat_state \<Rightarrow> int \<times> 'x dat_state" where
  "dat_add_payload_sample c st data payload s =
     (let index = dat_get_system_var c st (dm_sys_index (data_map payload)) s;
          (ret, s1) = (if has_payload_storage c
                       then let (r, x) = st_set_payload_data st index data payload (ext s) in (r, s\<lparr> ext := x \<rparr>)
                       else (0, s))
      in if ret = 0 then
           (i32 (index + 1), dat_set_system_var c st (dm_sys_index (data_map payload)) (i32 (index + 1)) s1)
         else (-1, s1))"

definition dat_get_recent_payload_sample ::
  "sch_config \<Rightarrow> 'x storage \<Rightarrow> payload_id \<Rightarrow> int \<Rightarrow> 'x dat_state \<Rightarrow> int \<times> u8 list" where
  "dat_get_recent_payload_sample c st payload delay s =
     (let index = dat_get_system_var c st (dm_sys_index (data_map payload)) s in
      if has_payload_storage c then
        if i32 (index - 1 - delay) \<ge> 0
        then st_get_payload_data st (i32 (index - 1 - delay)) payload (ext s)
        else (-1, [])
      else (0, []))"

definition dat_delete_memory_sections ::
  "sch_config \<Rightarrow> 'x storage \<Rightarrow> 'x dat_state \<Rightarrow> int \<times> 'x dat_state" where
  "dat_delete_memory_sections c st s =
     (let s1 = fold (\<lambda>p s. dat_set_system_var c st (dm_sys_index (data_map p)) 0 s) payload_all s;
          (ret, s2) = (if platform_of c = NANOMIND
                       then let (r, x) = st_delete_memory_sections st (ext s1) in (r, s1\<lparr> ext := x \<rparr>)
                       else (0, s1));
          s3 = (if fp_enabled c then s2\<lparr> ext := snd (st_flight_plan_reset st (ext s2)) \<rparr> else s2)
      in (ret, s3))"

section \<open>Time\<close>

text \<open>\<open>clock\<close> is what \<^verbatim>\<open>time(NULL)\<close> returns, \<open>ctime\<close> the library function, \<open>run\<close> the result of \<^verbatim>\<open>system\<close>.\<close>

definition dat_get_time :: "sch_config \<Rightarrow> int \<Rightarrow> 'x dat_state \<Rightarrow> int" where
  "dat_get_time c clock s = (if platform_of c = AVR32 then sec s else clock)"

definition dat_update_time :: "sch_config \<Rightarrow> 'x dat_state \<Rightarrow> int \<times> 'x dat_state" where
  "dat_update_time c s = (if platform_of c = AVR32 then (0, s\<lparr> sec := sec s + 1 \<rparr>) else (0, s))"

definition set_time_command :: "(int \<Rightarrow> string) \<Rightarrow> int \<Rightarrow> string" where
  "set_time_command ctime t = ''sudo hwclock --set --date '' @ CHR 0x27 # ctime t @ [CHR 0x27]"

definition dat_set_time ::
  "sch_config \<Rightarrow> (int \<Rightarrow> string) \<Rightarrow> (string \<Rightarrow> int) \<Rightarrow> int \<Rightarrow> 'x dat_state \<Rightarrow> int \<times> 'x dat_state" where
  "dat_set_time c ctime run new_time s =
     (case platform_of c of
        AVR32 \<Rightarrow> (0, s\<lparr> sec := new_time \<rparr>)
      | ESP32 \<Rightarrow> (0, s)
      | NANOMIND \<Rightarrow> (0, s)
      | LINUX \<Rightarrow>
          let rc = run (set_time_command ctime new_time) in
          (if rc = -1 then 1 else if rc = 127 then 1 else if rc \<noteq> 0 then 1 else 0, s))"

definition dat_show_time :: "sch_config \<Rightarrow> (int \<Rightarrow> string) \<Rightarrow> int \<Rightarrow> int \<Rightarrow> 'x dat_state \<Rightarrow> int \<times> string" where
  "dat_show_time c ctime clock format s =
     (let time_to_show = dat_get_time c clock s in
      if format = 0 then (0, ctime time_to_show @ [CHR 0x0A])
      else if format = 1 then (0, show_int (u32 time_to_show) @ [CHR 0x0A])
      else (1, []))"

section \<open>The status as a structure\<close>

text \<open>
  The value of \<^verbatim>\<open>(float) x\<close> for an \<^verbatim>\<open>int\<close>: 24 significant bits, rounded to nearest, ties to even;
  and the IEEE 754 pattern of that float.
\<close>

fun bit_len :: "nat \<Rightarrow> nat" where
  "bit_len n = (if n = 0 then 0 else Suc (bit_len (n div 2)))"

declare bit_len.simps [simp del]

definition f32_round :: "int \<Rightarrow> int" where
  "f32_round x =
     (let a = nat \<bar>x\<bar>; k = bit_len a - 24; q = a div 2 ^ k; r = a mod 2 ^ k;
          q' = (if 2 ^ k < 2 * r \<or> (2 ^ k = 2 * r \<and> 0 < k \<and> odd q) then q + 1 else q)
      in sgn x * int (q' * 2 ^ k))"

definition f32_bits :: "int \<Rightarrow> u32w" where
  "f32_bits x =
     (let a = nat \<bar>f32_round x\<bar>; e = bit_len a;
          m = (if e \<le> 24 then a * 2 ^ (24 - e) else a div 2 ^ (e - 24))
      in if x = 0 then 0
         else word_of_nat ((if x < 0 then 2 ^ 31 else 0) + (126 + e) * 2 ^ 23 + (m - 2 ^ 23)))"

text \<open>
  \<^verbatim>\<open>dat_status_t\<close> as the list of its four-byte fields: every variable but the four of the balloon,
  and a last field that is never written.  \<^verbatim>\<open>DAT_CPY_SYSTEM_VAR_F\<close> goes from the stored pattern to
  float and back to int before it is reinterpreted; \<^verbatim>\<open>dat_fod_ver\<close> is converted to float.
\<close>

definition status_floats :: "dat_system list" where
  "status_floats = [dat_obc_temp_1, dat_obc_temp_2, dat_obc_temp_3, dat_ads_acc_x, dat_ads_acc_y,
     dat_ads_acc_z, dat_ads_mag_x, dat_ads_mag_y, dat_ads_mag_z]"

definition status_field :: "sch_config \<Rightarrow> 'x storage \<Rightarrow> 'x dat_state \<Rightarrow> dat_system \<Rightarrow> u32w" where
  "status_field c st s var =
     (let x = dat_get_system_var c st var s in
      if var \<in> set status_floats then word_of_int (i32 (f32_round x))
      else if var = dat_fod_ver then f32_bits x
      else word_of_int x)"

definition dat_status_to_struct :: "sch_config \<Rightarrow> 'x storage \<Rightarrow> u32w \<Rightarrow> 'x dat_state \<Rightarrow> u32w list" where
  "dat_status_to_struct c st junk s = map (status_field c st s) (take 53 dat_all) @ [junk]"

section \<open>What a repository of status variables promises\<close>

locale status_repo =
  fixes inv :: "'s \<Rightarrow> bool"
    and get :: "'v \<Rightarrow> 's \<Rightarrow> int"
    and set :: "'v \<Rightarrow> int \<Rightarrow> 's \<Rightarrow> 's"
  assumes inv_set: "inv s \<Longrightarrow> in_i32 x \<Longrightarrow> inv (set v x s)"
    and get_set: "inv s \<Longrightarrow> in_i32 x \<Longrightarrow> get w (set v x s) = (if w = v then x else get w s)"
begin

lemma inv_fold_set: "inv s \<Longrightarrow> (\<And>v. in_i32 (f v)) \<Longrightarrow> inv (fold (\<lambda>v. set (g v) (f v)) vs s)"
  by (induction vs arbitrary: s) (simp_all add: inv_set)

lemma get_fold_const:
  "inv s \<Longrightarrow> in_i32 x \<Longrightarrow>
     get w (fold (\<lambda>v. set (g v) x) vs s) = (if w \<in> g ` List.set vs then x else get w s)"
proof (induction vs arbitrary: s)
  case (Cons v vs)
  then show ?case using inv_set [of s x "g v"] get_set [of s x w "g v"] by auto
qed simp

text \<open>Read a variable, write a test value, read it back, restore it: nothing is lost.\<close>

lemma test_and_restore:
  assumes "inv s" "in_i32 x" "in_i32 (get v s)"
  shows "get v (set v x s) = x" "get w (set v (get v s) (set v x s)) = get w s"
  using assms by (simp_all add: get_set inv_set)

end

text \<open>
  What the storage driver must guarantee when the variables live there: an invariant \<open>I\<close> of its state
  under which each of the 171 cells keeps the last value written.
\<close>

definition value_store :: "'x storage \<Rightarrow> ('x \<Rightarrow> bool) \<Rightarrow> bool" where
  "value_store st I \<longleftrightarrow>
     (\<forall>x i v. I x \<and> i < dat_system_last_var * 3 \<and> in_i32 v \<longrightarrow>
        I (snd (st_repo_set_value_idx st (int i) v x)) \<and>
        (\<forall>j < dat_system_last_var * 3.
           st_repo_get_value_idx st (int j) (snd (st_repo_set_value_idx st (int i) v x)) =
             (if j = i then v else st_repo_get_value_idx st (int j) x)))"

definition dat_inv :: "sch_config \<Rightarrow> 'x storage \<Rightarrow> 'x dat_state \<Rightarrow> bool" where
  "dat_inv c st s \<longleftrightarrow>
     (if storage_mode c = 0 then length (var_buff s) = buff_size c
      else \<exists>I. value_store st I \<and> I (ext s))"

lemma value_storeD:
  assumes "value_store st I" "I x" "i < 171" "in_i32 v"
  shows "I (snd (st_repo_set_value_idx st (int i) v x))"
    "j < 171 \<Longrightarrow> st_repo_get_value_idx st (int j) (snd (st_repo_set_value_idx st (int i) v x)) =
       (if j = i then v else st_repo_get_value_idx st (int j) x)"
  using assms by (simp_all add: value_store_def)

text \<open>The cells are a status repository indexed by their number.\<close>

definition cell_ok :: "sch_config \<Rightarrow> nat \<Rightarrow> bool" where
  "cell_ok c i \<longleftrightarrow> i < buff_size c"

lemma cell_set_get:
  assumes "dat_inv c st s" "in_i32 x" "cell_ok c i"
  shows "dat_inv c st (cell_set c st i x s)"
    "cell_ok c j \<Longrightarrow> cell_get c st j (cell_set c st i x s) = (if j = i then x else cell_get c st j s)"
proof -
  have i: "i < dat_system_last_var * 3" using assms(3) by (simp add: cell_ok_def buff_size_def split: if_splits)
  show "dat_inv c st (cell_set c st i x s)"
    using assms i value_storeD(1) [of st _ "ext s" i x]
    by (simp add: dat_inv_def cell_set_def split: if_splits) blast
  assume "cell_ok c j"
  then have j: "j < dat_system_last_var * 3" by (simp add: cell_ok_def buff_size_def split: if_splits)
  show "cell_get c st j (cell_set c st i x s) = (if j = i then x else cell_get c st j s)"
  proof (cases "storage_mode c = 0")
    case True
    then show ?thesis using assms \<open>cell_ok c j\<close>
      by (simp add: dat_inv_def cell_set_def cell_get_def cell_ok_def)
  next
    case False
    then obtain I where "value_store st I" "I (ext s)" using assms(1) by (auto simp: dat_inv_def)
    then show ?thesis using False i j assms(2) value_storeD(2) [of st I "ext s" i x j]
      by (simp add: cell_set_def cell_get_def)
  qed
qed

lemma cell_ok_idx [simp]: "cell_ok c (dat_idx v)"
  "storage_triple_wr c \<Longrightarrow> cell_ok c (dat_idx v + 57)"
  "storage_triple_wr c \<Longrightarrow> cell_ok c (dat_idx v + 114)"
  by (simp_all add: cell_ok_def buff_size_def less_le_trans [OF dat_idx_less])

lemma copies_apart [simp]:
  "dat_idx v \<noteq> dat_idx w + 57" "dat_idx v \<noteq> dat_idx w + 114" "dat_idx v + 57 \<noteq> dat_idx w"
  "dat_idx v + 57 \<noteq> dat_idx w + 114" "dat_idx v + 114 \<noteq> dat_idx w" "dat_idx v + 114 \<noteq> dat_idx w + 57"
  using dat_idx_less [of v] dat_idx_less [of w] by linarith+

interpretation dr: status_repo "dat_inv c st" "dat_get_system_var c st" "dat_set_system_var c st" for c st
proof (unfold_locales, goal_cases)
  case (1 s x v)
  then show ?case by (simp add: dat_set_system_var_def cell_set_get Let_def)
next
  case (2 s x w v)
  then show ?case
    by (simp add: dat_set_system_var_def dat_get_system_var_def Let_def cell_set_get)
qed

lemmas dat_get_set [dat_simps] = dr.get_set
lemmas dat_inv_set [dat_simps] = dr.inv_set


section \<open>Properties\<close>

text \<open>
  C12.  A status variable reads back the value last written to it, and writing one variable changes
  no other, in RAM and in an external storage that keeps its cells, with and without triple writing.
\<close>

theorem dat_get_after_set:
  assumes "dat_inv c st s" "in_i32 x"
  shows "dat_get_system_var c st w (dat_set_system_var c st v x s) =
      (if w = v then x else dat_get_system_var c st w s) \<and>
    dat_inv c st (dat_set_system_var c st v x s)"
  using assms by (simp add: dat_simps)

text \<open>A storage driver that never fails, for a repository in RAM; its functions are not called.\<close>

definition no_storage :: "unit storage" where
  "no_storage = \<lparr> st_init = (\<lambda>x. (0, x)), st_table_repo_init = (\<lambda>_ x. (0, x)),
     st_table_payload_init = (\<lambda>_ x. (0, x)), st_table_flight_plan_init = (\<lambda>_ x. (0, x)),
     st_repo_get_value_idx = (\<lambda>_ _. -1), st_repo_set_value_idx = (\<lambda>_ _ x. (0, x)),
     st_set_payload_data = (\<lambda>_ _ _ x. (0, x)), st_get_payload_data = (\<lambda>_ _ _. (0, [])),
     st_delete_memory_sections = (\<lambda>x. (0, x)), st_flight_plan_reset = (\<lambda>x. (0, x)),
     st_close = (\<lambda>x. (0, x)) \<rparr>"

definition dat_zero :: "unit dat_state" where
  "dat_zero = \<lparr> var_buff = replicate 171 0, ext = (), fplan = fp_initial, sec = 0 \<rparr>"

lemma dat_zero_inv: "dat_inv config_h no_storage dat_zero"
  by (simp add: dat_inv_def config_h_def dat_zero_def buff_size_def)

text \<open>A storage driver that keeps its values in a function of the cell number.\<close>

definition map_storage :: "(int \<Rightarrow> int) storage" where
  "map_storage = \<lparr> st_init = (\<lambda>x. (0, x)), st_table_repo_init = (\<lambda>_ x. (0, x)),
     st_table_payload_init = (\<lambda>_ x. (0, x)), st_table_flight_plan_init = (\<lambda>_ x. (0, x)),
     st_repo_get_value_idx = (\<lambda>i x. x i), st_repo_set_value_idx = (\<lambda>i v x. (0, x(i := v))),
     st_set_payload_data = (\<lambda>_ _ _ x. (0, x)), st_get_payload_data = (\<lambda>_ _ _. (0, [])),
     st_delete_memory_sections = (\<lambda>x. (0, x)), st_flight_plan_reset = (\<lambda>x. (0, x)),
     st_close = (\<lambda>x. (0, x)) \<rparr>"

lemma map_storage_store: "value_store map_storage (\<lambda>_. True)"
  by (simp add: value_store_def map_storage_def)

theorem dat_get_after_set_witness:
  "dat_get_system_var config_h no_storage dat_obc_opmode
     (dat_set_system_var config_h no_storage dat_obc_sw_wdt 9 dat_zero) = 0 \<and>
   (let c = config_h\<lparr> storage_mode := 1 \<rparr>; s = \<lparr> var_buff = [], ext = \<lambda>_. 0, fplan = fp_initial, sec = 0 \<rparr> in
    value_store map_storage (\<lambda>_. True) \<and>
    dat_get_system_var c map_storage dat_obc_sw_wdt (dat_set_system_var c map_storage dat_obc_sw_wdt 9 s) = 9)"
proof -
  let ?c = "config_h\<lparr> storage_mode := 1 \<rparr>"
  let ?s = "\<lparr> var_buff = [], ext = \<lambda>_ :: int. 0 :: int, fplan = fp_initial, sec = 0 \<rparr>"
  have "dat_inv ?c map_storage ?s" using map_storage_store by (auto simp: dat_inv_def)
  moreover have "dat_get_system_var config_h no_storage dat_obc_opmode dat_zero = 0"
    by (simp add: dat_get_system_var_def cell_get_def dat_zero_def config_h_def)
  ultimately show ?thesis
    using dat_get_after_set [OF dat_zero_inv, of 9 dat_obc_opmode dat_obc_sw_wdt]
      dat_get_after_set [of ?c map_storage ?s 9 dat_obc_sw_wdt dat_obc_sw_wdt] map_storage_store
    by (simp add: Let_def in_i32_def)
qed

text \<open>The three copies of a variable agree.\<close>

definition copies_agree :: "sch_config \<Rightarrow> 'x storage \<Rightarrow> dat_system \<Rightarrow> 'x dat_state \<Rightarrow> bool" where
  "copies_agree c st v s \<longleftrightarrow>
     cell_get c st (dat_idx v + 57) s = cell_get c st (dat_idx v) s \<and>
     cell_get c st (dat_idx v + 114) s = cell_get c st (dat_idx v) s"

lemma copies_agree_set:
  "dat_inv c st s \<Longrightarrow> in_i32 x \<Longrightarrow> storage_triple_wr c \<Longrightarrow>
     copies_agree c st w s \<or> w = v \<Longrightarrow> copies_agree c st w (dat_set_system_var c st v x s)"
  by (auto simp: copies_agree_def dat_set_system_var_def Let_def cell_set_get)

lemma vote_masks:
  assumes "dat_inv c st s" "storage_triple_wr c" "copies_agree c st v s" "cell_ok c i" "in_i32 y"
  shows "dat_get_system_var c st v (cell_set c st i y s) = dat_get_system_var c st v s"
  using assms by (auto simp: dat_get_system_var_def Let_def copies_agree_def cell_set_get)

text \<open>
  C13.  With triple writing, after a variable has been written, the corruption of any single cell of the
  memory, whichever it is and whatever it becomes, does not change what is read, neither for that
  variable nor for any other whose copies agree.
\<close>

theorem triple_writing_masks_upset:
  assumes "dat_inv c st s" "storage_triple_wr c" "in_i32 x" "in_i32 y" "cell_ok c i"
  shows "dat_get_system_var c st v (cell_set c st i y (dat_set_system_var c st v x s)) = x \<and>
    (copies_agree c st w s \<longrightarrow>
      dat_get_system_var c st w (cell_set c st i y (dat_set_system_var c st v x s)) =
        (if w = v then x else dat_get_system_var c st w s))"
proof -
  let ?s = "dat_set_system_var c st v x s"
  have "dat_inv c st ?s" using assms by (simp add: dat_simps)
  then show ?thesis
    using vote_masks [of c st ?s v i y] vote_masks [of c st ?s w i y]
      copies_agree_set [of c st s x v v] copies_agree_set [of c st s x w v] assms
    by (simp add: dat_simps)
qed

theorem triple_writing_masks_upset_witness:
  "dat_get_system_var config_h no_storage dat_obc_opmode
     (cell_set config_h no_storage 57 (-1) (dat_set_system_var config_h no_storage dat_obc_opmode 2 dat_zero)) = 2 \<and>
   cell_get config_h no_storage 57
     (cell_set config_h no_storage 57 (-1) (dat_set_system_var config_h no_storage dat_obc_opmode 2 dat_zero)) = -1"
  using triple_writing_masks_upset [OF dat_zero_inv, of 2 "-1" 57 dat_obc_opmode]
  by (simp add: config_h_def in_i32_def cell_ok_def buff_size_def cell_set_def cell_get_def
      dat_set_system_var_def dat_zero_def Let_def)


section \<open>Start-up in RAM\<close>

lemma in_i32_consts [simp]: "in_i32 0" "in_i32 1" "in_i32 (-1)" "in_i32 2147483647" "in_i32 (-2147483648)"
  by (simp_all add: in_i32_def)

lemma dat_inv_fplan [simp]: "dat_inv c st (s\<lparr> fplan := f \<rparr>) = dat_inv c st s"
  "dat_get_system_var c st v (s\<lparr> fplan := f \<rparr>) = dat_get_system_var c st v s"
  by (simp_all add: dat_inv_def dat_get_system_var_def cell_get_def Let_def)

lemma fplan_set [simp]: "fplan (dat_set_system_var c st v x s) = fplan s"
  by (simp add: dat_set_system_var_def cell_set_def Let_def)

text \<open>
  Start-up with the repository in RAM.  The flight plan is empty and its mutex free, the hours
  without reset and the software watchdog are 0, and every other variable is \<^verbatim>\<open>INT_MAX\<close>, except the
  reset counter: the increment of \<^verbatim>\<open>INT_MAX\<close> overflows, and with two's complement arithmetic it
  starts at \<^verbatim>\<open>INT_MIN\<close>.
\<close>

lemma dat_repo_init_ram_vars:
  assumes "storage_mode c = 0" "length (var_buff s) = buff_size c"
  shows "\<exists>s'. dat_repo_init c st s = Inr s' \<and> dat_inv c st s' \<and>
    data_base (fplan s') = replicate SCH_FP_MAX_ENTRIES fp_empty \<and> \<not> fp_taken (fplan s') \<and>
    dat_get_system_var c st v s' =
      (if v = dat_obc_hrs_wo_reset \<or> v = dat_obc_sw_wdt then 0
       else if v = dat_obc_reset_counter then INT_MIN else INT_MAX)"
proof -
  have inv: "dat_inv c st s" using assms by (simp add: dat_inv_def)
  let ?s0 = "fold (\<lambda>v s. dat_set_system_var c st v INT_MAX s) dat_all s"
  let ?s1 = "?s0\<lparr> fplan := \<lparr> data_base = replicate SCH_FP_MAX_ENTRIES fp_empty, fp_taken = False \<rparr> \<rparr>"
  have inv0: "dat_inv c st ?s1"
    using dr.inv_fold_set [OF inv, of "\<lambda>_. INT_MAX" "\<lambda>v. v"] by simp
  have get: "dat_get_system_var c st w ?s1 = INT_MAX" for w
    using dr.get_fold_const [OF inv, of INT_MAX w "\<lambda>v. v" dat_all] by simp
  have "i32 (INT_MAX + 1) = INT_MIN" by (simp add: i32_def)
  then show ?thesis using inv0 get assms(1)
    by (simp add: dat_repo_init_def dat_storage_init_def Let_def dat_simps)
qed

lemma dat_repo_init_ram_witness:
  "\<exists>s. dat_repo_init config_h no_storage dat_zero = Inr s \<and>
     dat_get_system_var config_h no_storage dat_obc_reset_counter s = INT_MIN \<and>
     dat_get_system_var config_h no_storage dat_obc_hrs_alive s = INT_MAX"
proof -
  have c: "storage_mode config_h = 0" "length (var_buff dat_zero) = buff_size config_h"
    by (simp_all add: config_h_def dat_zero_def buff_size_def)
  show ?thesis
    using dat_repo_init_ram_vars [OF c, of no_storage dat_obc_reset_counter]
      dat_repo_init_ram_vars [OF c, of no_storage dat_obc_hrs_alive] by auto
qed

section \<open>Payload samples\<close>

text \<open>
  What the driver must guarantee for payload samples: a successful write makes its sample readable
  under its index and touches neither another sample nor a status variable; a failed one touches no
  status variable; and a write to a status variable touches no sample.
\<close>

definition payload_store :: "'x storage \<Rightarrow> ('x \<Rightarrow> bool) \<Rightarrow> bool" where
  "payload_store st I \<longleftrightarrow>
     (\<forall>x i d p. I x \<longrightarrow>
        I (snd (st_set_payload_data st i d p x)) \<and>
        (\<forall>j. st_repo_get_value_idx st j (snd (st_set_payload_data st i d p x)) = st_repo_get_value_idx st j x) \<and>
        (fst (st_set_payload_data st i d p x) = 0 \<longrightarrow>
          (\<forall>j q. st_get_payload_data st j q (snd (st_set_payload_data st i d p x)) =
             (if j = i \<and> q = p then (0, d) else st_get_payload_data st j q x)))) \<and>
     (\<forall>x i v j q. I x \<longrightarrow>
        st_get_payload_data st j q (snd (st_repo_set_value_idx st i v x)) = st_get_payload_data st j q x)"

definition payload_inv :: "sch_config \<Rightarrow> 'x storage \<Rightarrow> 'x dat_state \<Rightarrow> bool" where
  "payload_inv c st s \<longleftrightarrow> dat_inv c st s \<and>
     (\<exists>I. payload_store st I \<and> (storage_mode c \<noteq> 0 \<longrightarrow> value_store st I) \<and> I (ext s))"

lemma payload_storeD:
  assumes "payload_store st I" "I x"
  shows "I (snd (st_set_payload_data st i d p x))"
    "st_repo_get_value_idx st j (snd (st_set_payload_data st i d p x)) = st_repo_get_value_idx st j x"
    "fst (st_set_payload_data st i d p x) = 0 \<Longrightarrow>
       st_get_payload_data st j q (snd (st_set_payload_data st i d p x)) =
         (if j = i \<and> q = p then (0, d) else st_get_payload_data st j q x)"
    "st_get_payload_data st j q (snd (st_repo_set_value_idx st k v x)) = st_get_payload_data st j q x"
  using assms unfolding payload_store_def by blast+

text \<open>The samples are read from the state behind the driver, which the counters do not disturb.\<close>

lemma payload_set_var:
  assumes "payload_inv c st s" "in_i32 x"
  shows "payload_inv c st (dat_set_system_var c st v x s)"
    "st_get_payload_data st j q (ext (dat_set_system_var c st v x s)) = st_get_payload_data st j q (ext s)"
proof -
  obtain I where I: "payload_store st I" "storage_mode c \<noteq> 0 \<Longrightarrow> value_store st I" "I (ext s)"
    using assms(1) by (auto simp: payload_inv_def)
  have cell: "I (ext (cell_set c st i x t)) \<and>
      st_get_payload_data st j q (ext (cell_set c st i x t)) = st_get_payload_data st j q (ext t)"
    if "I (ext t)" "i < 171" for i t
    using that I assms(2) payload_storeD(4) [OF I(1) that(1)] value_storeD(1) [of st I "ext t" i x]
    by (simp add: cell_set_def)
  have i: "dat_idx v < 171" "dat_idx v + 57 < 171" "dat_idx v + 114 < 171"
    by (simp_all add: less_le_trans [OF dat_idx_less])
  have "I (ext (dat_set_system_var c st v x s)) \<and>
      st_get_payload_data st j q (ext (dat_set_system_var c st v x s)) = st_get_payload_data st j q (ext s)"
    using cell [OF I(3) i(1)] cell [OF _ i(2)] cell [OF _ i(3)]
    by (simp add: dat_set_system_var_def Let_def)
  then show "payload_inv c st (dat_set_system_var c st v x s)"
    "st_get_payload_data st j q (ext (dat_set_system_var c st v x s)) = st_get_payload_data st j q (ext s)"
    using I assms dr.inv_set [of c st s x v] by (auto simp: payload_inv_def)
qed

lemma payload_write:
  assumes "payload_inv c st s" and s': "s' = s\<lparr> ext := snd (st_set_payload_data st i d p (ext s)) \<rparr>"
  shows "payload_inv c st s'" "dat_get_system_var c st v s' = dat_get_system_var c st v s"
    "fst (st_set_payload_data st i d p (ext s)) = 0 \<Longrightarrow>
       st_get_payload_data st j q (ext s') = (if j = i \<and> q = p then (0, d) else st_get_payload_data st j q (ext s))"
proof -
  obtain I where I: "payload_store st I" "storage_mode c \<noteq> 0 \<Longrightarrow> value_store st I" "I (ext s)"
    using assms(1) by (auto simp: payload_inv_def)
  note D = payload_storeD [OF I(1,3)]
  show "payload_inv c st s'"
    using assms(1) I D(1) unfolding s' payload_inv_def dat_inv_def by (auto split: if_splits)
  show "dat_get_system_var c st v s' = dat_get_system_var c st v s"
    by (simp add: s' dat_get_system_var_def cell_get_def D(2) Let_def)
  show "st_get_payload_data st j q (ext s') = (if j = i \<and> q = p then (0, d) else st_get_payload_data st j q (ext s))"
    if "fst (st_set_payload_data st i d p (ext s)) = 0"
    using D(3) [OF that] by (simp add: s')
qed


lemma recent_sample_eq:
  assumes "has_payload_storage c" "n = dat_get_system_var c st (dm_sys_index (data_map q)) s"
  shows "dat_get_recent_payload_sample c st q delay s =
    (if i32 (n - 1 - delay) \<ge> 0 then st_get_payload_data st (i32 (n - 1 - delay)) q (ext s) else (-1, []))"
  using assms by (simp add: dat_get_recent_payload_sample_def Let_def)

text \<open>A sample the driver stored: the result, the counters and the samples behind the driver.\<close>

lemma sample_added:
  assumes "payload_inv c st s" "has_payload_storage c" "fst (st_set_payload_data st index d p (ext s)) = 0"
    and "index = dat_get_system_var c st (dm_sys_index (data_map p)) s" "0 \<le> index" "index < INT_MAX"
  shows "\<exists>s'. dat_add_payload_sample c st d p s = (index + 1, s') \<and> payload_inv c st s' \<and>
    (\<forall>q. dat_get_system_var c st (dm_sys_index (data_map q)) s' =
       (if q = p then index + 1 else dat_get_system_var c st (dm_sys_index (data_map q)) s)) \<and>
    (\<forall>j q. st_get_payload_data st j q (ext s') =
       (if j = index \<and> q = p then (0, d) else st_get_payload_data st j q (ext s)))"
proof -
  let ?w = "s\<lparr> ext := snd (st_set_payload_data st index d p (ext s)) \<rparr>"
  let ?s' = "dat_set_system_var c st (dm_sys_index (data_map p)) (index + 1) ?w"
  note w = payload_write [OF assms(1) refl, where i = index and d = d and p = p]
  note set = payload_set_var [OF w(1)]
  have i: "i32 (index + 1) = index + 1" "in_i32 (index + 1)"
    using assms(5,6) by (simp_all add: in_i32_def i32_id)
  have "dat_add_payload_sample c st d p s = (index + 1, ?s')"
    using assms(2-4) i by (simp add: dat_add_payload_sample_def Let_def split_def)
  moreover have "dat_inv c st ?w" using w(1) by (simp add: payload_inv_def)
  ultimately show ?thesis
    using dr.get_set [of c st ?w] i(2) w(2) set [OF i(2)] w(3) [OF assms(3)] by simp
qed

text \<open>
  Payload samples.  When the driver stores a sample, the call returns the new number of samples,
  the sample is the most recent one, every older sample of that payload is one step further back, and
  the other payloads are untouched; when the driver fails, the call returns -1 and no counter moves.
\<close>

lemma dat_add_payload_sample_spec:
  assumes "payload_inv c st s" "has_payload_storage c"
    and "index = dat_get_system_var c st (dm_sys_index (data_map p)) s" "0 \<le> index" "index < INT_MAX"
  shows "let (r, s') = dat_add_payload_sample c st d p s in
    if fst (st_set_payload_data st index d p (ext s)) = 0 then
      r = index + 1 \<and> payload_inv c st s' \<and> dat_get_recent_payload_sample c st p 0 s' = (0, d) \<and>
      (\<forall>delay. 0 \<le> delay \<and> delay < index \<longrightarrow>
        dat_get_recent_payload_sample c st p (delay + 1) s' = dat_get_recent_payload_sample c st p delay s) \<and>
      (\<forall>q delay. q \<noteq> p \<longrightarrow>
        dat_get_recent_payload_sample c st q delay s' = dat_get_recent_payload_sample c st q delay s)
    else r = -1 \<and> payload_inv c st s' \<and>
      (\<forall>v. dat_get_system_var c st v s' = dat_get_system_var c st v s)"
proof -
  let ?w = "s\<lparr> ext := snd (st_set_payload_data st index d p (ext s)) \<rparr>"
  note w = payload_write [OF assms(1) refl, where i = index and d = d and p = p]
  have i: "i32 index = index"
    using assms(4,5) by (simp_all add: in_i32_def i32_id)
  show ?thesis
  proof (cases "fst (st_set_payload_data st index d p (ext s)) = 0")
    case False
    then show ?thesis using w(1,2) assms(2,3)
      by (simp add: dat_add_payload_sample_def Let_def split_def)
  next
    case True
    then obtain s' where r: "dat_add_payload_sample c st d p s = (index + 1, s')" "payload_inv c st s'"
      and get: "\<forall>q. dat_get_system_var c st (dm_sys_index (data_map q)) s' =
        (if q = p then index + 1 else dat_get_system_var c st (dm_sys_index (data_map q)) s)"
      and data: "\<forall>j q. st_get_payload_data st j q (ext s') =
        (if j = index \<and> q = p then (0, d) else st_get_payload_data st j q (ext s))"
      using sample_added [OF assms(1,2) _ assms(3-5), of d] by blast
    note recent = recent_sample_eq [OF assms(2) get [rule_format, symmetric]] and old = recent_sample_eq [OF assms(2) refl, where s = s]
    have "dat_get_recent_payload_sample c st p 0 s' = (0, d)"
      using i assms(4) by (simp add: recent data)
    moreover have "dat_get_recent_payload_sample c st p (delay + 1) s' = dat_get_recent_payload_sample c st p delay s"
      if "0 \<le> delay \<and> delay < index" for delay
    proof -
      have "i32 (index - 1 - delay) = index - 1 - delay"
        using that assms(5) by (intro i32_id) (simp add: in_i32_def)
      moreover have "index - (delay + 1) = index - 1 - delay" by simp
      ultimately have "i32 (index - (delay + 1)) = index - 1 - delay" by (simp only:)
      then show ?thesis using that \<open>i32 (index - 1 - delay) = index - 1 - delay\<close>
        by (simp add: recent old data flip: assms(3))
    qed
    moreover have "dat_get_recent_payload_sample c st q delay s' = dat_get_recent_payload_sample c st q delay s"
      if "q \<noteq> p" for q delay
      using that by (simp add: recent old data)
    ultimately show ?thesis using True r by simp
  qed
qed

text \<open>A driver that keeps the samples in a function of payload and index.\<close>

definition sample_storage :: "(int \<Rightarrow> payload_id \<Rightarrow> u8 list) storage" where
  "sample_storage = \<lparr> st_init = (\<lambda>x. (0, x)), st_table_repo_init = (\<lambda>_ x. (0, x)),
     st_table_payload_init = (\<lambda>_ x. (0, x)), st_table_flight_plan_init = (\<lambda>_ x. (0, x)),
     st_repo_get_value_idx = (\<lambda>_ _. -1), st_repo_set_value_idx = (\<lambda>_ _ x. (0, x)),
     st_set_payload_data = (\<lambda>i d p x. (0, x(i := (x i)(p := d)))),
     st_get_payload_data = (\<lambda>i p x. (0, x i p)),
     st_delete_memory_sections = (\<lambda>x. (0, x)), st_flight_plan_reset = (\<lambda>x. (0, x)),
     st_close = (\<lambda>x. (0, x)) \<rparr>"

lemma dat_add_payload_sample_spec_witness:
  "let s = \<lparr> var_buff = replicate 171 0, ext = \<lambda>_ _. [], fplan = fp_initial, sec = 0 \<rparr>;
       (r, s') = dat_add_payload_sample config_h sample_storage [1, 2] dpl_sensors s in
   payload_store sample_storage (\<lambda>_. True) \<and> r = 1 \<and>
   dat_get_recent_payload_sample config_h sample_storage dpl_sensors 0 s' = (0, [1, 2])"
proof -
  let ?s = "\<lparr> var_buff = replicate 171 0, ext = (\<lambda>_ _. []) :: int \<Rightarrow> payload_id \<Rightarrow> u8 list,
              fplan = fp_initial, sec = 0 \<rparr>"
  have st: "payload_store sample_storage (\<lambda>_. True)"
    by (simp add: payload_store_def sample_storage_def)
  then have inv: "payload_inv config_h sample_storage ?s"
    by (auto simp: payload_inv_def dat_inv_def config_h_def buff_size_def)
  have "dat_get_system_var config_h sample_storage (dm_sys_index (data_map dpl_sensors)) ?s = 0"
    by (simp add: dat_get_system_var_def cell_get_def config_h_def)
  then show ?thesis
    using dat_add_payload_sample_spec [OF inv, of 0 dpl_sensors "[1, 2]"] st
    by (auto simp: has_payload_storage_def config_h_def sample_storage_def Let_def split: prod.splits)
qed


section \<open>The status structure\<close>

lemma bit_len_eq: "2 ^ k \<le> n \<Longrightarrow> n < 2 ^ Suc k \<Longrightarrow> bit_len n = Suc k"
proof (induction k arbitrary: n)
  case 0
  then have "n = 1" by simp
  then show ?case by (simp add: bit_len.simps [of "Suc 0"] bit_len.simps [of 0])
next
  case (Suc k)
  then have "bit_len (n div 2) = Suc k" by (intro Suc.IH) auto
  moreover have "0 < n" using Suc.prems(1) by (cases n) auto
  ultimately show ?case by (simp add: bit_len.simps [of n])
qed

lemma f32_round_31:
  assumes "2 ^ 30 \<le> x" "x < 2 ^ 31"
  obtains q where "f32_round x = 128 * q" "128 * q \<le> 2 ^ 31" "0 \<le> q" "128 dvd x \<Longrightarrow> 128 * q = x"
proof -
  have b: "bit_len (nat x) = 31" using assms by (intro bit_len_eq [of 30, simplified]) auto
  let ?q = "nat x div 128" and ?r = "nat x mod 128"
  let ?q' = "if 128 < 2 * ?r \<or> (128 = 2 * ?r \<and> odd ?q) then ?q + 1 else ?q"
  have "f32_round x = int (?q' * 128)"
    using assms by (simp add: f32_round_def b Let_def sgn_if)
  moreover have "?q' \<le> 2 ^ 24"
  proof -
    have "?q < 2 ^ 24" using assms by (simp add: less_mult_imp_div_less nat_less_iff)
    then show ?thesis by simp
  qed
  moreover have "128 * int ?q' = x" if "128 dvd x"
  proof -
    obtain m where m: "x = 128 * m" using \<open>128 dvd x\<close> by (auto elim: dvdE)
    then have "nat x = 128 * nat m" using assms by (simp add: nat_mult_distrib)
    moreover have "0 \<le> m" using m assms by simp
    ultimately show ?thesis by (simp add: m)
  qed
  ultimately show ?thesis by (intro that [of "int ?q'"]) auto
qed

lemma word_of_i32: "(word_of_int (i32 x) :: u32w) = word_of_int x"
proof -
  have "(word_of_int ((x + 2147483648) mod 4294967296) :: u32w) = word_of_int (x + 2147483648)"
    unfolding word_of_int_eq_iff take_bit_eq_mod by simp
  then show ?thesis by (simp add: i32_def)
qed

text \<open>
  The status structure sent as telemetry.  An integer variable is copied as it is.  A float
  variable whose stored pattern is that of a number of at least 2.0 comes out unchanged exactly when the
  last seven bits of its mantissa are zero: the copy goes through a conversion to float and back.
\<close>

lemma dat_status_to_struct_fields:
  assumes "v \<in> set (take 53 dat_all)" "x = dat_get_system_var c st v s"
  shows "dat_status_to_struct c st junk s ! dat_idx v = status_field c st s v \<and>
    (v \<notin> set status_floats \<and> v \<noteq> dat_fod_ver \<longrightarrow> status_field c st s v = word_of_int x) \<and>
    (v \<in> set status_floats \<and> 2 ^ 30 \<le> x \<and> x < 2 ^ 31 \<longrightarrow>
      (status_field c st s v = word_of_int x \<longleftrightarrow> 128 dvd x))"
proof -
  have idx: "dat_idx v < 53" using assms(1) by (auto simp: in_set_conv_nth)
  have "map (status_field c st s) (take 53 dat_all) ! dat_idx v = status_field c st s v"
    using idx by (simp add: nth_map)
  then have field: "dat_status_to_struct c st junk s ! dat_idx v = status_field c st s v"
    using idx by (simp add: dat_status_to_struct_def nth_append)
  have "(word_of_int (i32 (f32_round x)) :: u32w) = word_of_int x \<longleftrightarrow> 128 dvd x"
    if x: "2 ^ 30 \<le> x" "x < 2 ^ 31"
  proof -
    obtain q where q: "f32_round x = 128 * q" "128 * q \<le> 2 ^ 31" "0 \<le> q" "128 dvd x \<Longrightarrow> 128 * q = x"
      using f32_round_31 [OF x] by blast
    have "(word_of_int (128 * q) :: u32w) = word_of_int x \<longleftrightarrow> 128 * q = x"
      unfolding word_of_int_eq_iff take_bit_eq_mod using q(2,3) x by simp
    then show ?thesis using q by (auto simp: word_of_i32)
  qed
  then show ?thesis using field assms(2) by (auto simp: status_field_def Let_def)
qed

lemma dat_status_to_struct_fields_witness:
  "let s = dat_set_system_var config_h no_storage dat_obc_temp_1 0x41AAF5C3 dat_zero in
   dat_obc_temp_1 \<in> set (take 53 dat_all) \<and>
   dat_status_to_struct config_h no_storage 0 s ! 6 \<noteq> 0x41AAF5C3 \<and>
   dat_status_to_struct config_h no_storage 0 s ! 0 = 0"
proof -
  let ?s = "dat_set_system_var config_h no_storage dat_obc_temp_1 0x41AAF5C3 dat_zero"
  have in53: "dat_obc_temp_1 \<in> set (take 53 dat_all)" "dat_obc_opmode \<in> set (take 53 dat_all)"
    by (simp_all add: dat_all_def)
  have get: "dat_get_system_var config_h no_storage dat_obc_temp_1 ?s = 0x41AAF5C3"
    "dat_get_system_var config_h no_storage dat_obc_opmode ?s = 0"
    using dat_zero_inv by (simp_all add: dat_simps in_i32_def)
      (simp add: dat_get_system_var_def cell_get_def dat_zero_def config_h_def)
  show ?thesis
    using dat_status_to_struct_fields [OF in53(1) get(1) [symmetric], of 0]
      dat_status_to_struct_fields [OF in53(2) get(2) [symmetric], of 0] in53
    by (simp add: status_floats_def Let_def)
qed

end
