(* ===== verification/TaskCommon.thy ===== *)
theory TaskCommon
  imports CmdLine RepoData
begin

text \<open>
  What the tasks share: building a command by name and handing it to \<^verbatim>\<open>cmd_send\<close>.  A task's round
  returns the commands it sent, in order; sending itself is the business of the command pipeline.
\<close>

section \<open>Building and sending\<close>

text \<open>
  \<^verbatim>\<open>cmd_get_str\<close>, then the parameters, then \<^verbatim>\<open>cmd_send\<close>, which sends nothing when there is no
  command of that name.
\<close>

datatype params = NoParams | StrParams string | VarParams "c_arg list"

fun add_params :: "params \<Rightarrow> cmd_t option \<Rightarrow> cmd_t option c_result" where
  "add_params NoParams k = Inr k"
| "add_params (StrParams p) k = Inr (cmd_add_params_str k p)"
| "add_params (VarParams as) k = cmd_add_params_var k as"

definition send_named :: "sch_config \<Rightarrow> cmd_repo \<Rightarrow> string \<times> params \<Rightarrow> cmd_t list c_result" where
  "send_named c r req =
     c_bind (cmd_get_str c (fst req) r) (\<lambda>k.
     c_bind (add_params (snd req) k) (\<lambda>k. Inr (case k of None \<Rightarrow> [] | Some k \<Rightarrow> [k])))"

definition send_each :: "sch_config \<Rightarrow> cmd_repo \<Rightarrow> (string \<times> params) list \<Rightarrow> cmd_t list c_result" where
  "send_each c r reqs = c_bind (c_mapM (send_named c r) reqs) (\<lambda>kss. Inr (concat kss))"

text \<open>One \<^verbatim>\<open>if\<close> of a task's round: a condition and the request behind it.\<close>

definition requests :: "(bool \<times> string \<times> params) list \<Rightarrow> (string \<times> params) list" where
  "requests rs = map snd (filter fst rs)"

text \<open>Parse one command line and send the command, if there is one.\<close>

definition parse_and_send :: "sch_config \<Rightarrow> cmd_repo \<Rightarrow> string \<Rightarrow> cmd_t list c_result" where
  "parse_and_send c r line =
     c_bind (cmd_parse_from_str c line r) (\<lambda>k. Inr (case k of None \<Rightarrow> [] | Some k \<Rightarrow> [k]))"

section \<open>What is sent\<close>

lemma requests_simps [simp]:
  "requests [] = []"
  "requests ((b, q) # rs) = (if b then q # requests rs else requests rs)"
  "requests (rs @ rs') = requests rs @ requests rs'"
  by (simp_all add: requests_def)

text \<open>A request whose parameters fit: the text is short enough for the buffers of the repository.\<close>

definition request_fits :: "sch_config \<Rightarrow> string \<times> params \<Rightarrow> bool" where
  "request_fits c req \<longleftrightarrow> fst req \<noteq> ''null'' \<and>
     (case snd req of
        VarParams as \<Rightarrow> (\<forall>e \<in> set (cmd_table c). l_name e = fst req \<longrightarrow>
          length (vsprintf (directives (l_fmt e)) as) < SCH_CMD_MAX_STR_PARAMS)
      | _ \<Rightarrow> True)"

fun param_text :: "params \<Rightarrow> string \<Rightarrow> string" where
  "param_text NoParams fmt = []"
| "param_text (StrParams p) fmt = p"
| "param_text (VarParams as) fmt = vsprintf (directives fmt) as"

definition param_block :: "string \<Rightarrow> char list option" where
  "param_block p = (if p = [] then None else Some (strncpy p (min (length p) SCH_CMD_MAX_STR_PARAMS + 1)))"

text \<open>
  The command a request builds, up to its index: none when the name is not registered, else the
  command of that name with the text of the parameters.
\<close>

definition cmds_for :: "sch_config \<Rightarrow> string \<times> params \<Rightarrow> cmd_t list" where
  "cmds_for c req = map (\<lambda>e. (cmd_of 0 e)\<lparr> c_params := param_block (param_text (snd req) (l_fmt e)) \<rparr>)
     (filter (\<lambda>e. l_name e = fst req) (cmd_table c))"

lemma filter_distinct_name:
  "distinct (map l_name xs) \<Longrightarrow> e \<in> set xs \<Longrightarrow> filter (\<lambda>s. l_name s = l_name e) xs = [e]"
  by (induction xs) (auto simp: rev_image_eqI filter_empty_conv)

lemma cmds_for_entry:
  assumes "cmd_entry name f fmt np \<in> set (cmd_table c)"
  shows "cmds_for c (name, p) =
    [\<lparr> c_id = 0, c_nparams = np, c_fmt = fmt, c_params = param_block (param_text p fmt), c_function = f \<rparr>]"
proof -
  have "filter (\<lambda>e. l_name e = name) (cmd_table c) = [cmd_entry name f fmt np]"
    using filter_distinct_name [OF distinct_cmd_table assms] by (simp add: cmd_entry_def)
  then show ?thesis by (simp add: cmds_for_def cmd_of_def cmd_entry_def)
qed

lemma add_params_cmd_of:
  assumes "length (param_text p (l_fmt e)) < SCH_CMD_MAX_STR_PARAMS \<or> (\<nexists>as. p = VarParams as)"
  shows "add_params p (Some (cmd_of i e)) = Inr (Some ((cmd_of i e)\<lparr> c_params := param_block (param_text p (l_fmt e)) \<rparr>))"
proof -
  have none: "(cmd_of i e)\<lparr> c_params := None \<rparr> = cmd_of i e" by (simp add: cmd_of_def)
  have str: "cmd_add_params_str (Some (cmd_of i e)) q = Some ((cmd_of i e)\<lparr> c_params := param_block q \<rparr>)" for q
    by (cases "q = []") (simp_all add: none param_block_def cmd_add_params_str_def Let_def min_def)
  show ?thesis
  proof (cases p)
    case NoParams
    then show ?thesis by (simp add: none param_block_def)
  next
    case (StrParams q)
    then show ?thesis by (simp add: str)
  next
    case (VarParams as)
    moreover have "c_fmt (cmd_of i e) = l_fmt e" by (simp add: cmd_of_def)
    ultimately show ?thesis using assms by (simp add: cmd_add_params_var_def str)
  qed
qed

lemma send_named_built:
  assumes "table_built c r" "request_fits c (name, p)"
  shows "\<exists>ks. send_named c r (name, p) = Inr ks \<and> map forget_id ks = cmds_for c (name, p)"
proof (cases "name \<in> l_name ` set (cmd_table c)")
  case True
  then obtain e where e: "e \<in> set (cmd_table c)" "l_name e = name" by auto
  obtain i where "cmd_get_str c name r = Inr (Some (cmd_of i e))"
    using cmd_get_str_registered [OF assms(1) e(1)] e(2) by auto
  moreover have "length (param_text p (l_fmt e)) < SCH_CMD_MAX_STR_PARAMS \<or> (\<nexists>as. p = VarParams as)"
    using assms(2) e by (cases p) (auto simp: request_fits_def)
  ultimately have "send_named c r (name, p) = Inr [(cmd_of i e)\<lparr> c_params := param_block (param_text p (l_fmt e)) \<rparr>]"
    by (simp add: send_named_def add_params_cmd_of)
  then show ?thesis
    using filter_distinct_name [OF distinct_cmd_table e(1)] e(2) by (simp add: cmds_for_def forget_id_def cmd_of_def)
next
  case False
  then have "cmd_get_str c name r = Inr None"
    using cmd_get_str_unregistered [OF assms(1)] assms(2) by (simp add: request_fits_def)
  moreover have "filter (\<lambda>e. l_name e = name) (cmd_table c) = []" using False by (auto simp: filter_empty_conv)
  ultimately show ?thesis
    by (cases p) (simp_all add: cmds_for_def send_named_def cmd_add_params_str_def cmd_add_params_var_def)
qed

text \<open>Every round of requests that fit is carried out, and the commands sent are known.\<close>

lemma send_each_built:
  assumes "table_built c r" "\<forall>q \<in> set reqs. request_fits c q"
  shows "\<exists>ks. send_each c r reqs = Inr ks \<and> map forget_id ks = concat (map (cmds_for c) reqs)"
  using assms(2)
proof (induction reqs)
  case (Cons q reqs)
  obtain ks where ks: "send_named c r q = Inr ks" "map forget_id ks = cmds_for c q"
    using send_named_built [OF assms(1), of "fst q" "snd q"] Cons.prems by auto
  from Cons obtain ls where "send_each c r reqs = Inr ls" "map forget_id ls = concat (map (cmds_for c) reqs)"
    by auto
  then show ?case using ks by (cases "c_mapM (send_named c r) reqs") (auto simp: send_each_def)
qed (simp add: send_each_def)

lemma parse_and_send_built:
  assumes "length (cmd_list r) = cmd_max_entries c"
  shows "\<exists>ks. parse_and_send c r l = Inr ks"
proof (cases "list_all isspace l")
  case True
  then show ?thesis by (simp add: parse_and_send_def cmd_parse_blank)
next
  case False
  then obtain pre w ws a where l: "l = pre @ w @ ws @ a" "list_all isspace pre" "word w"
    "list_all isspace ws" "no_lead_space a" "ws = [] \<Longrightarrow> a = []"
    using line_shape by blast
  obtain k where "cmd_get_str c w r = Inr k" using cmd_get_str_contents [OF assms, of w] by blast
  then show ?thesis using l by (auto simp: parse_and_send_def cmd_parse_line)
qed

lemma c_mapM_total: "(\<And>x. x \<in> set xs \<Longrightarrow> \<exists>y. f x = Inr y) \<Longrightarrow> c_mapM f xs = Inr (map (\<lambda>x. projr (f x)) xs)"
  by (rule c_mapM_Inr) (metis sum.sel(2))

end
