(* ===== verification/CmdDRP.thy ===== *)
theory CmdDRP
  imports RepoData
begin

text \<open>
  The commands on the data repository (\<^verbatim>\<open>src/system/cmdDRP.c\<close>).  A handler gets the format of the
  command, its parameter block (\<open>None\<close> for NULL) and the number of parameters, and returns the result
  of the command and the repository.
\<close>

section \<open>Scanning parameters\<close>

text \<open>
  \<^verbatim>\<open>sscanf(params, fmt, &a, &b, ...)\<close> on integer variables: the count and the integers assigned.  A
  handler that finds the count it wants but not the integers would read an unset variable.
\<close>

definition scan_ints :: "string \<Rightarrow> char list \<Rightarrow> (int \<times> int list) c_result" where
  "scan_ints fmt b = c_bind (c_str b) (\<lambda>p. case sscanf p fmt of (n, vs) \<Rightarrow> Inr (n, ints_of vs))"

section \<open>Handlers\<close>

abbreviation (input) SCH_DRP_MAGIC :: int where "SCH_DRP_MAGIC \<equiv> 1010"

text \<open>\<open>clock\<close> is what \<^verbatim>\<open>time(NULL)\<close> returns.\<close>

definition drp_execute_before_flight ::
  "sch_config \<Rightarrow> 'x storage \<Rightarrow> int \<Rightarrow> string \<Rightarrow> char list option \<Rightarrow> int \<Rightarrow> 'x dat_state \<Rightarrow>
     (int \<times> 'x dat_state) c_result" where
  "drp_execute_before_flight c st clock fmt params nparams s =
     (case params of
        None \<Rightarrow> Inr (CMD_ERROR, s)
      | Some b \<Rightarrow> c_bind (scan_ints fmt b) (\<lambda>(n, is).
          if nparams = n then
            case is of
              [magic] \<Rightarrow>
                if magic = SCH_DRP_MAGIC then
                  let s = fold (\<lambda>var s. dat_set_system_var c st var 0 s) dat_all s;
                      s = dat_set_system_var c st dat_rtc_date_time (i32 clock) s;
                      s = snd (dat_delete_memory_sections c st s)
                  in Inr (CMD_OK, s)
                else Inr (CMD_FAIL, s)
            | _ \<Rightarrow> Inl Uninitialised
          else Inr (CMD_FAIL, s)))"

text \<open>What is printed is the status structure.\<close>

definition drp_print_system_vars ::
  "sch_config \<Rightarrow> 'x storage \<Rightarrow> u32w \<Rightarrow> string \<Rightarrow> char list option \<Rightarrow> int \<Rightarrow> 'x dat_state \<Rightarrow>
     int \<times> u32w list \<times> 'x dat_state" where
  "drp_print_system_vars c st junk fmt params nparams s =
     (let status = dat_status_to_struct c st junk s in (CMD_OK, status, s))"

text \<open>\<^verbatim>\<open>dat_system_t\<close> has no negative constant, so the comparison of the cast index is unsigned.\<close>

definition drp_update_sys_var_idx ::
  "sch_config \<Rightarrow> 'x storage \<Rightarrow> string \<Rightarrow> char list option \<Rightarrow> int \<Rightarrow> 'x dat_state \<Rightarrow>
     (int \<times> 'x dat_state) c_result" where
  "drp_update_sys_var_idx c st fmt params nparams s =
     (case params of
        None \<Rightarrow> Inr (CMD_FAIL, s)
      | Some b \<Rightarrow> c_bind (scan_ints fmt b) (\<lambda>(n, is).
          if n = nparams then
            case is of
              [index, value] \<Rightarrow>
                (case dat_of_idx (u32 index) of
                   Some var_index \<Rightarrow> Inr (CMD_OK, dat_set_system_var c st var_index value s)
                 | None \<Rightarrow> Inr (CMD_FAIL, s))
            | _ \<Rightarrow> Inl Uninitialised
          else Inr (CMD_FAIL, s)))"

definition drp_update_hours_alive ::
  "sch_config \<Rightarrow> 'x storage \<Rightarrow> string \<Rightarrow> char list option \<Rightarrow> int \<Rightarrow> 'x dat_state \<Rightarrow>
     (int \<times> 'x dat_state) c_result" where
  "drp_update_hours_alive c st fmt params nparams s =
     (case params of
        None \<Rightarrow> Inr (CMD_FAIL, s)
      | Some b \<Rightarrow> c_bind (scan_ints fmt b) (\<lambda>(n, is).
          if n = nparams then
            case is of
              [value] \<Rightarrow>
                let current = i32 (dat_get_system_var c st dat_obc_hrs_alive s + value);
                    s = dat_set_system_var c st dat_obc_hrs_alive current s;
                    current = i32 (dat_get_system_var c st dat_obc_hrs_wo_reset s + value);
                    s = dat_set_system_var c st dat_obc_hrs_wo_reset current s
                in Inr (CMD_OK, s)
            | _ \<Rightarrow> Inl Uninitialised
          else Inr (CMD_FAIL, s)))"

definition drp_clear_gnd_wdt ::
  "sch_config \<Rightarrow> 'x storage \<Rightarrow> string \<Rightarrow> char list option \<Rightarrow> int \<Rightarrow> 'x dat_state \<Rightarrow> int \<times> 'x dat_state" where
  "drp_clear_gnd_wdt c st fmt params nparams s = (CMD_OK, dat_set_system_var c st dat_obc_sw_wdt 0 s)"

text \<open>One round of the loop of \<^verbatim>\<open>drp_test_system_vars\<close>.\<close>

definition test_system_var ::
  "sch_config \<Rightarrow> 'x storage \<Rightarrow> dat_system \<Rightarrow> int \<times> 'x dat_state \<Rightarrow> int \<times> 'x dat_state" where
  "test_system_var c st v acc =
     (let (return_value, s) = acc;
          init_value = dat_get_system_var c st v s;
          s = dat_set_system_var c st v 85 s;
          var = dat_get_system_var c st v s;
          s = dat_set_system_var c st v init_value s
      in (if var \<noteq> 85 then CMD_FAIL else return_value, s))"

definition drp_test_system_vars ::
  "sch_config \<Rightarrow> 'x storage \<Rightarrow> string \<Rightarrow> char list option \<Rightarrow> int \<Rightarrow> 'x dat_state \<Rightarrow> int \<times> 'x dat_state" where
  "drp_test_system_vars c st fmt params nparams s = fold (test_system_var c st) dat_all (CMD_OK, s)"

text \<open>\<^verbatim>\<open>drp_set_deployed\<close> does not check its parameters for NULL.\<close>

definition drp_set_deployed ::
  "sch_config \<Rightarrow> 'x storage \<Rightarrow> string \<Rightarrow> char list option \<Rightarrow> int \<Rightarrow> 'x dat_state \<Rightarrow>
     (int \<times> 'x dat_state) c_result" where
  "drp_set_deployed c st fmt params nparams s =
     (case params of
        None \<Rightarrow> Inl NullDeref
      | Some b \<Rightarrow> c_bind (scan_ints fmt b) (\<lambda>(n, is).
          if n = nparams then
            case is of [deployed] \<Rightarrow> Inr (CMD_OK, dat_set_system_var c st dat_dep_deployed deployed s)
            | _ \<Rightarrow> Inl Uninitialised
          else Inr (CMD_ERROR, s)))"

section \<open>Parameters that scan\<close>

lemma scan_ints_of_scan:
  "c_str b = Inr p \<Longrightarrow> sscanf p fmt = (n, map VInt is) \<Longrightarrow> scan_ints fmt b = Inr (n, is)"
proof -
  have "ints_of (map VInt is) = is" by (induction "is") auto
  moreover assume "c_str b = Inr p" "sscanf p fmt = (n, map VInt is)"
  ultimately show "scan_ints fmt b = Inr (n, is)" by (simp add: scan_ints_def)
qed

text \<open>A block of text \<open>p\<close> as the console or a telecommand leaves it.\<close>

definition text_block :: "string \<Rightarrow> char list" where
  "text_block p = p @ [NUL]"

lemma c_str_text_block: "c_string p \<Longrightarrow> c_str (text_block p) = Inr p"
  by (simp add: text_block_def)

lemma ext_ram:
  assumes "storage_mode c = 0"
  shows "dat_inv c st (s\<lparr> ext := x \<rparr>) = dat_inv c st s"
    "dat_get_system_var c st v (s\<lparr> ext := x \<rparr>) = dat_get_system_var c st v s"
  using assms by (simp_all add: dat_inv_def dat_get_system_var_def cell_get_def Let_def)

lemma ext_id: "\<exists>x. s = s\<lparr> ext := x \<rparr>"
  by (rule exI [of _ "ext s"]) simp

lemma delete_sections_ext:
  "\<exists>x. snd (dat_delete_memory_sections c st s) =
     (fold (\<lambda>p s. dat_set_system_var c st (dm_sys_index (data_map p)) 0 s) payload_all s)\<lparr> ext := x \<rparr>"
  by (cases "platform_of c = NANOMIND"; cases "fp_enabled c")
     (auto simp: dat_delete_memory_sections_def Let_def split_def ext_id)

lemma delete_sections_plain:
  "platform_of c \<noteq> NANOMIND \<Longrightarrow> \<not> fp_enabled c \<Longrightarrow> snd (dat_delete_memory_sections c st s) =
     fold (\<lambda>p s. dat_set_system_var c st (dm_sys_index (data_map p)) 0 s) payload_all s"
  by (simp add: dat_delete_memory_sections_def Let_def)

section \<open>Properties\<close>

text \<open>
  \<^verbatim>\<open>drp_ebf\<close> resets the repository exactly when it is given the magic number: then it returns
  \<^verbatim>\<open>CMD_OK\<close>, the clock variable holds the time and every other variable is 0, so all sample counters
  start again.  Without the number, with a wrong one or with none at all it reports a failure and
  changes nothing.
\<close>

lemma drp_execute_before_flight_spec:
  assumes "dat_inv c st s" "storage_mode c = 0 \<or> platform_of c \<noteq> NANOMIND \<and> \<not> fp_enabled c"
    "scan_ints fmt b = Inr (n, is)" "n = nparams \<Longrightarrow> length is = 1"
  shows "drp_execute_before_flight c st clock fmt None nparams s = Inr (CMD_ERROR, s) \<and>
    (if n = nparams \<and> is = [SCH_DRP_MAGIC] then
      \<exists>s'. drp_execute_before_flight c st clock fmt (Some b) nparams s = Inr (CMD_OK, s') \<and> dat_inv c st s' \<and>
        (\<forall>v. dat_get_system_var c st v s' = (if v = dat_rtc_date_time then i32 clock else 0))
     else drp_execute_before_flight c st clock fmt (Some b) nparams s = Inr (CMD_FAIL, s))"
proof -
  let ?s1 = "fold (\<lambda>var s. dat_set_system_var c st var 0 s) dat_all s"
  let ?s2 = "dat_set_system_var c st dat_rtc_date_time (i32 clock) ?s1"
  let ?s3 = "fold (\<lambda>p s. dat_set_system_var c st (dm_sys_index (data_map p)) 0 s) payload_all ?s2"
  have i1: "dat_inv c st ?s1" using dr.inv_fold_set [OF assms(1), of "\<lambda>_. 0" "\<lambda>v. v"] by simp
  have i2: "dat_inv c st ?s2" using i1 by (simp add: dat_simps)
  have i3: "dat_inv c st ?s3"
    using dr.inv_fold_set [OF i2, of "\<lambda>_. 0" "\<lambda>p. dm_sys_index (data_map p)"] by simp
  have rtc: "dat_rtc_date_time \<noteq> dm_sys_index (data_map p)" for p by (cases p) simp_all
  have g3: "dat_get_system_var c st v ?s3 = (if v = dat_rtc_date_time then i32 clock else 0)" for v
    using dr.get_fold_const [OF assms(1), of 0 v "\<lambda>v. v" dat_all] rtc
      dr.get_fold_const [OF i2, of 0 v "\<lambda>p. dm_sys_index (data_map p)" payload_all]
      dr.get_set [OF i1, of "i32 clock" v dat_rtc_date_time] by auto
  let ?s4 = "snd (dat_delete_memory_sections c st ?s2)"
  have "dat_inv c st ?s4 \<and> dat_get_system_var c st v ?s4 = dat_get_system_var c st v ?s3" for v
    using assms(2) i3 delete_sections_ext [of c st ?s2] delete_sections_plain [of c st ?s2]
    by (cases "storage_mode c = 0") (auto simp: ext_ram)
  note fin = this
  show ?thesis
  proof (cases "n = nparams \<and> is = [SCH_DRP_MAGIC]")
    case True
    then have "drp_execute_before_flight c st clock fmt (Some b) nparams s = Inr (CMD_OK, ?s4)"
      using assms(3) by (simp add: drp_execute_before_flight_def Let_def)
    then show ?thesis using True fin g3 by (simp add: drp_execute_before_flight_def)
  next
    case False
    then have "drp_execute_before_flight c st clock fmt (Some b) nparams s = Inr (CMD_FAIL, s)"
      using assms(3,4) by (auto simp: drp_execute_before_flight_def length_Suc_conv split: if_splits)
    then show ?thesis using False by (auto simp: drp_execute_before_flight_def)
  qed
qed

lemma drp_execute_before_flight_spec_witness:
  "scan_ints ''%d'' (text_block ''1010'') = Inr (1, [1010]) \<and>
   (\<exists>s'. drp_execute_before_flight config_h no_storage 1600000000 ''%d'' (Some (text_block ''1010'')) 1 dat_zero =
      Inr (CMD_OK, s') \<and> dat_get_system_var config_h no_storage dat_rtc_date_time s' = 1600000000)"
proof -
  have sc: "scan_ints ''%d'' (text_block ''1010'') = Inr (1, [1010])" by code_simp
  have "i32 1600000000 = 1600000000" by (simp add: i32_def)
  then show ?thesis
    using drp_execute_before_flight_spec [OF dat_zero_inv _ sc, of 1 1600000000] sc
    by (auto simp: config_h_def)
qed

text \<open>
  \<^verbatim>\<open>drp_set_var\<close> with two integers writes the variable of that index when it is one of the 57, and
  only that variable; any other index, negative ones included, is refused and nothing is written.
\<close>

lemma drp_update_sys_var_idx_spec:
  assumes "dat_inv c st s" "scan_ints fmt b = Inr (nparams, [index, value])" "in_i32 index" "in_i32 value"
  shows "if 0 \<le> index \<and> index < int dat_system_last_var then
      \<exists>s'. drp_update_sys_var_idx c st fmt (Some b) nparams s = Inr (CMD_OK, s') \<and> dat_inv c st s' \<and>
        (\<forall>v. dat_get_system_var c st v s' =
           (if int (dat_idx v) = index then value else dat_get_system_var c st v s))
    else drp_update_sys_var_idx c st fmt (Some b) nparams s = Inr (CMD_FAIL, s)"
proof (cases "0 \<le> index \<and> index < int dat_system_last_var")
  case True
  then have u: "u32 index = index" by (simp add: u32_id)
  obtain w where w: "dat_of_idx index = Some w" "int (dat_idx w) = index"
    using True dat_of_idx_Some [of index] by (auto simp: dat_of_idx_def)
  then show ?thesis using True assms u
    by (auto simp: drp_update_sys_var_idx_def dat_simps)
next
  case False
  have "dat_of_idx (u32 index) = None"
  proof (cases "0 \<le> index")
    case True
    then have "u32 index = index" using assms(3) by (simp add: in_i32_def u32_id)
    then show ?thesis using False by (simp add: dat_of_idx_def)
  next
    case neg: False
    then have "(index + 4294967296) mod 4294967296 = index + 4294967296"
      using assms(3) by (intro mod_pos_pos_trivial) (simp_all add: in_i32_def)
    then have "u32 index = index + 4294967296" by (simp add: u32_def)
    then show ?thesis using assms(3) neg by (simp add: dat_of_idx_def in_i32_def)
  qed
  then show ?thesis using False assms(2) by (auto simp: drp_update_sys_var_idx_def)
qed

lemma drp_update_sys_var_idx_spec_witness:
  "(\<exists>s'. drp_update_sys_var_idx config_h no_storage ''%d %d'' (Some (text_block ''0 2'')) 2 dat_zero = Inr (CMD_OK, s') \<and>
      dat_get_system_var config_h no_storage dat_obc_opmode s' = 2) \<and>
   drp_update_sys_var_idx config_h no_storage ''%d %d'' (Some (text_block ''-1 2'')) 2 dat_zero = Inr (CMD_FAIL, dat_zero)"
proof -
  have a: "scan_ints ''%d %d'' (text_block ''0 2'') = Inr (2, [0, 2])" by code_simp
  have b: "scan_ints ''%d %d'' (text_block ''-1 2'') = Inr (2, [-1, 2])" by code_simp
  show ?thesis
    using drp_update_sys_var_idx_spec [OF dat_zero_inv a] drp_update_sys_var_idx_spec [OF dat_zero_inv b]
    by (auto simp: in_i32_def)
qed

text \<open>
  The self test of the repository passes on a repository that keeps its values and leaves every
  variable as it found it.
\<close>

lemma drp_test_system_vars_restores:
  assumes "dat_inv c st s" "\<forall>v. in_i32 (dat_get_system_var c st v s)"
  shows "\<exists>s'. drp_test_system_vars c st fmt params nparams s = (CMD_OK, s') \<and> dat_inv c st s' \<and>
    (\<forall>v. dat_get_system_var c st v s' = dat_get_system_var c st v s)"
proof -
  have "\<exists>s'. fold (test_system_var c st) vs (CMD_OK, s) = (CMD_OK, s') \<and> dat_inv c st s' \<and>
    (\<forall>v. dat_get_system_var c st v s' = dat_get_system_var c st v s)" for vs
    using assms
  proof (induction vs arbitrary: s)
    case (Cons w vs)
    let ?t = "dat_set_system_var c st w (dat_get_system_var c st w s) (dat_set_system_var c st w 85 s)"
    have r: "in_i32 85" by (simp add: in_i32_def)
    note t = dr.test_and_restore [OF Cons.prems(1) r, of w]
    have "test_system_var c st w (CMD_OK, s) = (CMD_OK, ?t)"
      using t(1) Cons.prems by (simp add: test_system_var_def Let_def)
    moreover have "dat_inv c st ?t" using Cons.prems r by (simp add: dr.inv_set)
    moreover have "dat_get_system_var c st v ?t = dat_get_system_var c st v s" for v
      using t(2) Cons.prems by simp
    ultimately show ?case using Cons.IH [of ?t] Cons.prems by simp
  qed simp
  then show ?thesis by (simp add: drp_test_system_vars_def)
qed

lemma drp_test_system_vars_restores_witness:
  "\<exists>s'. drp_test_system_vars config_h no_storage [] None 0 dat_zero = (CMD_OK, s') \<and>
     dat_get_system_var config_h no_storage dat_obc_sw_wdt s' = 0"
proof -
  have z: "dat_get_system_var config_h no_storage v dat_zero = 0" for v
    using dat_idx_less [of v]
    by (simp add: dat_get_system_var_def cell_get_def config_h_def dat_zero_def less_le_trans [OF dat_idx_less] Let_def)
  then show ?thesis
    using drp_test_system_vars_restores [OF dat_zero_inv, of "[]" None 0] by auto
qed

end
