(* ===== verification/FlightPlan.thy ===== *)
theory FlightPlan
  imports RepoData
begin

text \<open>
  The flight plan as its clients see it (\<^verbatim>\<open>dat_get_fp\<close>, \<^verbatim>\<open>dat_set_fp\<close>, \<^verbatim>\<open>dat_del_fp\<close>, \<^verbatim>\<open>dat_reset_fp\<close> and
  \<^verbatim>\<open>dat_show_fp\<close> of \<^verbatim>\<open>repoData.c\<close>): the table in RAM in storage mode 0, and the flight plan of the storage
  driver in every other mode.
\<close>

text \<open>
  The functions of \<^verbatim>\<open>data_storage.c\<close> on the flight plan.  \<open>fd_get\<close> is given the size of the caller's
  arrays; \<open>fd_init\<close> is \<^verbatim>\<open>storage_table_flight_plan_init\<close>.
\<close>

record 'x fp_driver =
  fd_get :: "nat \<Rightarrow> int \<Rightarrow> 'x dat_state \<Rightarrow> (int \<times> (string \<times> string \<times> int \<times> int) option \<times> 'x dat_state) c_result"
  fd_set :: "int \<Rightarrow> string \<Rightarrow> string \<Rightarrow> int \<Rightarrow> int \<Rightarrow> 'x dat_state \<Rightarrow> (int \<times> 'x dat_state) c_result"
  fd_erase :: "int \<Rightarrow> 'x dat_state \<Rightarrow> (int \<times> 'x dat_state) c_result"
  fd_init :: "int \<Rightarrow> 'x dat_state \<Rightarrow> (int \<times> 'x dat_state) c_result"
  fd_show :: "'x dat_state \<Rightarrow> int c_result"

text \<open>A call on the table in RAM.\<close>

definition on_fplan :: "(fp_state \<Rightarrow> (int \<times> fp_state) c_result) \<Rightarrow> 'x dat_state \<Rightarrow> (int \<times> 'x dat_state) c_result" where
  "on_fplan op s = c_bind (op (fplan s)) (\<lambda>(rc, f). Inr (rc, s\<lparr> fplan := f \<rparr>))"

definition dat_get_fp ::
  "sch_config \<Rightarrow> 'x fp_driver \<Rightarrow> nat \<Rightarrow> int \<Rightarrow> 'x dat_state \<Rightarrow>
     (int \<times> (string \<times> string \<times> int \<times> int) option \<times> 'x dat_state) c_result" where
  "dat_get_fp c fd cap elapsed_sec s =
     (if storage_mode c = 0
      then c_bind (dat_get_fp_ram elapsed_sec (fplan s)) (\<lambda>(rc, due, f). Inr (rc, due, s\<lparr> fplan := f \<rparr>))
      else fd_get fd cap elapsed_sec s)"

definition dat_set_fp ::
  "sch_config \<Rightarrow> 'x fp_driver \<Rightarrow> int \<Rightarrow> string \<Rightarrow> string \<Rightarrow> int \<Rightarrow> int \<Rightarrow> 'x dat_state \<Rightarrow> (int \<times> 'x dat_state) c_result" where
  "dat_set_fp c fd timetodo command args exec period s =
     (if storage_mode c = 0 then on_fplan (dat_set_fp_ram timetodo command args exec period) s
      else fd_set fd timetodo command args exec period s)"

definition dat_del_fp :: "sch_config \<Rightarrow> 'x fp_driver \<Rightarrow> int \<Rightarrow> 'x dat_state \<Rightarrow> (int \<times> 'x dat_state) c_result" where
  "dat_del_fp c fd timetodo s =
     (if storage_mode c = 0 then on_fplan (dat_del_fp_ram timetodo) s else fd_erase fd timetodo s)"

definition dat_reset_fp :: "sch_config \<Rightarrow> 'x fp_driver \<Rightarrow> 'x dat_state \<Rightarrow> (int \<times> 'x dat_state) c_result" where
  "dat_reset_fp c fd s = (if storage_mode c = 0 then on_fplan dat_reset_fp_ram s else fd_init fd 1 s)"

definition dat_show_fp :: "sch_config \<Rightarrow> 'x fp_driver \<Rightarrow> 'x dat_state \<Rightarrow> (int \<times> 'x dat_state) c_result" where
  "dat_show_fp c fd s =
     (if storage_mode c = 0 then on_fplan (\<lambda>f. c_bind (dat_show_fp_ram f) (\<lambda>(rc, rows, f). Inr (rc, f))) s
      else c_bind (fd_show fd s) (\<lambda>rc. Inr (rc, s)))"

text \<open>For builds that keep the plan in RAM.\<close>

definition no_fp_driver :: "'x fp_driver" where
  "no_fp_driver = \<lparr> fd_get = \<lambda>_ _ s. Inr (-1, None, s), fd_set = \<lambda>_ _ _ _ _ s. Inr (-1, s), fd_erase = \<lambda>_ s. Inr (-1, s),
     fd_init = \<lambda>_ s. Inr (-1, s), fd_show = \<lambda>_. Inr (-1) \<rparr>"

end
