(* ===== verification/CmdFP.thy ===== *)
theory CmdFP
  imports CmdDRP FlightPlan
begin

text \<open>
  The flight plan commands (\<^verbatim>\<open>src/system/cmdFP.c\<close>).  \<open>mktime\<close> is the library function
  on day, month, year, hour, minute and second as the source fills them in, converted to \<^verbatim>\<open>int\<close>.
\<close>

section \<open>Handlers\<close>

type_synonym tm_fields = "int \<times> int \<times> int \<times> int \<times> int \<times> int"

definition unix_time :: "(tm_fields \<Rightarrow> int) \<Rightarrow> int \<Rightarrow> int \<Rightarrow> int \<Rightarrow> int \<Rightarrow> int \<Rightarrow> int \<Rightarrow> int" where
  "unix_time mktime day month year hour minute second =
     i32 (mktime (day, i32 (month - 1), i32 (year - 1900), hour, minute, second))"

text \<open>Every string is scanned into 64 bytes without a width.\<close>

definition strings_fit :: "scan_val list \<Rightarrow> bool" where
  "strings_fit vs \<longleftrightarrow> (\<forall>v \<in> set vs. case v of VStr x \<Rightarrow> length x < SCH_CMD_MAX_STR_PARAMS | _ \<Rightarrow> True)"

definition fp_set ::
  "sch_config \<Rightarrow> 'x fp_driver \<Rightarrow> (tm_fields \<Rightarrow> int) \<Rightarrow> string \<Rightarrow> char list option \<Rightarrow> int \<Rightarrow> 'x dat_state \<Rightarrow> (int \<times> 'x dat_state) c_result" where
  "fp_set c fd mktime fmt params nparams s =
     (case params of
        None \<Rightarrow> Inl NullDeref
      | Some b \<Rightarrow> c_bind (c_str b) (\<lambda>p.
          let (n, vs) = sscanf p fmt in
          if \<not> strings_fit vs then Inl StackOverflow
          else if n = nparams then
            case vs of
              [VInt day, VInt month, VInt year, VInt hour, VInt minute, VInt second, VStr command, VStr args,
               VInt exec, VInt period] \<Rightarrow>
                c_bind (dat_set_fp c fd (unix_time mktime day month year hour minute second) command args exec period s)
                  (\<lambda>(rc, s). Inr (if rc = 0 then CMD_OK else CMD_FAIL, s))
            | _ \<Rightarrow> Inl Uninitialised
          else Inr (CMD_FAIL, s)))"

definition fp_delete ::
  "sch_config \<Rightarrow> 'x fp_driver \<Rightarrow> (tm_fields \<Rightarrow> int) \<Rightarrow> string \<Rightarrow> char list option \<Rightarrow> int \<Rightarrow> 'x dat_state \<Rightarrow> (int \<times> 'x dat_state) c_result" where
  "fp_delete c fd mktime fmt params nparams s =
     (case params of
        None \<Rightarrow> Inl NullDeref
      | Some b \<Rightarrow> c_bind (scan_ints fmt b) (\<lambda>(n, is).
          if n = nparams then
            case is of
              [day, month, year, hour, minute, second] \<Rightarrow>
                c_bind (dat_del_fp c fd (unix_time mktime day month year hour minute second) s)
                  (\<lambda>(rc, s). Inr (if rc = 0 then CMD_OK else CMD_FAIL, s))
            | _ \<Rightarrow> Inl Uninitialised
          else Inr (CMD_FAIL, s)))"

definition fp_show :: "sch_config \<Rightarrow> 'x fp_driver \<Rightarrow> 'x dat_state \<Rightarrow> (int \<times> 'x dat_state) c_result" where
  "fp_show c fd s = c_bind (dat_show_fp c fd s) (\<lambda>(rc, s). Inr (if rc = 0 then CMD_OK else CMD_FAIL, s))"

definition fp_reset :: "sch_config \<Rightarrow> 'x fp_driver \<Rightarrow> 'x dat_state \<Rightarrow> (int \<times> 'x dat_state) c_result" where
  "fp_reset c fd s = c_bind (dat_reset_fp c fd s) (\<lambda>(rc, s). Inr (if rc = 0 then CMD_OK else CMD_FAIL, s))"

definition test_fp_params :: "string \<Rightarrow> char list option \<Rightarrow> int \<Rightarrow> int c_result" where
  "test_fp_params fmt params nparams =
     (case params of
        None \<Rightarrow> Inl NullDeref
      | Some b \<Rightarrow> c_bind (c_str b) (\<lambda>p.
          let (n, vs) = sscanf p fmt in
          if \<not> strings_fit vs then Inl StackOverflow
          else Inr (if n = nparams then CMD_OK else CMD_FAIL)))"

end
