(* ===== verification/TaskFlightPlan.thy ===== *)
theory TaskFlightPlan
  imports TaskCommon CmdFP
begin

text \<open>
  The flight plan task (\<^verbatim>\<open>taskFlightPlan.c\<close>): once a second it takes the entry due from the plan and
  sends its command the number of times it asks for.
\<close>

section \<open>One second\<close>

text \<open>The loop over the executions; the same block of arguments serves all of them.\<close>

fun send_executions ::
  "sch_config \<Rightarrow> 'x storage \<Rightarrow> cmd_repo \<Rightarrow> int \<Rightarrow> string \<Rightarrow> string \<Rightarrow> nat \<Rightarrow> 'x dat_state \<Rightarrow>
     (cmd_t list \<times> 'x dat_state) c_result" where
  "send_executions c st r elapsed_sec command args 0 s = Inr ([], s)"
| "send_executions c st r elapsed_sec command args (Suc n) s =
     c_bind (cmd_get_str c command r) (\<lambda>k.
       let k = cmd_add_params_str k args;
           s = dat_set_system_var c st dat_fpl_last (i32 elapsed_sec) s in
       c_bind (send_executions c st r elapsed_sec command args n s) (\<lambda>(ks, s).
         Inr ((case k of None \<Rightarrow> [] | Some k \<Rightarrow> [k]) @ ks, s)))"

text \<open>
  \<open>heap\<close> is what \<^verbatim>\<open>malloc\<close> leaves in the block of \<^verbatim>\<open>fix_fmt\<close>.  The command and its arguments are copied
  into local arrays of 64 bytes, which hold every entry of the plan in RAM.
\<close>

definition taskFlightPlan ::
  "sch_config \<Rightarrow> 'x storage \<Rightarrow> 'x fp_driver \<Rightarrow> cmd_repo \<Rightarrow> (nat \<Rightarrow> char) \<Rightarrow> int \<Rightarrow> 'x dat_state \<Rightarrow>
     (cmd_t list \<times> 'x dat_state) c_result" where
  "taskFlightPlan c st fd r heap clock s =
     (let elapsed_sec = (if platform_of c = AVR32 then dat_get_time c clock s else clock) in
      c_bind (dat_get_fp c fd SCH_CMD_MAX_STR_PARAMS (i32 elapsed_sec) s) (\<lambda>(rc, due, s).
        case due of
          None \<Rightarrow> Inr ([], s)
        | Some (command, args, exec, period) \<Rightarrow>
            if rc = -1 then Inr ([], s)
            else c_bind (fix_fmt heap args) (\<lambda>b. c_bind (c_str b) (\<lambda>fixed_args.
              send_executions c st r elapsed_sec command fixed_args (nat exec) s))))"

definition date_to_unixtime :: "(tm_fields \<Rightarrow> int) \<Rightarrow> int \<Rightarrow> int \<Rightarrow> int \<Rightarrow> int \<Rightarrow> int \<Rightarrow> int \<Rightarrow> int" where
  "date_to_unixtime mktime day month year hour minute second =
     i32 (mktime (day, i32 (month - 1), i32 (year - 1900), hour, minute, second))"

text \<open>Seconds one after the other, at the times given.\<close>

fun fp_seconds ::
  "sch_config \<Rightarrow> 'x storage \<Rightarrow> 'x fp_driver \<Rightarrow> cmd_repo \<Rightarrow> (nat \<Rightarrow> char) \<Rightarrow> int list \<Rightarrow> 'x dat_state \<Rightarrow>
     (cmd_t list \<times> 'x dat_state) c_result" where
  "fp_seconds c st fd r heap [] s = Inr ([], s)"
| "fp_seconds c st fd r heap (t # ts) s =
     c_bind (taskFlightPlan c st fd r heap t s) (\<lambda>(ks, s).
     c_bind (fp_seconds c st fd r heap ts s) (\<lambda>(ls, s). Inr (ks @ ls, s)))"

section \<open>The commands of an entry\<close>

text \<open>The commands an entry stands for, and the data after its executions.\<close>

definition entry_commands :: "cmd_t option \<Rightarrow> string \<Rightarrow> int \<Rightarrow> cmd_t list" where
  "entry_commands k args exec =
     concat (replicate (nat exec) (case cmd_add_params_str k args of None \<Rightarrow> [] | Some k \<Rightarrow> [k]))"

lemma send_executions_run:
  assumes "cmd_get_str c command r = Inr k"
  shows "send_executions c st r t command args n s =
    Inr (concat (replicate n (case cmd_add_params_str k args of None \<Rightarrow> [] | Some k \<Rightarrow> [k])),
         (dat_set_system_var c st dat_fpl_last (i32 t) ^^ n) s)"
  by (induction n arbitrary: s) (simp_all add: assms Let_def funpow_swap1)

lemma fix_fmt_run:
  assumes "c_string args" "length args < 63" "heap (length args) = NUL"
  shows "\<exists>b. fix_fmt heap args = Inr b \<and> c_str b = Inr (map (\<lambda>ch. if ch = CHR '','' then CHR '' '' else ch) args)"
proof -
  let ?fix = "map (\<lambda>ch. if ch = CHR '','' then CHR '' '' else ch) args"
  have "NUL \<notin> set ?fix" using assms(1) by (auto simp: c_string_def split: if_splits)
  then have "takeWhile (\<lambda>ch. ch \<noteq> NUL) (?fix @ NUL # x) = ?fix" for x
    by (subst takeWhile_append2) auto
  then show ?thesis using assms(2,3) by (simp add: fix_fmt_def c_str_def)
qed

text \<open>Commas become spaces.\<close>

definition fixed :: "string \<Rightarrow> string" where
  "fixed args = map (\<lambda>ch. if ch = CHR '','' then CHR '' '' else ch) args"

section \<open>Seconds over a plan\<close>

text \<open>
  What a client sees of a plan: the entry due at a time and the plan after it was fetched, and the runs
  of the task over it.  \<open>cmds\<close> gives the commands of an entry.
\<close>

type_synonym plan_entry = "string \<times> string \<times> int \<times> int"

fun plan_run ::
  "('p \<Rightarrow> int \<Rightarrow> plan_entry option) \<Rightarrow> ('p \<Rightarrow> int \<Rightarrow> 'p) \<Rightarrow> (plan_entry \<Rightarrow> cmd_t list) \<Rightarrow> int list \<Rightarrow> 'p \<Rightarrow> cmd_t list \<times> 'p" where
  "plan_run due after cmds [] p = ([], p)"
| "plan_run due after cmds (t # ts) p =
     (case due p t of
        None \<Rightarrow> plan_run due after cmds ts p
      | Some e \<Rightarrow> (let (ks, p') = plan_run due after cmds ts (after p t) in (cmds e @ ks, p')))"

text \<open>The entries that fall due in a run: their arguments fit and their next time is a valid one.\<close>

fun plan_fits :: "('p \<Rightarrow> int \<Rightarrow> plan_entry option) \<Rightarrow> ('p \<Rightarrow> int \<Rightarrow> 'p) \<Rightarrow> int list \<Rightarrow> 'p \<Rightarrow> bool" where
  "plan_fits due after [] p \<longleftrightarrow> True"
| "plan_fits due after (t # ts) p \<longleftrightarrow>
     (case due p t of
        None \<Rightarrow> plan_fits due after ts p
      | Some (command, args, exec, peri) \<Rightarrow> length command < 64 \<and> length args < 63 \<and> c_string args \<and>
          t + peri \<le> INT_MAX \<and> plan_fits due after ts (after p t))"

text \<open>The commands of an entry when the table of commands is complete.\<close>

definition entry_cmds :: "sch_config \<Rightarrow> cmd_repo \<Rightarrow> plan_entry \<Rightarrow> cmd_t list" where
  "entry_cmds c r = (\<lambda>(command, args, exec, peri). entry_commands (projr (cmd_get_str c command r)) (fixed args) exec)"

text \<open>
  A storage driver that keeps a plan: \<open>Inv s p\<close> says that \<open>p\<close> is the plan in the state \<open>s\<close>.
\<close>

locale plan_source =
  fixes c :: sch_config and st :: "'x storage" and fd :: "'x fp_driver" and Inv :: "'x dat_state \<Rightarrow> 'p \<Rightarrow> bool"
    and due :: "'p \<Rightarrow> int \<Rightarrow> plan_entry option" and after :: "'p \<Rightarrow> int \<Rightarrow> 'p"
  assumes mode: "storage_mode c \<noteq> 0" "platform_of c \<noteq> AVR32"
    and get_none: "Inv s p \<Longrightarrow> in_i32 t \<Longrightarrow> due p t = None \<Longrightarrow> \<exists>s'. fd_get fd 64 t s = Inr (-1, None, s') \<and> Inv s' p"
    and get_some: "Inv s p \<Longrightarrow> in_i32 t \<Longrightarrow> 0 < t \<Longrightarrow> due p t = Some (command, args, exec, peri) \<Longrightarrow>
      length command < 64 \<Longrightarrow> length args < 63 \<Longrightarrow> t + peri \<le> INT_MAX \<Longrightarrow>
      \<exists>s'. fd_get fd 64 t s = Inr (0, Some (command, args, exec, peri), s') \<and> Inv s' (after p t)"
    and set_last: "Inv s p \<Longrightarrow> in_i32 x \<Longrightarrow> Inv (dat_set_system_var c st dat_fpl_last x s) p"
begin

lemma set_last_times: "Inv s p \<Longrightarrow> in_i32 x \<Longrightarrow> Inv ((dat_set_system_var c st dat_fpl_last x ^^ n) s) p"
  by (induction n) (simp_all add: set_last)

lemma second_none:
  assumes "Inv s p" "in_i32 t" "due p t = None"
  shows "\<exists>s'. taskFlightPlan c st fd r heap t s = Inr ([], s') \<and> Inv s' p"
  using get_none [OF assms] mode assms(2) by (auto simp: taskFlightPlan_def dat_get_fp_def i32_id)

lemma second_some:
  assumes "Inv s p" "in_i32 t" "0 < t" "due p t = Some (command, args, exec, peri)" "length command < 64"
    "length args < 63" "c_string args" "t + peri \<le> INT_MAX" "heap (length args) = NUL"
    "length (cmd_list r) = cmd_max_entries c"
  shows "\<exists>s'. taskFlightPlan c st fd r heap t s = Inr (entry_cmds c r (command, args, exec, peri), s') \<and> Inv s' (after p t)"
proof -
  obtain s1 where s1: "fd_get fd 64 t s = Inr (0, Some (command, args, exec, peri), s1)" "Inv s1 (after p t)"
    using get_some [OF assms(1-6,8)] by blast
  obtain b where b: "fix_fmt heap args = Inr b" "c_str b = Inr (fixed args)"
    using fix_fmt_run [where heap = heap, OF assms(7,6,9)] by (auto simp: fixed_def)
  obtain k where k: "cmd_get_str c command r = Inr k" using cmd_get_str_contents [OF assms(10)] by blast
  let ?s = "(dat_set_system_var c st dat_fpl_last t ^^ nat exec) s1"
  have "taskFlightPlan c st fd r heap t s = Inr (entry_cmds c r (command, args, exec, peri), ?s)"
    using s1(1) b k mode
    by (simp add: taskFlightPlan_def dat_get_fp_def i32_id [OF assms(2)] send_executions_run [OF k] entry_cmds_def
        entry_commands_def)
  then show ?thesis using set_last_times [OF s1(2) assms(2)] by blast
qed

text \<open>The task executes the plan: the run of the task is the run of the plan.\<close>

lemma seconds_run:
  assumes "length (cmd_list r) = cmd_max_entries c" "\<And>i. heap i = NUL"
  shows "Inv s p \<Longrightarrow> list_all (\<lambda>t. 0 < t \<and> in_i32 t) ts \<Longrightarrow> plan_fits due after ts p \<Longrightarrow>
    \<exists>s'. fp_seconds c st fd r heap ts s = Inr (fst (plan_run due after (entry_cmds c r) ts p), s') \<and>
      Inv s' (snd (plan_run due after (entry_cmds c r) ts p))"
proof (induction ts arbitrary: s p)
  case (Cons t ts)
  show ?case
  proof (cases "due p t")
    case None
    then show ?thesis using Cons second_none [of s p t r heap] by fastforce
  next
    case (Some e)
    obtain command args exec peri where e: "e = (command, args, exec, peri)" by (cases e)
    obtain s1 where "taskFlightPlan c st fd r heap t s = Inr (entry_cmds c r e, s1)" "Inv s1 (after p t)"
      using second_some [of s p t command args exec peri heap r] Cons.prems Some e assms by auto
    moreover obtain s2 where "fp_seconds c st fd r heap ts s1 = Inr (fst (plan_run due after (entry_cmds c r) ts (after p t)), s2)"
      "Inv s2 (snd (plan_run due after (entry_cmds c r) ts (after p t)))"
      using Cons.IH [OF calculation(2)] Cons.prems Some e by auto
    ultimately show ?thesis using Some by (simp add: split_def Let_def)
  qed
qed simp

end

section \<open>Properties\<close>

lemma send_executions_fplan:
  "send_executions c st r t k a n s = Inr (ks, s') \<Longrightarrow> fplan s' = fplan s"
proof (induction n arbitrary: s ks)
  case (Suc n)
  have "fplan (dat_set_system_var c st v x s) = fplan s" for v x
    by (simp add: dat_set_system_var_def cell_set_def Let_def)
  then show ?case using Suc by (auto simp: c_bind_Inr_iff Let_def split: prod.splits)
qed simp

text \<open>
  C33.  The flight plan in RAM executes at most one entry.  Whatever the plan holds, as long as it is well formed
  and no entry is due at time 0: once a second in which an entry was due has passed, the next second of
  the task blocks for ever, so no later entry is ever executed.
\<close>

theorem flight_plan_stops_after_first:
  assumes "fp_wf (fplan s)" "i32 t \<noteq> 0" "fp_at (i32 t) (fplan s) \<noteq> []" "\<not> fp_taken (fplan s)"
    and "taskFlightPlan c st fd r heap t s = Inr (ks, s')" "platform_of c \<noteq> AVR32" "storage_mode c = 0"
  shows "fp_seconds c st fd r heap (u # us) s' = Inl Deadlock"
proof -
  obtain q qs where q: "fp_at (i32 t) (fplan s) = q # qs" using assms(3) by (cases "fp_at (i32 t) (fplan s)") auto
  obtain f res where get: "dat_get_fp_ram (i32 t) (fplan s) = Inr (0, Some res, f)" and taken: "fp_taken f"
    using dat_get_fp_due [OF assms(1,4,2) q] by auto
  obtain k a ex per where res: "res = (k, a, ex, per)" by (cases res) auto
  obtain b args where "fix_fmt heap a = Inr b" "c_str b = Inr args"
    and run: "send_executions c st r t k args (nat ex) (s\<lparr> fplan := f \<rparr>) = Inr (ks, s')"
    using assms(5-7) get res by (auto simp: taskFlightPlan_def dat_get_fp_def Let_def c_bind_Inr_iff)
  have "fplan s' = f" using send_executions_fplan [OF run] by simp
  then show ?thesis using taken assms(6,7) by (simp add: taskFlightPlan_def Let_def dat_get_fp_def dat_get_fp_ram_def fp_take_def)
qed

text \<open>A plan with the command \<^verbatim>\<open>go\<close> at time 100.\<close>

definition fp_go :: "unit dat_state" where
  "fp_go = dat_zero\<lparr> fplan := \<lparr> data_base = \<lparr> unixtime = 100, fp_cmd = Block ''go'', fp_args = Block ''7,8'',
      executions = 1, periodical = 0 \<rparr> # replicate 24 fp_empty, fp_taken = False \<rparr> \<rparr>"

theorem flight_plan_stops_after_first_witness:
  "\<exists>ks s'. taskFlightPlan small_config no_storage no_fp_driver small_repo (\<lambda>_. NUL) 100 fp_go = Inr (ks, s') \<and>
     map c_params ks = [Some (''7 8'' @ [NUL])] \<and>
     fp_seconds small_config no_storage no_fp_driver small_repo (\<lambda>_. NUL) [101, 102] s' = Inl Deadlock"
proof -
  have wf: "fp_wf (fplan fp_go)" "fp_at (i32 100) (fplan fp_go) \<noteq> []" "\<not> fp_taken (fplan fp_go)" "i32 100 \<noteq> 0"
    by (simp_all add: fp_go_def fp_wf_def fp_slot_ok_def fp_empty_def fp_at_def in_i32_def i32_def)
  have os: "platform_of small_config \<noteq> AVR32" "storage_mode small_config = 0" by (simp_all add: small_config_def config_h_def)
  let ?run = "taskFlightPlan small_config no_storage no_fp_driver small_repo (\<lambda>_. NUL) 100 fp_go"
  have "(case ?run of Inr (ks, s') \<Rightarrow> map c_params ks = [Some (''7 8'' @ [NUL])] | Inl e \<Rightarrow> False)"
    by code_simp
  then obtain ks s' where run: "?run = Inr (ks, s')" "map c_params ks = [Some (''7 8'' @ [NUL])]"
    by (cases ?run) auto
  then show ?thesis
    using flight_plan_stops_after_first [OF wf(1,4,2,3) run(1) os, of 101 "[102]"] by (intro exI conjI)
qed

end
