(* ===== verification/TaskWatchdog.thy ===== *)
theory TaskWatchdog
  imports TaskCommon
begin

text \<open>
  The watchdog task (\<^verbatim>\<open>taskWatchdog.c\<close>): every second it counts up the software watchdog, which a ground
  command clears, resets the hardware watchdog periodically, and asks for a reset of the computer when
  the ground has been silent for too long.  \<^verbatim>\<open>main\<close> does not start it: the line is commented out.
\<close>

section \<open>One second\<close>

definition taskWatchdog ::
  "sch_config \<Rightarrow> 'x storage \<Rightarrow> cmd_repo \<Rightarrow> u32w \<Rightarrow> 'x dat_state \<Rightarrow> (cmd_t list \<times> u32w \<times> 'x dat_state) c_result" where
  "taskWatchdog c st r elapsed_obc_timer s =
     (let elapsed_obc_timer = elapsed_obc_timer + 1;
          elapsed_sw_timer = (word_of_int (dat_get_system_var c st dat_obc_sw_wdt s) + 1 :: u32w);
          s = dat_set_system_var c st dat_obc_sw_wdt (i32 (uint elapsed_sw_timer)) s;
          fire = elapsed_obc_timer > SCH_MAX_WDT_TIMER
      in c_bind (send_each c r (requests
             [(fire, ''obc_reset_wdt'', NoParams),
              (elapsed_sw_timer > SCH_MAX_GND_WDT_TIMER, ''obc_reset'', NoParams)]))
           (\<lambda>ks. Inr (ks, if fire then 0 else elapsed_obc_timer, s)))"

text \<open>Seconds without a ground command in between: the commands of the last one, the counter, the data.\<close>

fun watchdog_seconds ::
  "sch_config \<Rightarrow> 'x storage \<Rightarrow> cmd_repo \<Rightarrow> nat \<Rightarrow> 'x dat_state \<Rightarrow> (cmd_t list \<times> u32w \<times> 'x dat_state) c_result" where
  "watchdog_seconds c st r 0 s = Inr ([], 0, s)"
| "watchdog_seconds c st r (Suc n) s =
     c_bind (watchdog_seconds c st r n s) (\<lambda>(ks, t, s). taskWatchdog c st r t s)"

section \<open>Properties\<close>

lemma wdt_entries:
  "cmd_entry ''obc_reset_wdt'' ''obc_reset_wdt'' '''' 0 \<in> set (cmd_table c)"
  "cmd_entry ''obc_reset'' ''obc_reset'' '''' 0 \<in> set (cmd_table c)"
  by (simp_all add: cmd_table_def cmd_obc_table_def)

lemma u32w_less_of_nat: "n < 4294967296 \<Longrightarrow> m < 4294967296 \<Longrightarrow> (word_of_nat m :: u32w) < word_of_nat n \<longleftrightarrow> m < n"
  by (simp add: word_less_nat_alt unat_of_nat take_bit_nat_eq_self)

lemma watchdog_second:
  assumes "table_built c r" "dat_inv c st s" "dat_get_system_var c st dat_obc_sw_wdt s = int n" "n < 2147483647" "k \<le> 5"
  shows "\<exists>ks s'. taskWatchdog c st r (word_of_nat k) s = Inr (ks, word_of_nat (if k = 5 then 0 else k + 1), s') \<and>
    dat_inv c st s' \<and> dat_get_system_var c st dat_obc_sw_wdt s' = int (n + 1) \<and>
    map c_function ks = (if k = 5 then [''obc_reset_wdt''] else []) @ (if 172800 < n + 1 then [''obc_reset''] else [])"
proof -
  let ?sw = "word_of_int (dat_get_system_var c st dat_obc_sw_wdt s) + 1 :: u32w"
  let ?q = "requests [(word_of_nat k + 1 > (5 :: u32w), ''obc_reset_wdt'', NoParams), (?sw > 172800, ''obc_reset'', NoParams)]"
  have sw: "?sw = word_of_nat (n + 1)" unfolding assms(3) by simp
  have u: "i32 (uint ?sw) = int (n + 1)"
  proof -
    have "unat (word_of_nat (n + 1) :: u32w) = n + 1"
      using assms(4) by (simp only: unat_of_nat) (simp add: take_bit_nat_eq_self)
    then have "uint (word_of_nat (n + 1) :: u32w) = int (n + 1)"
      by (metis of_nat_unat)
    then show ?thesis unfolding sw using assms(4) by (simp only:) (simp add: i32_id in_i32_def)
  qed
  have fire: "word_of_nat k + 1 > (5 :: u32w) \<longleftrightarrow> k = 5"
    using u32w_less_of_nat [of "k + 1" 5] assms(5) by (auto simp: add.commute)
  have gnd: "?sw > 172800 \<longleftrightarrow> 172800 < n + 1"
    unfolding sw using u32w_less_of_nat [of "n + 1" 172800] assms(4) by simp
  have "\<forall>q \<in> set ?q. request_fits c q" by (simp add: request_fits_def)
  from send_each_built [OF assms(1) this] obtain ks where
    ks: "send_each c r ?q = Inr ks" "map forget_id ks = concat (map (cmds_for c) ?q)" by blast
  have "map c_function ks = map c_function (map forget_id ks)" by (simp add: forget_id_def)
  also have "\<dots> = (if k = 5 then [''obc_reset_wdt''] else []) @ (if 172800 < n + 1 then [''obc_reset''] else [])"
    unfolding ks(2) using cmds_for_entry [OF wdt_entries(1)] cmds_for_entry [OF wdt_entries(2)]
    by (simp add: fire gnd del: of_nat_add of_nat_Suc)
  finally show ?thesis
    using ks(1) u fire assms(2) i32_range [of "uint ?sw"]
    by (auto simp: taskWatchdog_def Let_def dat_simps)
qed

text \<open>
  The ground watchdog.  When the counter starts at 0 and no ground command clears it, then after \<open>n\<close>
  seconds it is \<open>n\<close>; the hardware watchdog is reset exactly in every sixth second, and the reset of the
  computer is requested in every second after the 172800th (48 hours) and in none before.
\<close>

lemma watchdog_schedule:
  assumes "table_built c r" "dat_inv c st s" "dat_get_system_var c st dat_obc_sw_wdt s = 0" "n < 2147483647"
  shows "\<exists>ks t s'. watchdog_seconds c st r n s = Inr (ks, t, s') \<and>
    dat_get_system_var c st dat_obc_sw_wdt s' = int n \<and>
    map c_function ks = (if 0 < n \<and> n mod 6 = 0 then [''obc_reset_wdt''] else []) @
      (if 172800 < n then [''obc_reset''] else [])"
proof -
  have "\<exists>ks s'. watchdog_seconds c st r n s = Inr (ks, word_of_nat (n mod 6), s') \<and> dat_inv c st s' \<and>
    dat_get_system_var c st dat_obc_sw_wdt s' = int n \<and>
    map c_function ks = (if 0 < n \<and> n mod 6 = 0 then [''obc_reset_wdt''] else []) @
      (if 172800 < n then [''obc_reset''] else [])"
    using assms(4)
  proof (induction n)
    case 0
    then show ?case using assms(2,3) by simp
  next
    case (Suc n)
    then obtain ks s1 where s1: "watchdog_seconds c st r n s = Inr (ks, word_of_nat (n mod 6), s1)"
      "dat_inv c st s1" "dat_get_system_var c st dat_obc_sw_wdt s1 = int n" by auto
    have "n mod 6 \<le> 5" "Suc n mod 6 = (if n mod 6 = 5 then 0 else n mod 6 + 1)" by presburger+
    then show ?case using watchdog_second [OF assms(1) s1(2,3), of "n mod 6"] Suc.prems s1(1) by auto
  qed
  then show ?thesis by blast
qed

lemma watchdog_schedule_witness:
  "\<exists>ks t s'. watchdog_seconds config_h no_storage (snd (the (cmd_repo_init config_h cmd_repo_start))) 172802 dat_zero =
     Inr (ks, t, s') \<and> map c_function ks = [''obc_reset'']"
proof -
  have "dat_get_system_var config_h no_storage dat_obc_sw_wdt dat_zero = 0"
    by (simp add: dat_get_system_var_def cell_get_def dat_zero_def config_h_def)
  then show ?thesis
    using watchdog_schedule [OF cmd_repo_init_built [OF config_h_start(1,3)] dat_zero_inv, of 172802] by auto
qed

end
