(* ===== verification/TaskConsole.thy ===== *)
theory TaskConsole
  imports TaskCommon
begin

text \<open>
  The console task (\<^verbatim>\<open>taskConsole.c\<close>): it prints the table of commands once and then reads standard
  input line by line, parses each line and sends the command.  Standard input is the text not yet read;
  after its end \<^verbatim>\<open>fgets\<close> returns NULL at once, and the task goes on asking four times a second.
\<close>

section \<open>The task\<close>

abbreviation (input) newline :: char where "newline \<equiv> CHR 0x0A"

definition fgets :: "nat \<Rightarrow> string \<Rightarrow> string option \<times> string" where
  "fgets n inp =
     (if inp = [] then (None, [])
      else let line = take (n - 1) (takeWhile (\<lambda>ch. ch \<noteq> newline) inp @ take 1 (dropWhile (\<lambda>ch. ch \<noteq> newline) inp))
           in (Some line, drop (length line) inp))"

definition console_init :: "cmd_repo \<Rightarrow> (int \<times> cmd_repo) c_result" where
  "console_init r = c_bind (cmd_print_all r) (\<lambda>(out, r). Inr (0, r))"

text \<open>The buffer and 0, or -1 when nothing was read; the buffer ends at the first NUL of the input.\<close>

definition console_read :: "nat \<Rightarrow> string \<Rightarrow> int \<times> string \<times> string" where
  "console_read len inp =
     (case fgets len inp of
        (None, rest) \<Rightarrow> (-1, [], rest)
      | (Some b, rest) \<Rightarrow> (0, takeWhile (\<lambda>ch. ch \<noteq> NUL) b, rest))"

text \<open>One round of the loop; \<open>dbg\<close> says that the build logs at debug level, where the name is looked up.\<close>

definition taskConsole :: "sch_config \<Rightarrow> bool \<Rightarrow> cmd_repo \<Rightarrow> string \<Rightarrow> (cmd_t list \<times> string) c_result" where
  "taskConsole c dbg r inp =
     (let (rc, buffer, rest) = console_read SCH_BUFF_MAX_LEN inp in
      if rc \<noteq> 0 then Inr ([], rest)
      else c_bind (cmd_parse_from_str c buffer r) (\<lambda>new_cmd.
        case new_cmd of
          None \<Rightarrow> Inr ([], rest)
        | Some k \<Rightarrow>
            c_bind (if dbg then cmd_get_name c (c_id k) r else Inr None) (\<lambda>name. Inr ([k], rest))))"

fun console_rounds :: "sch_config \<Rightarrow> bool \<Rightarrow> cmd_repo \<Rightarrow> nat \<Rightarrow> string \<Rightarrow> (cmd_t list \<times> string) c_result" where
  "console_rounds c dbg r 0 inp = Inr ([], inp)"
| "console_rounds c dbg r (Suc n) inp =
     c_bind (taskConsole c dbg r inp) (\<lambda>(ks, rest).
     c_bind (console_rounds c dbg r n rest) (\<lambda>(ls, rest). Inr (ks @ ls, rest)))"

section \<open>What the console sends\<close>

definition console_line :: "string \<Rightarrow> bool" where
  "console_line l \<longleftrightarrow> newline \<notin> set l \<and> NUL \<notin> set l \<and> length l + 1 < SCH_BUFF_MAX_LEN"

definition console_text :: "string list \<Rightarrow> string" where
  "console_text ls = concat (map (\<lambda>l. l @ [newline]) ls)"

lemma fgets_line:
  assumes "console_line l"
  shows "fgets 256 (l @ newline # inp) = (Some (l @ [newline]), inp)"
proof -
  have "takeWhile (\<lambda>ch. ch \<noteq> newline) (l @ newline # inp) = l"
    "dropWhile (\<lambda>ch. ch \<noteq> newline) (l @ newline # inp) = newline # inp"
    using assms by (auto simp: console_line_def takeWhile_append dropWhile_append)
  moreover have "Suc 0 \<le> 255 - length l" "min (Suc 0) (255 - length l) = 1"
    using assms by (auto simp: console_line_def)
  ultimately show ?thesis by (simp add: fgets_def)
qed

lemma console_read_line:
  assumes "console_line l"
  shows "console_read 256 (l @ newline # inp) = (0, l @ [newline], inp)"
proof -
  have "takeWhile (\<lambda>ch. ch \<noteq> NUL) (l @ [newline]) = l @ [newline]"
    using assms by (intro takeWhile_eq_all_conv [THEN iffD2]) (auto simp: console_line_def)
  then show ?thesis by (simp add: console_read_def fgets_line [OF assms])
qed

text \<open>A command the parser found has the index of a slot of the table, so its name can be looked up.\<close>

lemma cmd_get_str_id:
  assumes "length (cmd_list r) = cmd_max_entries c" "cmd_get_str c w r = Inr (Some k)"
  shows "\<exists>name. cmd_get_name c (c_id k) r = Inr name"
  using assms cmd_get_str_find [OF assms(1), of w]
  by (auto simp: cmd_get_name_def cmd_of_def find_Some_iff)

lemma parsed_id:
  assumes "length (cmd_list r) = cmd_max_entries c" "cmd_parse_from_str c l r = Inr (Some k)"
  shows "\<exists>name. cmd_get_name c (c_id k) r = Inr name"
proof -
  obtain w k' where "cmd_get_str c w r = Inr (Some k')" "c_id k' = c_id k"
    using assms(2) by (auto simp: cmd_parse_from_str_def c_bind_def cmd_add_params_str_def Let_def
        split: if_splits option.splits list.splits scan_val.splits prod.splits sum.splits)
  then show ?thesis using cmd_get_str_id [OF assms(1)] by metis
qed

lemma taskConsole_line:
  assumes "length (cmd_list r) = cmd_max_entries c" "console_line l"
  shows "taskConsole c dbg r (l @ newline # inp) =
    c_bind (parse_and_send c r (l @ [newline])) (\<lambda>ks. Inr (ks, inp))"
proof (cases "cmd_parse_from_str c (l @ [newline]) r")
  case (Inr res)
  then show ?thesis
    using parsed_id [OF assms(1), of "l @ [newline]"]
    by (cases res) (auto simp: taskConsole_def console_read_line [OF assms(2)] parse_and_send_def)
qed (simp add: taskConsole_def console_read_line [OF assms(2)] parse_and_send_def)

text \<open>
  The lines of the input are parsed one after the other, each with its newline, and their commands sent
  in that order.
\<close>

lemma console_rounds_lines:
  assumes "length (cmd_list r) = cmd_max_entries c" "list_all console_line ls"
  shows "\<exists>kss. c_mapM (parse_and_send c r) (map (\<lambda>l. l @ [newline]) ls) = Inr kss \<and>
    console_rounds c dbg r (length ls) (console_text ls @ inp) = Inr (concat kss, inp)"
  using assms(2)
proof (induction ls)
  case (Cons l ls)
  then obtain kss where "c_mapM (parse_and_send c r) (map (\<lambda>l. l @ [newline]) ls) = Inr kss"
    "console_rounds c dbg r (length ls) (console_text ls @ inp) = Inr (concat kss, inp)" by auto
  moreover obtain ks where "parse_and_send c r (l @ [newline]) = Inr ks"
    using parse_and_send_built [OF assms(1)] by blast
  ultimately show ?case
    using Cons.prems taskConsole_line [OF assms(1), of l dbg "console_text ls @ inp"]
    by (simp add: console_text_def)
qed (simp add: console_text_def)

end
