(* ===== verification/OsLayer.thy ===== *)
theory OsLayer
  imports Prelude
begin

text \<open>
  The operating-system layer for Linux (\<^verbatim>\<open>src/os/Linux\<close>): the ring-buffer queues between tasks
  (\<^verbatim>\<open>pthread_queue.c\<close>, \<^verbatim>\<open>osQueue.c\<close>), the mutexes (\<^verbatim>\<open>osSemphr.c\<close>) and the periodic delays
  (\<^verbatim>\<open>osDelay.c\<close>).  Threads, mutexes, condition variables and the clock are the operating system's:
  a clock reading is an argument, and what a wait on a condition variable returns, with the queue
  as the other threads left it, is a list the operations consume.
\<close>

section \<open>Queues\<close>

text \<open>\<^verbatim>\<open>os_pthread_queue_t\<close>; the buffer is the list of its slots, \<open>q_size\<close> of them.\<close>

record 'a os_pthread_queue =
  q_buffer :: "'a list"
  q_size :: nat
  q_items :: nat
  q_in :: nat
  q_out :: nat

text \<open>\<open>junk\<close> is what \<^verbatim>\<open>malloc\<close> leaves in the buffer.\<close>

definition os_pthread_queue_create :: "(nat \<Rightarrow> 'a) \<Rightarrow> nat \<Rightarrow> 'a os_pthread_queue" where
  "os_pthread_queue_create junk len =
     \<lparr> q_buffer = map junk [0..<len], q_size = len, q_items = 0, q_in = 0, q_out = 0 \<rparr>"

abbreviation (input) PTHREAD_QUEUE_ERROR :: int where "PTHREAD_QUEUE_ERROR \<equiv> 0"
abbreviation (input) PTHREAD_QUEUE_EMPTY :: int where "PTHREAD_QUEUE_EMPTY \<equiv> 0"
abbreviation (input) PTHREAD_QUEUE_FULL :: int where "PTHREAD_QUEUE_FULL \<equiv> 0"
abbreviation (input) PTHREAD_QUEUE_OK :: int where "PTHREAD_QUEUE_OK \<equiv> 1"

text \<open>Seconds and nanoseconds of a \<^verbatim>\<open>struct timespec\<close>; both are 64 bits wide on the target.\<close>

type_synonym timespec = "int \<times> int"

text \<open>The deadline of a send or receive.  The milliseconds are a \<^verbatim>\<open>uint32_t\<close>.\<close>

definition queue_deadline :: "timespec \<Rightarrow> u32w \<Rightarrow> timespec" where
  "queue_deadline ts timeout =
     (let sec = timeout div 1000;
          nsec = (timeout - 1000 * sec) * 1000000;
          s = fst ts + uint sec;
          s' = (if snd ts + uint nsec > 1000000000 then s + 1 else s)
      in (s', (snd ts + uint nsec) mod 1000000000))"

text \<open>The critical sections that move an item.\<close>

definition queue_put :: "'a \<Rightarrow> 'a os_pthread_queue \<Rightarrow> 'a os_pthread_queue" where
  "queue_put v q = q\<lparr> q_buffer := (q_buffer q)[q_in q := v], q_items := q_items q + 1,
                      q_in := (q_in q + 1) mod q_size q \<rparr>"

definition queue_get :: "'a os_pthread_queue \<Rightarrow> 'a \<times> 'a os_pthread_queue" where
  "queue_get q = (q_buffer q ! q_out q,
                  q\<lparr> q_items := q_items q - 1, q_out := (q_out q + 1) mod q_size q \<rparr>)"

text \<open>
  The loops around the condition variable.  An element \<open>(ret, q')\<close> of the list is one
  \<^verbatim>\<open>pthread_cond_timedwait\<close>: its result and the queue when the mutex is held again.  \<open>None\<close> is a
  caller still waiting when the list is used up.
\<close>

fun send_loop ::
  "'a \<Rightarrow> (int \<times> 'a os_pthread_queue) list \<Rightarrow> 'a os_pthread_queue \<Rightarrow> (int \<times> 'a os_pthread_queue) option" where
  "send_loop v [] q =
     (if q_items q = q_size q then None else Some (PTHREAD_QUEUE_OK, queue_put v q))"
| "send_loop v ((ret, q') # ws) q =
     (if q_items q = q_size q then
        if ret \<noteq> 0 then Some (PTHREAD_QUEUE_FULL, q') else send_loop v ws q'
      else Some (PTHREAD_QUEUE_OK, queue_put v q))"

fun receive_loop ::
  "(int \<times> 'a os_pthread_queue) list \<Rightarrow> 'a os_pthread_queue \<Rightarrow>
     (int \<times> 'a option \<times> 'a os_pthread_queue) option" where
  "receive_loop [] q =
     (if q_items q = 0 then None
      else let (v, q') = queue_get q in Some (PTHREAD_QUEUE_OK, Some v, q'))"
| "receive_loop ((ret, q') # ws) q =
     (if q_items q = 0 then
        if ret \<noteq> 0 then Some (PTHREAD_QUEUE_EMPTY, None, q') else receive_loop ws q'
      else let (v, q') = queue_get q in Some (PTHREAD_QUEUE_OK, Some v, q'))"

text \<open>
  The clock is read before the lock is taken; when it fails nothing is done.  The waits may
  depend on the deadline.
\<close>

definition os_pthread_queue_send ::
  "timespec option \<Rightarrow> (timespec \<Rightarrow> (int \<times> 'a os_pthread_queue) list) \<Rightarrow> 'a os_pthread_queue \<Rightarrow> 'a \<Rightarrow>
     u32w \<Rightarrow> (int \<times> 'a os_pthread_queue) option" where
  "os_pthread_queue_send clock waits q value timeout =
     (case clock of
        None \<Rightarrow> Some (PTHREAD_QUEUE_ERROR, q)
      | Some now \<Rightarrow> send_loop value (waits (queue_deadline now timeout)) q)"

definition os_pthread_queue_receive ::
  "timespec option \<Rightarrow> (timespec \<Rightarrow> (int \<times> 'a os_pthread_queue) list) \<Rightarrow> 'a os_pthread_queue \<Rightarrow>
     u32w \<Rightarrow> (int \<times> 'a option \<times> 'a os_pthread_queue) option" where
  "os_pthread_queue_receive clock waits q timeout =
     (case clock of
        None \<Rightarrow> Some (PTHREAD_QUEUE_ERROR, None, q)
      | Some now \<Rightarrow> receive_loop (waits (queue_deadline now timeout)) q)"

text \<open>The portable names (\<^verbatim>\<open>osQueue.c\<close>).\<close>

definition osQueueCreate :: "(nat \<Rightarrow> 'a) \<Rightarrow> nat \<Rightarrow> 'a os_pthread_queue" where
  "osQueueCreate junk len = os_pthread_queue_create junk len"

definition osQueueSend ::
  "timespec option \<Rightarrow> (timespec \<Rightarrow> (int \<times> 'a os_pthread_queue) list) \<Rightarrow> 'a os_pthread_queue \<Rightarrow> 'a \<Rightarrow>
     u32w \<Rightarrow> (int \<times> 'a os_pthread_queue) option" where
  "osQueueSend clock waits queue value timeout = os_pthread_queue_send clock waits queue value timeout"

definition osQueueReceive ::
  "timespec option \<Rightarrow> (timespec \<Rightarrow> (int \<times> 'a os_pthread_queue) list) \<Rightarrow> 'a os_pthread_queue \<Rightarrow>
     u32w \<Rightarrow> (int \<times> 'a option \<times> 'a os_pthread_queue) option" where
  "osQueueReceive clock waits queue timeout = os_pthread_queue_receive clock waits queue timeout"

section \<open>Mutexes\<close>

abbreviation (input) CSP_SEMAPHORE_OK :: int where "CSP_SEMAPHORE_OK \<equiv> 1"
abbreviation (input) CSP_SEMAPHORE_ERROR :: int where "CSP_SEMAPHORE_ERROR \<equiv> 2"
abbreviation (input) portMAX_DELAY :: u32w where "portMAX_DELAY \<equiv> 0xFFFFFFFF"

text \<open>
  The results of the pthread calls are arguments.  A take with \<^verbatim>\<open>portMAX_DELAY\<close> is a plain lock,
  any other one a timed lock with its deadline.
\<close>

datatype lock_call = MutexLock | MutexTimedlock timespec

definition semaphore_deadline :: "timespec \<Rightarrow> u32w \<Rightarrow> timespec" where
  "semaphore_deadline ts timeout =
     (let sec = timeout div 1000;
          nsec = (timeout - 1000 * sec) * 1000000;
          s = fst ts + uint sec;
          s' = (if snd ts + uint nsec \<ge> 1000000000 then s + 1 else s)
      in (s', (snd ts + uint nsec) mod 1000000000))"

definition osSemaphoreCreate :: "int \<Rightarrow> int" where
  "osSemaphoreCreate init = (if init = 0 then CSP_SEMAPHORE_OK else CSP_SEMAPHORE_ERROR)"

definition osSemaphoreTake :: "timespec option \<Rightarrow> (lock_call \<Rightarrow> int) \<Rightarrow> u32w \<Rightarrow> int" where
  "osSemaphoreTake clock lock timeout =
     (if timeout = portMAX_DELAY then
        if lock MutexLock \<noteq> 0 then CSP_SEMAPHORE_ERROR else CSP_SEMAPHORE_OK
      else case clock of
        None \<Rightarrow> CSP_SEMAPHORE_ERROR
      | Some now \<Rightarrow>
          if lock (MutexTimedlock (semaphore_deadline now timeout)) \<noteq> 0
          then CSP_SEMAPHORE_ERROR else CSP_SEMAPHORE_OK)"

definition osSemaphoreGiven :: "int \<Rightarrow> int" where
  "osSemaphoreGiven unlock = (if unlock = 0 then CSP_SEMAPHORE_OK else CSP_SEMAPHORE_ERROR)"

section \<open>Delays\<close>

text \<open>Ticks are microseconds in a 32-bit counter, which wraps every 71 minutes.\<close>

definition osDefineTime :: "u32w \<Rightarrow> u32w" where
  "osDefineTime mseconds = mseconds * 1000"

definition osTaskGetTickCount :: "timespec \<Rightarrow> u32w" where
  "osTaskGetTickCount time = word_of_int (fst time * 1000000 + snd time sdiv 1000)"

text \<open>The microseconds passed to \<^verbatim>\<open>usleep\<close>.\<close>

definition osDelay :: "u32w \<Rightarrow> u32w" where
  "osDelay mseconds = mseconds * 1000"

text \<open>
  \<^verbatim>\<open>osTaskDelayUntil\<close>: \<open>c_usec\<close> is the first reading of the tick count, \<open>end_usec\<close> the one at the end.
  The result is the time slept, if any, and the new \<^verbatim>\<open>*lastTime\<close>.
\<close>

definition osTaskDelayUntil :: "u32w \<Rightarrow> u32w \<Rightarrow> u32w \<Rightarrow> u32w \<Rightarrow> u32w option \<times> u32w" where
  "osTaskDelayUntil c_usec end_usec lastTime mseconds =
     (let d_usec = c_usec - lastTime; s_usec = osDefineTime mseconds in
      if d_usec > s_usec then (None, end_usec - (d_usec - s_usec))
      else (Some (osDelay ((s_usec - d_usec) div 1000)), end_usec))"

section \<open>A bounded queue\<close>

text \<open>What the tasks at both ends of a queue rely on.\<close>

locale bounded_fifo =
  fixes inv :: "'q \<Rightarrow> bool"
    and items :: "'q \<Rightarrow> 'a list"
    and capacity :: "'q \<Rightarrow> nat"
    and put :: "'a \<Rightarrow> 'q \<Rightarrow> 'q"
    and get :: "'q \<Rightarrow> 'a \<times> 'q"
  assumes bound: "inv q \<Longrightarrow> length (items q) \<le> capacity q"
    and inv_put: "inv q \<Longrightarrow> length (items q) < capacity q \<Longrightarrow> inv (put v q)"
    and items_put: "inv q \<Longrightarrow> length (items q) < capacity q \<Longrightarrow> items (put v q) = items q @ [v]"
    and capacity_put: "capacity (put v q) = capacity q"
    and inv_get: "inv q \<Longrightarrow> items q \<noteq> [] \<Longrightarrow> inv (snd (get q))"
    and items_get: "inv q \<Longrightarrow> items q \<noteq> [] \<Longrightarrow> items q = fst (get q) # items (snd (get q))"
    and capacity_get: "capacity (snd (get q)) = capacity q"
begin

lemma put_all:
  "inv q \<Longrightarrow> length (items q) + length vs \<le> capacity q \<Longrightarrow>
     inv (fold put vs q) \<and> items (fold put vs q) = items q @ vs \<and> capacity (fold put vs q) = capacity q"
proof (induction vs arbitrary: q)
  case (Cons v vs)
  then have "inv (put v q)" "items (put v q) = items q @ [v]" "capacity (put v q) = capacity q"
    by (simp_all add: inv_put items_put capacity_put)
  then show ?case using Cons.IH [of "put v q"] Cons.prems(2) by simp
qed simp

text \<open>A value put into a queue leaves it after exactly the values already there.\<close>

lemma put_then_gets:
  assumes "inv q" "items q = us @ v # ws"
  shows "\<exists>q'. (((\<lambda>p. snd (get p)) ^^ length us) q) = q' \<and> inv q' \<and> fst (get q') = v \<and>
    items (snd (get q')) = ws \<and> capacity q' = capacity q"
  using assms
proof (induction us arbitrary: q)
  case Nil
  then show ?case using items_get [of q] by simp
next
  case (Cons u us)
  then have ne: "items q \<noteq> []" by simp
  have "items (snd (get q)) = us @ v # ws" using items_get [OF Cons.prems(1) ne] Cons.prems(2) by simp
  from Cons.IH [OF inv_get [OF Cons.prems(1) ne] this] show ?case
    by (simp add: funpow_Suc_right capacity_get del: funpow.simps)
qed

end

section \<open>The ring buffer is a bounded queue\<close>

definition queue_inv :: "'a os_pthread_queue \<Rightarrow> bool" where
  "queue_inv q \<longleftrightarrow> length (q_buffer q) = q_size q \<and> 0 < q_size q \<and> q_items q \<le> q_size q \<and>
     q_out q < q_size q \<and> q_in q = (q_out q + q_items q) mod q_size q"

definition queue_list :: "'a os_pthread_queue \<Rightarrow> 'a list" where
  "queue_list q = map (\<lambda>k. q_buffer q ! ((q_out q + k) mod q_size q)) [0..<q_items q]"

lemma length_queue_list [simp]: "length (queue_list q) = q_items q"
  by (simp add: queue_list_def)

lemma ring_slots_differ:
  fixes a k m n :: nat
  assumes "k < m" "m < n"
  shows "(a + k) mod n \<noteq> (a + m) mod n"
proof
  assume "(a + k) mod n = (a + m) mod n"
  then have "n dvd (a + m) - (a + k)"
    using assms mod_eq_dvd_iff_nat [of "a + k" "a + m" n] by simp
  then show False using assms by (auto dest: dvd_imp_le)
qed

lemma queue_inv_create: "0 < n \<Longrightarrow> queue_inv (os_pthread_queue_create junk n)"
  by (simp add: queue_inv_def os_pthread_queue_create_def)

interpretation rb: bounded_fifo queue_inv queue_list q_size queue_put queue_get
proof (unfold_locales, goal_cases)
  case (1 q)
  then show ?case by (simp add: queue_inv_def)
next
  case (2 q v)
  then show ?case by (simp add: queue_inv_def queue_put_def mod_Suc_eq add.assoc)
next
  case (3 q v)
  have "\<forall>k < q_items q. q_in q \<noteq> (q_out q + k) mod q_size q"
    using ring_slots_differ [of _ "q_items q" "q_size q" "q_out q"] 3
    by (auto simp: queue_inv_def dest!: sym [of "(q_out q + q_items q) mod q_size q"])
  moreover have "q_in q < length (q_buffer q)" "(q_out q + q_items q) mod q_size q = q_in q"
    using 3 by (simp_all add: queue_inv_def)
  ultimately show ?case
    by (simp add: queue_list_def queue_put_def nth_list_update_if)
next
  case (4 v q)
  then show ?case by (simp add: queue_put_def)
next
  case (5 q)
  then have "(Suc (q_out q) mod q_size q + (q_items q - 1)) mod q_size q =
      (q_out q + q_items q) mod q_size q"
    by (cases "q_items q") (simp_all add: mod_add_left_eq queue_list_def)
  then show ?case using 5 by (auto simp: queue_inv_def queue_get_def)
next
  case (6 q)
  then have pos: "0 < q_items q" by (cases "q_items q") (simp_all add: queue_list_def)
  then have "[0..<q_items q] = 0 # map Suc [0..<q_items q - 1]"
    by (simp add: map_Suc_upt upt_conv_Cons)
  then show ?case using 6(1)
    by (simp add: queue_list_def queue_get_def queue_inv_def mod_add_left_eq)
next
  case (7 q)
  then show ?case by (simp add: queue_get_def)
qed


section \<open>Sends and receives\<close>

lemma queue_put_ok:
  assumes "queue_inv q" "q_items q \<noteq> q_size q"
  shows "q_items q < q_size q" "queue_inv (queue_put v q)" "queue_list (queue_put v q) = queue_list q @ [v]"
  using assms rb.bound [of q] rb.inv_put [of q v] rb.items_put [of q v] by simp_all

lemma queue_get_ok:
  assumes "queue_inv q" "0 < q_items q"
  shows "queue_inv (snd (queue_get q))" "queue_list q = fst (queue_get q) # queue_list (snd (queue_get q))"
proof -
  have ne: "queue_list q \<noteq> []" using assms(2) length_queue_list [of q] by force
  show "queue_inv (snd (queue_get q))" by (rule rb.inv_get [OF assms(1) ne])
  show "queue_list q = fst (queue_get q) # queue_list (snd (queue_get q))"
    by (rule rb.items_get [OF assms(1) ne])
qed

lemma send_loop_returns: "(\<exists>(ret, p) \<in> set ws. ret \<noteq> 0) \<Longrightarrow> \<exists>r. send_loop v ws q = Some r"
  by (induction v ws q rule: send_loop.induct) auto

lemma receive_loop_returns: "(\<exists>(ret, p) \<in> set ws. ret \<noteq> 0) \<Longrightarrow> \<exists>r. receive_loop ws q = Some r"
  by (induction ws q rule: receive_loop.induct) (auto simp: Let_def split: prod.splits)

lemma send_loop_spec:
  assumes "queue_inv q" "\<forall>p \<in> snd ` set ws. queue_inv p" "send_loop v ws q = Some (rc, q')"
  shows "\<exists>p \<in> {q} \<union> snd ` set ws. queue_inv q' \<and>
      (rc = PTHREAD_QUEUE_OK \<and> length (queue_list p) < q_size p \<and> queue_list q' = queue_list p @ [v] \<or>
       rc = PTHREAD_QUEUE_FULL \<and> q' = p)"
  using assms
  by (induction v ws q rule: send_loop.induct) (auto simp: queue_put_ok split: if_splits)

lemma receive_loop_spec:
  assumes "queue_inv q" "\<forall>p \<in> snd ` set ws. queue_inv p" "receive_loop ws q = Some (rc, res, q')"
  shows "\<exists>p \<in> {q} \<union> snd ` set ws. queue_inv q' \<and>
      (rc = PTHREAD_QUEUE_OK \<and> (\<exists>v. res = Some v \<and> queue_list p = v # queue_list q') \<or>
       rc = PTHREAD_QUEUE_EMPTY \<and> res = None \<and> q' = p)"
  using assms
proof (induction ws q rule: receive_loop.induct)
  case (1 q)
  then show ?case using queue_get_ok [of q] by (auto simp: Let_def split: if_splits prod.splits)
next
  case (2 ret p ws q)
  then show ?case using queue_get_ok [of q] by (auto simp: Let_def split: if_splits prod.splits)
qed





section \<open>Deadlines and delays\<close>

definition nanos :: "timespec \<Rightarrow> int" where
  "nanos ts = fst ts * 1000000000 + snd ts"

lemma word_div_1000:
  fixes t :: u32w
  shows "uint (t div 1000) = uint t div 1000"
    "uint ((t - 1000 * (t div 1000)) * 1000000) = (uint t mod 1000) * 1000000"
proof -
  show d: "uint (t div 1000) = uint t div 1000" by (simp add: uint_div)
  have e: "t - 1000 * (t div 1000) = t mod 1000"
    by (metis add_diff_cancel_left' mult_div_mod_eq)
  have m: "uint (t mod 1000) = uint t mod 1000" by (simp add: uint_mod)
  moreover have "uint t mod 1000 < 1000" by simp
  ultimately have "uint (t mod 1000) * uint (1000000 :: u32w) < 2 ^ LENGTH(32)"
    by simp
  then have "uint (t mod 1000 * 1000000) = uint (t mod 1000) * uint (1000000 :: u32w)"
    by (simp only: uint_mult_lem)
  then show "uint ((t - 1000 * (t div 1000)) * 1000000) = (uint t mod 1000) * 1000000"
    unfolding e by (simp add: m)
qed

lemma small_mod:
  fixes x :: int
  assumes "0 \<le> x" "x < 2000000000"
  shows "x mod 1000000000 = (if x < 1000000000 then x else x - 1000000000)"
proof (cases "x < 1000000000")
  case False
  then have "(x - 1000000000) mod 1000000000 = x - 1000000000"
    using assms by (intro mod_pos_pos_trivial) simp_all
  moreover have "(x - 1000000000) mod 1000000000 = x mod 1000000000"
    by (metis minus_mod_self2)
  ultimately show ?thesis using False by simp
qed (use assms in simp)

text \<open>
  Deadlines.  The deadline a semaphore passes to the system is exactly the timeout after the
  clock reading, with the nanoseconds in range.  A queue computes the same one except when the
  nanoseconds add up to exactly one second: then its deadline is one second too early.
\<close>

lemma deadlines_spec:
  assumes "0 \<le> snd now" "snd now < 1000000000"
  shows "nanos (semaphore_deadline now t) = nanos now + uint t * 1000000 \<and>
    (0 \<le> snd (queue_deadline now t) \<and> snd (queue_deadline now t) < 1000000000) \<and>
    nanos (queue_deadline now t) = nanos now + uint t * 1000000 -
      (if snd now + (uint t mod 1000) * 1000000 = 1000000000 then 1000000000 else 0)"
proof -
  let ?m = "uint t mod 1000 * 1000000"
  have "uint t mod 1000 \<le> 999" using pos_mod_bound [of 1000 "uint t"] by linarith
  then have m: "0 \<le> ?m" "?m \<le> 999000000" by simp_all
  have t: "uint t * 1000000 = uint t div 1000 * 1000000000 + ?m"
    using div_mult_mod_eq [of "uint t" 1000] by linarith
  have md: "(snd now + ?m) mod 1000000000 =
      (if snd now + ?m < 1000000000 then snd now + ?m else snd now + ?m - 1000000000)"
    using small_mod [of "snd now + ?m"] assms m by simp
  have q: "queue_deadline now t =
      (fst now + uint t div 1000 + (if snd now + ?m > 1000000000 then 1 else 0), (snd now + ?m) mod 1000000000)"
    unfolding queue_deadline_def Let_def word_div_1000 by simp
  have s: "semaphore_deadline now t =
      (fst now + uint t div 1000 + (if snd now + ?m \<ge> 1000000000 then 1 else 0), (snd now + ?m) mod 1000000000)"
    unfolding semaphore_deadline_def Let_def word_div_1000 by simp
  have "nanos (semaphore_deadline now t) = nanos now + uint t * 1000000"
    unfolding s nanos_def t md by simp
  moreover have "nanos (queue_deadline now t) = nanos now + uint t * 1000000 -
      (if snd now + ?m = 1000000000 then 1000000000 else 0)"
    unfolding q nanos_def t md by simp
  ultimately show ?thesis by (simp add: q)
qed

lemma deadlines_spec_witness:
  "nanos (semaphore_deadline (10, 999000000) 1001) = 12000000000 \<and>
   nanos (queue_deadline (10, 999000000) 1001) = 11000000000 \<and>
   nanos (queue_deadline (10, 999000001) 1001) = 12000000001"
  using deadlines_spec [of "(10, 999000000)" 1001] deadlines_spec [of "(10, 999000001)" 1001]
  by (simp add: nanos_def)

lemma unat_of_nat_diff:
  assumes "t0 \<le> t1" "t1 - t0 < 4294967296"
  shows "unat (word_of_nat t1 - word_of_nat t0 :: u32w) = t1 - t0"
proof -
  have "word_of_nat t1 - word_of_nat t0 = (word_of_nat (t1 - t0) :: u32w)"
    using assms(1) by (simp add: of_nat_diff)
  then show ?thesis using assms(2) by (simp add: unat_of_nat take_bit_nat_eq_self)
qed

lemma unat_times_1000:
  fixes m :: u32w
  assumes "1000 * unat m < 4294967296"
  shows "unat (m * 1000) = 1000 * unat m"
proof -
  have "unat m * unat (1000 :: u32w) < 2 ^ LENGTH(32)" using assms by simp
  then show ?thesis by (simp only: unat_mult_lem) simp
qed

text \<open>
  A periodic task with a period of \<open>ms\<close> milliseconds (up to 71 minutes) that was last released
  at time \<open>t0\<close> and asks for its delay at \<open>t1\<close> (microseconds, no matter how often the 32-bit tick
  counter has wrapped): if its period is not over, it sleeps until at most its end and wakes less
  than a millisecond early; if it is late, it does not sleep, and the next period is counted from
  the release it missed plus the time the call itself took.
\<close>

lemma osTaskDelayUntil_spec:
  assumes "t0 \<le> t1" "t1 - t0 < 4294967296" "t1 \<le> t2" "1000 * unat ms < 4294967296"
  shows "case osTaskDelayUntil (word_of_nat t1) (word_of_nat t2) (word_of_nat t0) ms of
      (Some us, lt) \<Rightarrow> t1 \<le> t0 + 1000 * unat ms \<and> t1 + unat us \<le> t0 + 1000 * unat ms \<and>
        t0 + 1000 * unat ms < t1 + unat us + 1000 \<and> lt = word_of_nat t2
    | (None, lt) \<Rightarrow> t0 + 1000 * unat ms < t1 \<and> lt = word_of_nat (t0 + 1000 * unat ms + (t2 - t1))"
proof -
  let ?d = "word_of_nat t1 - word_of_nat t0 :: u32w" and ?s = "ms * 1000"
  have d: "unat ?d = t1 - t0" using unat_of_nat_diff [OF assms(1,2)] .
  have s: "unat ?s = 1000 * unat ms" using unat_times_1000 [OF assms(4)] .
  have cmp: "?d > ?s \<longleftrightarrow> 1000 * unat ms < t1 - t0" by (simp add: word_less_nat_alt d s)
  show ?thesis
  proof (cases "1000 * unat ms < t1 - t0")
    case True
    have "word_of_nat t2 - (?d - ?s) = (word_of_nat (t0 + 1000 * unat ms + (t2 - t1)) :: u32w)"
      using assms(3) by (simp add: of_nat_diff algebra_simps)
    then show ?thesis using True cmp by (simp add: osTaskDelayUntil_def osDefineTime_def Let_def)
  next
    case False
    let ?k = "(?s - ?d) div 1000"
    have le: "?d \<le> ?s" using False cmp by simp
    have "unat (?s - ?d) = 1000 * unat ms - (t1 - t0)"
      using unat_sub [OF le] by (simp add: d s)
    then have k: "unat ?k = (1000 * unat ms - (t1 - t0)) div 1000" by (simp add: unat_div)
    have "1000 * unat ?k \<le> 1000 * unat ms - (t1 - t0)" by (simp add: k)
    then have "unat (?k * 1000) = 1000 * unat ?k" using assms(4) by (intro unat_times_1000) linarith
    moreover have "1000 * unat ms - (t1 - t0) < 1000 * unat ?k + 1000"
      by (simp add: k)
    ultimately show ?thesis
      using False cmp \<open>1000 * unat ?k \<le> 1000 * unat ms - (t1 - t0)\<close> assms(1)
      by (simp add: osTaskDelayUntil_def osDefineTime_def osDelay_def Let_def) arith
  qed
qed

lemma osTaskDelayUntil_spec_witness:
  "osTaskDelayUntil (word_of_nat 4294967400) (word_of_nat 4295966400) (word_of_nat 4294966400) 1000 =
     (Some 999000, 999104)"
  using osTaskDelayUntil_spec [of 4294966400 4294967400 4295966400 1000]
  by (simp add: osTaskDelayUntil_def osDefineTime_def osDelay_def Let_def)

end
