(* ===== verification/Pipeline.thy ===== *)
theory Pipeline
  imports OsLayer RepoCommand "HOL-Library.Sublist"
begin

text \<open>
  The command pipeline (\<^verbatim>\<open>taskDispatcher.c\<close>, \<^verbatim>\<open>taskExecuter.c\<close>, the queues of \<^verbatim>\<open>main.c\<close> and the macro
  \<^verbatim>\<open>cmd_send\<close>): tasks put pointers to commands into the dispatcher queue, the dispatcher hands them
  one by one to the executer and waits for each result, the executer runs the command's function and
  frees the command.  Each task is a program counter and one step function; the tasks interleave
  arbitrarily in a step relation.
\<close>

section \<open>State\<close>

text \<open>The position of a task in its loop, with the pointer it holds.\<close>

datatype (plugins only: code) dis_pc = DisReceive | DisSend nat | DisLog nat | DisWait
datatype (plugins only: code) exe_pc = ExeReceive | ExeRun nat | ExeSend int

text \<open>
  Commands live in the heap; \<open>app\<close> is the state the commands work on.  \<open>sent\<close> and \<open>executed\<close> record
  the commands that entered the dispatcher queue and those whose function was called, in order;
  no step reads them.
\<close>

record 's pipeline =
  dispatcher_queue :: "nat os_pthread_queue"
  executer_cmd_queue :: "nat os_pthread_queue"
  executer_stat_queue :: "int os_pthread_queue"
  heap :: "nat \<rightharpoonup> cmd_t"
  dis :: dis_pc
  exe :: exe_pc
  app :: 's
  sent :: "cmd_t list"
  executed :: "cmd_t list"

text \<open>The queues \<^verbatim>\<open>main\<close> creates, with the two tasks at the head of their loops.\<close>

definition main_queues :: "'s \<Rightarrow> 's pipeline" where
  "main_queues a = \<lparr>
     dispatcher_queue = osQueueCreate (\<lambda>_. 0) 25,
     executer_cmd_queue = osQueueCreate (\<lambda>_. 0) 1,
     executer_stat_queue = osQueueCreate (\<lambda>_. 0) 1,
     heap = Map.empty, dis = DisReceive, exe = ExeReceive, app = a, sent = [], executed = [] \<rparr>"

section \<open>Steps\<close>

text \<open>
  A wait of 49 days (\<^verbatim>\<open>portMAX_DELAY\<close>) ends with a time-out only where \<open>tmo\<close> says so; otherwise the
  task stays blocked, and its step is \<open>None\<close>.
\<close>

abbreviation (input) ETIMEDOUT :: int where "ETIMEDOUT \<equiv> 110"

definition q_waits :: "bool \<Rightarrow> 'a os_pthread_queue \<Rightarrow> timespec \<Rightarrow> (int \<times> 'a os_pthread_queue) list" where
  "q_waits tmo q d = (if tmo then [(ETIMEDOUT, q)] else [])"

definition blocking_send :: "bool \<Rightarrow> 'a os_pthread_queue \<Rightarrow> 'a \<Rightarrow> (int \<times> 'a os_pthread_queue) option" where
  "blocking_send tmo q v = osQueueSend (Some (0, 0)) (q_waits tmo q) q v portMAX_DELAY"

definition blocking_receive ::
  "bool \<Rightarrow> 'a os_pthread_queue \<Rightarrow> (int \<times> 'a option \<times> 'a os_pthread_queue) option" where
  "blocking_receive tmo q = osQueueReceive (Some (0, 0)) (q_waits tmo q) q portMAX_DELAY"

text \<open>\<^verbatim>\<open>cmd_send\<close> of a command a task has built at address \<open>p\<close>; a NULL command is not sent.\<close>

definition cmd_send :: "bool \<Rightarrow> (nat \<times> cmd_t) option \<Rightarrow> 's pipeline \<Rightarrow> 's pipeline option" where
  "cmd_send tmo cmd s =
     (case cmd of
        None \<Rightarrow> Some s
      | Some (p, k) \<Rightarrow>
          (case blocking_send tmo (dispatcher_queue s) p of
             None \<Rightarrow> None
           | Some (rc, q) \<Rightarrow> Some (s\<lparr> heap := (heap s)(p \<mapsto> k), dispatcher_queue := q,
                                     sent := (if rc = 1 then sent s @ [k] else sent s) \<rparr>)))"

definition check_if_executable :: "nat \<Rightarrow> bool" where
  "check_if_executable new_cmd = True"

text \<open>The loop of \<^verbatim>\<open>taskDispatcher\<close>; \<open>dbg\<close> says that the build logs at debug level.\<close>

definition dispatcher_step :: "bool \<Rightarrow> bool \<Rightarrow> 's pipeline \<Rightarrow> 's pipeline c_result option" where
  "dispatcher_step dbg tmo s =
     (case dis s of
        DisReceive \<Rightarrow>
          (case blocking_receive tmo (dispatcher_queue s) of
             None \<Rightarrow> None
           | Some (status, res, q) \<Rightarrow>
               Some (Inr (s\<lparr> dispatcher_queue := q,
                 dis := (case res of
                           Some p \<Rightarrow> if status = 1 \<and> check_if_executable p then DisSend p else DisReceive
                         | None \<Rightarrow> DisReceive) \<rparr>)))
      | DisSend p \<Rightarrow>
          (case blocking_send tmo (executer_cmd_queue s) p of
             None \<Rightarrow> None
           | Some (rc, q) \<Rightarrow> Some (Inr (s\<lparr> executer_cmd_queue := q, dis := DisLog p \<rparr>)))
      | DisLog p \<Rightarrow>
          (if dbg \<and> heap s p = None then Some (Inl UseAfterFree) else Some (Inr (s\<lparr> dis := DisWait \<rparr>)))
      | DisWait \<Rightarrow>
          (case blocking_receive tmo (executer_stat_queue s) of
             None \<Rightarrow> None
           | Some (rc, res, q) \<Rightarrow> Some (Inr (s\<lparr> executer_stat_queue := q, dis := DisReceive \<rparr>))))"

text \<open>\<^verbatim>\<open>cmd_free\<close>: the parameter block is part of the command here and goes with it.\<close>

definition cmd_free :: "nat \<Rightarrow> (nat \<rightharpoonup> cmd_t) \<Rightarrow> (nat \<rightharpoonup> cmd_t) c_result" where
  "cmd_free p h = (if h p = None then Inl UseAfterFree else Inr (h(p := None)))"

text \<open>The loop of \<^verbatim>\<open>taskExecuter\<close>; \<open>run\<close> is the call through the command's function pointer.\<close>

definition executer_step ::
  "(cmd_t \<Rightarrow> 's \<Rightarrow> (int \<times> 's) c_result) \<Rightarrow> bool \<Rightarrow> 's pipeline \<Rightarrow> 's pipeline c_result option" where
  "executer_step run tmo s =
     (case exe s of
        ExeReceive \<Rightarrow>
          (case blocking_receive tmo (executer_cmd_queue s) of
             None \<Rightarrow> None
           | Some (queue_stat, res, q) \<Rightarrow>
               Some (Inr (s\<lparr> executer_cmd_queue := q,
                 exe := (case res of Some p \<Rightarrow> if queue_stat = 1 then ExeRun p else ExeReceive
                                   | None \<Rightarrow> ExeReceive) \<rparr>)))
      | ExeRun p \<Rightarrow>
          Some (case heap s p of
             None \<Rightarrow> Inl UseAfterFree
           | Some k \<Rightarrow>
               c_bind (run k (app s)) (\<lambda>(cmd_stat, a).
               c_bind (cmd_free p (heap s)) (\<lambda>h.
               Inr (s\<lparr> app := a, heap := h, exe := ExeSend cmd_stat, executed := executed s @ [k] \<rparr>))))
      | ExeSend cmd_stat \<Rightarrow>
          (case blocking_send tmo (executer_stat_queue s) cmd_stat of
             None \<Rightarrow> None
           | Some (rc, q) \<Rightarrow> Some (Inr (s\<lparr> executer_stat_queue := q, exe := ExeReceive \<rparr>))))"

text \<open>
  The interleaving.  With \<open>tmo\<close> false no wait ends with a time-out.  A task that sends has its command
  in a fresh block.
\<close>

inductive internal_step ::
  "(cmd_t \<Rightarrow> 's \<Rightarrow> (int \<times> 's) c_result) \<Rightarrow> bool \<Rightarrow> bool \<Rightarrow> 's pipeline \<Rightarrow> 's pipeline \<Rightarrow> bool"
  for run :: "cmd_t \<Rightarrow> 's \<Rightarrow> (int \<times> 's) c_result" and dbg :: bool and tmo :: bool where
  dispatcher: "(b \<longrightarrow> tmo) \<Longrightarrow> dispatcher_step dbg b s = Some (Inr s') \<Longrightarrow> internal_step run dbg tmo s s'"
| executer: "(b \<longrightarrow> tmo) \<Longrightarrow> executer_step run b s = Some (Inr s') \<Longrightarrow> internal_step run dbg tmo s s'"

inductive reachable ::
  "(cmd_t \<Rightarrow> 's \<Rightarrow> (int \<times> 's) c_result) \<Rightarrow> bool \<Rightarrow> bool \<Rightarrow> 's \<Rightarrow> 's pipeline \<Rightarrow> bool"
  for run :: "cmd_t \<Rightarrow> 's \<Rightarrow> (int \<times> 's) c_result" and dbg :: bool and tmo :: bool and a :: 's where
  start: "reachable run dbg tmo a (main_queues a)"
| send: "reachable run dbg tmo a s \<Longrightarrow> (b \<longrightarrow> tmo) \<Longrightarrow> heap s p = None \<Longrightarrow>
    cmd_send b (Some (p, k)) s = Some s' \<Longrightarrow> reachable run dbg tmo a s'"
| internal: "reachable run dbg tmo a s \<Longrightarrow> internal_step run dbg tmo s s' \<Longrightarrow> reachable run dbg tmo a s'"

section \<open>Queue calls\<close>

lemma blocking_receive_eq:
  "blocking_receive tmo q =
     (if q_items q = 0 then if tmo then Some (0, None, q) else None
      else Some (1, Some (fst (queue_get q)), snd (queue_get q)))"
  by (simp add: blocking_receive_def osQueueReceive_def os_pthread_queue_receive_def q_waits_def Let_def split_def)

lemma blocking_send_eq:
  "blocking_send tmo q v =
     (if q_items q = q_size q then if tmo then Some (0, q) else None else Some (1, queue_put v q))"
  by (simp add: blocking_send_def osQueueSend_def os_pthread_queue_send_def q_waits_def)

lemma queue_list_Nil_iff: "queue_list q = [] \<longleftrightarrow> q_items q = 0"
  by (metis length_0_conv length_queue_list)

section \<open>What flows through the pipeline\<close>

text \<open>The pointers on their way, oldest first, and the commands behind them.\<close>

fun dis_ptr :: "dis_pc \<Rightarrow> nat list" where
  "dis_ptr (DisSend p) = [p]"
| "dis_ptr _ = []"

fun exe_ptr :: "exe_pc \<Rightarrow> nat list" where
  "exe_ptr (ExeRun p) = [p]"
| "exe_ptr _ = []"

definition in_flight :: "'s pipeline \<Rightarrow> nat list" where
  "in_flight s = exe_ptr (exe s) @ queue_list (executer_cmd_queue s) @ dis_ptr (dis s) @
     queue_list (dispatcher_queue s)"

definition waiting :: "'s pipeline \<Rightarrow> cmd_t list" where
  "waiting s = map (\<lambda>p. the (heap s p)) (in_flight s)"

text \<open>The effect of running commands one after the other.\<close>

fun run_all :: "(cmd_t \<Rightarrow> 's \<Rightarrow> (int \<times> 's) c_result) \<Rightarrow> cmd_t list \<Rightarrow> 's \<Rightarrow> 's c_result" where
  "run_all run [] a = Inr a"
| "run_all run (k # ks) a = c_bind (run k a) (\<lambda>(rc, a'). run_all run ks a')"

lemma run_all_snoc:
  "run_all run (ks @ [k]) a = c_bind (run_all run ks a) (\<lambda>b. c_bind (run k b) (\<lambda>(rc, b'). Inr b'))"
proof (induction ks arbitrary: a)
  case Nil
  then show ?case by (cases "run k a") auto
next
  case (Cons x ks)
  then show ?case by (cases "run x a") auto
qed

text \<open>The queues are well formed, and the commands on their way are allocated, each once.\<close>

definition pipe_ok :: "'s pipeline \<Rightarrow> bool" where
  "pipe_ok s \<longleftrightarrow> queue_inv (dispatcher_queue s) \<and> queue_inv (executer_cmd_queue s) \<and>
     queue_inv (executer_stat_queue s) \<and> q_size (dispatcher_queue s) = 25 \<and>
     q_size (executer_cmd_queue s) = 1 \<and> q_size (executer_stat_queue s) = 1 \<and>
     distinct (in_flight s) \<and> set (in_flight s) \<subseteq> dom (heap s)"

lemma queue_list_create [simp]: "queue_list (os_pthread_queue_create junk n) = []"
  by (simp add: queue_list_Nil_iff) (simp add: os_pthread_queue_create_def)

lemma pipe_ok_start: "pipe_ok (main_queues a)" "in_flight (main_queues a) = []"
proof -
  show f: "in_flight (main_queues a) = []"
    by (simp add: main_queues_def in_flight_def osQueueCreate_def)
  show "pipe_ok (main_queues a)"
    unfolding pipe_ok_def f
    by (simp add: main_queues_def osQueueCreate_def queue_inv_create)
       (simp add: os_pthread_queue_create_def)
qed

lemma queue_get_cons:
  assumes "queue_inv q" "q_items q \<noteq> 0"
  shows "queue_inv (snd (queue_get q))" "fst (queue_get q) # queue_list (snd (queue_get q)) = queue_list q"
    "q_size (snd (queue_get q)) = q_size q"
  using queue_get_ok [of q] assms rb.capacity_get [of q] by simp_all

lemma queue_put_snoc:
  assumes "queue_inv q" "q_items q \<noteq> q_size q"
  shows "queue_inv (queue_put v q)" "queue_list (queue_put v q) = queue_list q @ [v]"
    "q_size (queue_put v q) = q_size q"
  using queue_put_ok [OF assms] rb.capacity_put [of v q] by simp_all

text \<open>The dispatcher moves pointers on; only a time-out of its send can lose one.\<close>

lemma dispatcher_step_flow:
  assumes "pipe_ok s" "dispatcher_step dbg b s = Some (Inr s')"
  shows "pipe_ok s' \<and> heap s' = heap s \<and> app s' = app s \<and> sent s' = sent s \<and> executed s' = executed s \<and>
    exe s' = exe s \<and> subseq (in_flight s') (in_flight s) \<and> (\<not> b \<longrightarrow> in_flight s' = in_flight s)"
proof (cases "dis s")
  case DisReceive
  let ?q = "dispatcher_queue s"
  show ?thesis
  proof (cases "q_items ?q = 0")
    case True
    then have "s' = s\<lparr> dis := DisReceive \<rparr>" using assms(2) DisReceive
      by (simp add: dispatcher_step_def blocking_receive_eq split: if_splits)
    then show ?thesis using assms(1) DisReceive by (simp add: pipe_ok_def in_flight_def)
  next
    case False
    then have s': "s' = s\<lparr> dispatcher_queue := snd (queue_get ?q), dis := DisSend (fst (queue_get ?q)) \<rparr>"
      using assms(2) DisReceive
      by (simp add: dispatcher_step_def blocking_receive_eq check_if_executable_def)
    moreover have "queue_inv ?q" using assms(1) by (simp add: pipe_ok_def)
    ultimately have "in_flight s' = in_flight s"
      using queue_get_cons(2) [of ?q] False DisReceive by (simp add: in_flight_def)
    then show ?thesis using assms(1) s' queue_get_cons [of ?q] False by (simp add: pipe_ok_def)
  qed
next
  case (DisSend p)
  let ?q = "executer_cmd_queue s"
  show ?thesis
  proof (cases "q_items ?q = q_size ?q")
    case True
    then have b: b and s': "s' = s\<lparr> dis := DisLog p \<rparr>" using assms(2) DisSend
      by (simp_all add: dispatcher_step_def blocking_send_eq split: if_splits)
    have sub: "subseq (in_flight s') (in_flight s)"
      using s' DisSend by (auto simp: in_flight_def intro!: list_emb_append_mono)
    then have "distinct (in_flight s')" "set (in_flight s') \<subseteq> set (in_flight s)"
      using assms(1) s' DisSend by (auto simp: pipe_ok_def in_flight_def)
    then show ?thesis using assms(1) b s' sub by (auto simp: pipe_ok_def)
  next
    case False
    then have s': "s' = s\<lparr> executer_cmd_queue := queue_put p ?q, dis := DisLog p \<rparr>"
      using assms(2) DisSend by (simp add: dispatcher_step_def blocking_send_eq)
    moreover have "queue_inv ?q" using assms(1) by (simp add: pipe_ok_def)
    ultimately have "in_flight s' = in_flight s"
      using queue_put_snoc(2) [of ?q p] False DisSend by (simp add: in_flight_def)
    then show ?thesis using assms(1) s' queue_put_snoc [of ?q p] False by (simp add: pipe_ok_def)
  qed
next
  case (DisLog p)
  then have "s' = s\<lparr> dis := DisWait \<rparr>"
    using assms(2) by (simp add: dispatcher_step_def split: if_splits)
  then show ?thesis using assms(1) DisLog by (simp add: pipe_ok_def in_flight_def)
next
  case DisWait
  let ?q = "executer_stat_queue s"
  have s': "s' = s\<lparr> executer_stat_queue := (if q_items ?q = 0 then ?q else snd (queue_get ?q)), dis := DisReceive \<rparr>"
    using assms(2) DisWait by (auto simp: dispatcher_step_def blocking_receive_eq split: if_splits)
  then have "in_flight s' = in_flight s" using DisWait by (simp add: in_flight_def)
  then show ?thesis using assms(1) s' queue_get_cons [of ?q] by (simp add: pipe_ok_def)
qed

text \<open>The executer moves pointers on and takes the oldest one out when it runs its command.\<close>

lemma executer_step_flow:
  assumes "pipe_ok s" "executer_step run b s = Some (Inr s')"
  shows "pipe_ok s' \<and> sent s' = sent s \<and>
    (heap s' = heap s \<and> app s' = app s \<and> executed s' = executed s \<and> in_flight s' = in_flight s \<or>
     (\<exists>p k rc. in_flight s = p # in_flight s' \<and> heap s p = Some k \<and> heap s' = (heap s)(p := None) \<and>
        executed s' = executed s @ [k] \<and> run k (app s) = Inr (rc, app s')))"
proof (cases "exe s")
  case ExeReceive
  let ?q = "executer_cmd_queue s"
  show ?thesis
  proof (cases "q_items ?q = 0")
    case True
    then have "s' = s\<lparr> exe := ExeReceive \<rparr>" using assms(2) ExeReceive
      by (simp add: executer_step_def blocking_receive_eq split: if_splits)
    then show ?thesis using assms(1) ExeReceive by (simp add: pipe_ok_def in_flight_def)
  next
    case False
    then have s': "s' = s\<lparr> executer_cmd_queue := snd (queue_get ?q), exe := ExeRun (fst (queue_get ?q)) \<rparr>"
      using assms(2) ExeReceive by (simp add: executer_step_def blocking_receive_eq)
    moreover have "queue_inv ?q" using assms(1) by (simp add: pipe_ok_def)
    ultimately have "in_flight s' = in_flight s"
      using queue_get_cons(2) [of ?q, symmetric] False ExeReceive by (simp add: in_flight_def)
    then show ?thesis using assms(1) s' queue_get_cons [of ?q] False by (simp add: pipe_ok_def)
  qed
next
  case (ExeRun p)
  then have p: "in_flight s = p # in_flight (s\<lparr> exe := ExeSend 0 \<rparr>)" by (simp add: in_flight_def)
  then obtain k where k: "heap s p = Some k" using assms(1) by (auto simp: pipe_ok_def)
  then obtain rc a where r: "run k (app s) = Inr (rc, a)"
    using assms(2) ExeRun by (cases "run k (app s)") (auto simp: executer_step_def)
  then have s': "s' = s\<lparr> app := a, heap := (heap s)(p := None), exe := ExeSend rc, executed := executed s @ [k] \<rparr>"
    using assms(2) ExeRun k by (simp add: executer_step_def cmd_free_def)
  then have "in_flight s = p # in_flight s'" using p by (simp add: in_flight_def)
  then show ?thesis using assms(1) s' k r by (auto simp: pipe_ok_def)
next
  case (ExeSend x)
  let ?q = "executer_stat_queue s"
  have s': "s' = s\<lparr> executer_stat_queue := (if q_items ?q = q_size ?q then ?q else queue_put x ?q), exe := ExeReceive \<rparr>"
    using assms(2) ExeSend by (auto simp: executer_step_def blocking_send_eq split: if_splits)
  then have "in_flight s' = in_flight s" using ExeSend by (simp add: in_flight_def)
  then show ?thesis using assms(1) s' queue_put_snoc [of ?q x] by (simp add: pipe_ok_def)
qed

lemma cmd_send_flow:
  assumes "pipe_ok s" "heap s p = None" "cmd_send b (Some (p, k)) s = Some s'"
  shows "pipe_ok s' \<and> heap s' = (heap s)(p \<mapsto> k) \<and> app s' = app s \<and> executed s' = executed s \<and>
    dis s' = dis s \<and> exe s' = exe s \<and> executer_cmd_queue s' = executer_cmd_queue s \<and>
    executer_stat_queue s' = executer_stat_queue s \<and>
    (b \<and> sent s' = sent s \<and> in_flight s' = in_flight s \<or>
     sent s' = sent s @ [k] \<and> in_flight s' = in_flight s @ [p])"
proof (cases "q_items (dispatcher_queue s) = q_size (dispatcher_queue s)")
  case True
  then have "b" "s' = s\<lparr> heap := (heap s)(p \<mapsto> k) \<rparr>"
    using assms(3) by (simp_all add: cmd_send_def blocking_send_eq split: if_splits)
  then show ?thesis using assms(1) by (auto simp: pipe_ok_def in_flight_def)
next
  case False
  let ?q = "dispatcher_queue s"
  have s': "s' = s\<lparr> heap := (heap s)(p \<mapsto> k), dispatcher_queue := queue_put p ?q, sent := sent s @ [k] \<rparr>"
    using False assms(3) by (simp add: cmd_send_def blocking_send_eq)
  have "queue_inv ?q" using assms(1) by (simp add: pipe_ok_def)
  then have f: "in_flight s' = in_flight s @ [p]"
    using s' queue_put_snoc(2) [of ?q p] False by (simp add: in_flight_def)
  moreover have "p \<notin> set (in_flight s)" using assms(1,2) by (auto simp: pipe_ok_def)
  ultimately show ?thesis using assms(1) s' queue_put_snoc [of ?q p] False by (auto simp: pipe_ok_def)
qed

section \<open>Invariants of every run\<close>

text \<open>What has been executed, and what is on its way, is part of what was sent, in the same order.\<close>

definition flow_inv :: "(cmd_t \<Rightarrow> 's \<Rightarrow> (int \<times> 's) c_result) \<Rightarrow> bool \<Rightarrow> 's \<Rightarrow> 's pipeline \<Rightarrow> bool" where
  "flow_inv run tmo a s \<longleftrightarrow> pipe_ok s \<and> run_all run (executed s) a = Inr (app s) \<and>
     subseq (executed s @ waiting s) (sent s) \<and> (\<not> tmo \<longrightarrow> executed s @ waiting s = sent s)"

lemma flow_inv_internal:
  assumes "flow_inv run tmo a s" "internal_step run dbg tmo s s'"
  shows "flow_inv run tmo a s'"
  using assms(2)
proof cases
  case (dispatcher b)
  have ok: "pipe_ok s" using assms(1) by (simp add: flow_inv_def)
  note f = dispatcher_step_flow [OF ok dispatcher(2)]
  then have "waiting s' = map (\<lambda>p. the (heap s p)) (in_flight s')" by (simp add: waiting_def)
  moreover have "subseq (map (\<lambda>p. the (heap s p)) (in_flight s')) (waiting s)"
    using f by (simp add: waiting_def subseq_map)
  ultimately have "subseq (executed s' @ waiting s') (executed s @ waiting s)"
    using f by (simp add: list_emb_append_mono)
  moreover have "\<not> tmo \<longrightarrow> waiting s' = waiting s" using f dispatcher(1) by (auto simp: waiting_def)
  ultimately show ?thesis using assms(1) f by (auto simp: flow_inv_def dest: subseq_order.trans)
next
  case (executer b)
  have ok: "pipe_ok s" using assms(1) by (simp add: flow_inv_def)
  note f = executer_step_flow [OF ok executer(2)]
  show ?thesis
  proof (cases "executed s' = executed s")
    case True
    then show ?thesis using f assms(1) by (auto simp: flow_inv_def waiting_def)
  next
    case False
    then obtain p k rc where e: "in_flight s = p # in_flight s'" "heap s p = Some k"
      "heap s' = (heap s)(p := None)" "executed s' = executed s @ [k]" "run k (app s) = Inr (rc, app s')"
      using f by auto
    have "p \<notin> set (in_flight s')" using ok e(1) by (auto simp: pipe_ok_def)
    then have "waiting s = k # waiting s'" using e(1-3) by (auto simp: waiting_def)
    then show ?thesis using assms(1) f e(4,5) by (auto simp: flow_inv_def run_all_snoc)
  qed
qed

lemma flow_inv_reachable: "reachable run dbg tmo a s \<Longrightarrow> flow_inv run tmo a s"
proof (induction rule: reachable.induct)
  case start
  then show ?case using pipe_ok_start [of a] by (simp add: flow_inv_def waiting_def) (simp add: main_queues_def)
next
  case (send s b p k s')
  then have ok: "pipe_ok s" by (simp add: flow_inv_def)
  note f = cmd_send_flow [OF ok send(3,4)]
  have "p \<notin> set (in_flight s)" using ok send(3) by (auto simp: pipe_ok_def)
  then have w: "map (\<lambda>q. the (((heap s)(p \<mapsto> k)) q)) (in_flight s) = waiting s" by (auto simp: waiting_def)
  then have "sent s' = sent s \<and> tmo \<and> waiting s' = waiting s \<or>
      sent s' = sent s @ [k] \<and> waiting s' = waiting s @ [k]"
    using f send(2) by (auto simp: waiting_def)
  then show ?case using send.IH f by (auto simp: flow_inv_def list_emb_append_mono simp flip: append_assoc)
next
  case (internal s s')
  then show ?case by (auto intro: flow_inv_internal)
qed

lemma reachable_ok: "reachable run dbg tmo a s \<Longrightarrow> pipe_ok s"
  by (drule flow_inv_reachable) (simp add: flow_inv_def)

section \<open>Runs without time-outs\<close>

text \<open>
  The stations behind the dispatcher that are in use, and whether one of them should be: exactly
  while the dispatcher waits for a result.
\<close>

definition load :: "'s pipeline \<Rightarrow> nat" where
  "load s = q_items (executer_cmd_queue s) + q_items (executer_stat_queue s) +
     (case exe s of ExeReceive \<Rightarrow> 0 | _ \<Rightarrow> 1)"

fun awaits :: "dis_pc \<Rightarrow> nat" where
  "awaits DisReceive = 0"
| "awaits (DisSend p) = 0"
| "awaits (DisLog p) = 1"
| "awaits DisWait = 1"

text \<open>The steps the two tasks still have to make for what is in the pipeline.\<close>

definition rank :: "'s pipeline \<Rightarrow> nat" where
  "rank s = 7 * q_items (dispatcher_queue s) +
     (case dis s of DisReceive \<Rightarrow> 0 | DisSend p \<Rightarrow> 6 | DisLog p \<Rightarrow> 2 | DisWait \<Rightarrow> 1) +
     3 * q_items (executer_cmd_queue s) +
     (case exe s of ExeReceive \<Rightarrow> 0 | ExeRun p \<Rightarrow> 2 | ExeSend x \<Rightarrow> 1)"

lemma queue_items_simps [simp]:
  "q_items (queue_put v q) = Suc (q_items q)"
  "q_items (snd (queue_get q)) = q_items q - 1"
  by (simp_all add: queue_put_def queue_get_def)

lemma internal_step_load_rank:
  assumes "internal_step run dbg False s s'" "load s = awaits (dis s)"
  shows "load s' = awaits (dis s')" "rank s = Suc (rank s')"
proof -
  have "load s' = awaits (dis s') \<and> rank s = Suc (rank s')"
    using assms(1)
  proof cases
    case (dispatcher b)
    then show ?thesis using assms(2)
      by (cases "dis s")
         (auto simp: dispatcher_step_def blocking_receive_eq blocking_send_eq check_if_executable_def
            load_def rank_def split: if_splits exe_pc.splits)
  next
    case (executer b)
    show ?thesis
    proof (cases "exe s")
      case (ExeRun p)
      then obtain k r h where "s' = s\<lparr> app := snd r, heap := h, exe := ExeSend (fst r), executed := executed s @ [k] \<rparr>"
        using executer(2) by (cases "heap s p") (auto simp: executer_step_def c_bind_Inr_iff split: prod.splits)
      then show ?thesis using ExeRun assms(2) by (simp add: load_def rank_def)
    qed (use executer assms(2) in \<open>auto simp: executer_step_def blocking_receive_eq blocking_send_eq
            load_def rank_def split: if_splits dis_pc.splits\<close>)
  qed
  then show "load s' = awaits (dis s')" "rank s = Suc (rank s')" by simp_all
qed

lemma load_reachable:
  assumes "reachable run dbg False a s"
  shows "load s = awaits (dis s)"
  using assms
proof (induction rule: reachable.induct)
  case start
  then show ?case
    by (simp add: load_def main_queues_def osQueueCreate_def os_pthread_queue_create_def)
next
  case (send s b p k s')
  then have ok: "pipe_ok s" by (auto dest: reachable_ok)
  show ?case using cmd_send_flow [OF ok send(3,4)] send.IH by (simp add: load_def)
next
  case (internal s s')
  then show ?case by (auto dest: internal_step_load_rank)
qed

text \<open>Nothing is left to do exactly when everything sent has been executed and its result fetched.\<close>

lemma rank_0:
  assumes "rank s = 0"
  shows "in_flight s = []" "dis s = DisReceive" "exe s = ExeReceive"
  using assms
  by (cases "dis s"; cases "exe s"; simp add: rank_def in_flight_def queue_list_Nil_iff)+

lemma run_all_append:
  "run_all run (xs @ ys) a = c_bind (run_all run xs a) (run_all run ys)"
proof (induction xs arbitrary: a)
  case (Cons x xs)
  then show ?case by (cases "run x a") auto
qed simp

lemma internal_step_exists:
  assumes "reachable run False False a s" "run_all run (sent s) a = Inr z" "rank s \<noteq> 0"
  shows "\<exists>s'. internal_step run False False s s'"
proof -
  have inv: "flow_inv run False a s" and load: "load s = awaits (dis s)"
    using flow_inv_reachable [OF assms(1)] load_reachable [OF assms(1)] .
  have "\<exists>s'. dispatcher_step False False s = Some (Inr s') \<or> executer_step run False s = Some (Inr s')"
  proof (cases "exe s")
    case ExeReceive
    then show ?thesis using load assms(3) inv
      by (cases "dis s"; cases "q_items (executer_cmd_queue s)")
         (auto simp: dispatcher_step_def executer_step_def blocking_receive_eq blocking_send_eq load_def
            rank_def flow_inv_def pipe_ok_def)
  next
    case (ExeRun p)
    then have "p \<in> set (in_flight s)" by (simp add: in_flight_def)
    then obtain k where k: "heap s p = Some k" using inv by (auto simp: flow_inv_def pipe_ok_def)
    then have "waiting s = k # map (\<lambda>p. the (heap s p)) (tl (in_flight s))"
      using ExeRun by (simp add: waiting_def in_flight_def)
    then have "run_all run (executed s @ k # map (\<lambda>p. the (heap s p)) (tl (in_flight s))) a = Inr z"
      using inv assms(2) by (simp add: flow_inv_def)
    then obtain r where "run k (app s) = Inr r"
      using inv by (auto simp: run_all_append flow_inv_def c_bind_Inr_iff)
    then show ?thesis using ExeRun k by (auto simp: executer_step_def cmd_free_def split_def)
  next
    case (ExeSend x)
    then have "q_items (executer_stat_queue s) = 0" using load by (cases "dis s") (simp_all add: load_def)
    then show ?thesis using ExeSend inv
      by (auto simp: executer_step_def blocking_send_eq flow_inv_def pipe_ok_def)
  qed
  then show ?thesis by (auto intro: internal_step.intros)
qed

lemma reachable_relpowp:
  assumes "reachable run dbg tmo a s" "(internal_step run dbg tmo ^^ n) s s'"
  shows "reachable run dbg tmo a s' \<and> sent s' = sent s"
  using assms(2)
proof (induction n arbitrary: s')
  case (Suc n)
  then obtain m where m: "reachable run dbg tmo a m" "sent m = sent s" "internal_step run dbg tmo m s'"
    by auto
  then have ok: "pipe_ok m" by (auto dest: reachable_ok)
  have "sent s' = sent m"
    using m(3) by cases (use dispatcher_step_flow [OF ok] executer_step_flow [OF ok] in blast)+
  then show ?case using m by (auto intro: reachable.internal)
qed (simp add: assms(1))

lemma rank_relpowp:
  assumes "reachable run dbg False a s" "(internal_step run dbg False ^^ n) s s'"
  shows "rank s = n + rank s'"
  using assms(2)
proof (induction n arbitrary: s')
  case (Suc n)
  then obtain m where m: "(internal_step run dbg False ^^ n) s m" "internal_step run dbg False m s'" by auto
  then have "load m = awaits (dis m)"
    using reachable_relpowp [OF assms(1) m(1)] by (auto intro: load_reachable)
  then show ?case using Suc.IH [OF m(1)] internal_step_load_rank [OF m(2)] by simp
qed simp

lemma completes:
  assumes "reachable run False False a s" "run_all run (sent s) a = Inr z"
    "(internal_step run False False ^^ n) s s'"
  shows "n \<le> rank s \<and> (n < rank s \<longrightarrow> (\<exists>s''. internal_step run False False s' s'')) \<and>
    (n = rank s \<longrightarrow> executed s' = sent s \<and> app s' = z \<and> in_flight s' = [] \<and> dis s' = DisReceive \<and> exe s' = ExeReceive)"
proof -
  have r: "reachable run False False a s'" "sent s' = sent s"
    using reachable_relpowp [OF assms(1,3)] by auto
  have n: "rank s = n + rank s'" by (rule rank_relpowp [OF assms(1,3)])
  have "\<exists>s''. internal_step run False False s' s''" if "n < rank s"
    using internal_step_exists [OF r(1)] that n assms(2) r(2) by simp
  moreover have "executed s' = sent s \<and> app s' = z \<and> in_flight s' = []" if "n = rank s"
  proof -
    have e: "in_flight s' = []" using rank_0(1) [of s'] n that by simp
    then have "executed s' = sent s" using flow_inv_reachable [OF r(1)] r(2) by (simp add: flow_inv_def waiting_def)
    then show ?thesis using e flow_inv_reachable [OF r(1)] assms(2) by (simp add: flow_inv_def)
  qed
  ultimately show ?thesis using n rank_0 [of s'] by auto
qed

section \<open>Properties\<close>

text \<open>
  C3.  Order and effect.  In every reachable state of an interleaving in which no 49-day wait runs
  out, the commands sent are exactly those executed followed by those on their way, in that order:
  every command is executed once, in the order of sending, and none is lost.  The application state
  is the one the executed commands produce one after the other, at most 25 commands wait for the
  dispatcher, and at most one is past it.
\<close>

theorem pipeline_fifo:
  assumes "reachable run dbg False a s"
  shows "sent s = executed s @ waiting s \<and> run_all run (executed s) a = Inr (app s) \<and>
    length (queue_list (dispatcher_queue s)) \<le> 25 \<and>
    length (in_flight s) \<le> length (queue_list (dispatcher_queue s)) + 1"
proof -
  have inv: "flow_inv run False a s" and load: "load s = awaits (dis s)"
    using flow_inv_reachable [OF assms] load_reachable [OF assms] .
  have "awaits (dis s) \<le> 1" "length (exe_ptr (exe s)) \<le> (case exe s of ExeReceive \<Rightarrow> 0 | _ \<Rightarrow> 1)"
    by (cases "dis s", simp_all) (cases "exe s", simp_all)
  moreover have "length (dis_ptr (dis s)) + awaits (dis s) \<le> 1" by (cases "dis s") simp_all
  ultimately have "length (in_flight s) \<le> length (queue_list (dispatcher_queue s)) + 1"
    using load by (simp add: in_flight_def load_def)
  moreover have "length (queue_list (dispatcher_queue s)) \<le> 25"
    using inv rb.bound [of "dispatcher_queue s"] by (simp add: flow_inv_def pipe_ok_def)
  ultimately show ?thesis using inv by (simp add: flow_inv_def)
qed

text \<open>A handler that counts its calls, and a command for it.\<close>

definition count_cmd :: "cmd_t \<Rightarrow> int \<Rightarrow> (int \<times> int) c_result" where
  "count_cmd k n = Inr (1, n + c_nparams k)"

definition cmd_no :: "int \<Rightarrow> cmd_t" where
  "cmd_no i = \<lparr> c_id = i, c_nparams = i, c_fmt = '''', c_params = None, c_function = ''count'' \<rparr>"

definition two_sent :: "int pipeline" where
  "two_sent = (main_queues 0)\<lparr>
     dispatcher_queue := queue_put 2 (queue_put 1 (dispatcher_queue (main_queues (0 :: int)))),
     heap := [1 \<mapsto> cmd_no 5, 2 \<mapsto> cmd_no 7], sent := [cmd_no 5, cmd_no 7] \<rparr>"

lemma two_sent_reachable: "reachable count_cmd dbg tmo 0 two_sent"
proof -
  let ?s = "(main_queues (0 :: int))\<lparr> dispatcher_queue := queue_put 1 (dispatcher_queue (main_queues (0 :: int))),
     heap := [1 \<mapsto> cmd_no 5], sent := [cmd_no 5] \<rparr>"
  have one: "reachable count_cmd dbg tmo 0 ?s"
    by (rule reachable.send [OF reachable.start, of False tmo _ 1 "cmd_no 5"])
       (simp_all add: cmd_send_def blocking_send_eq main_queues_def osQueueCreate_def os_pthread_queue_create_def)
  show ?thesis
    by (rule reachable.send [OF one, of False 2 "cmd_no 7"])
       (simp_all add: cmd_send_def blocking_send_eq main_queues_def osQueueCreate_def os_pthread_queue_create_def
          two_sent_def queue_put_def)
qed

lemma two_sent_flight: "in_flight two_sent = [1, 2]" "waiting two_sent = [cmd_no 5, cmd_no 7]" "rank two_sent = 14"
  by (simp_all add: in_flight_def waiting_def rank_def two_sent_def main_queues_def osQueueCreate_def
        queue_list_def queue_put_def os_pthread_queue_create_def upt_rec)

theorem pipeline_fifo_witness:
  "reachable count_cmd True False 0 two_sent \<and> waiting two_sent = [cmd_no 5, cmd_no 7] \<and>
   sent two_sent = executed two_sent @ waiting two_sent \<and> length (in_flight two_sent) \<le> 3"
  using pipeline_fifo [OF two_sent_reachable [of True False]] two_sent_reachable [of True False] two_sent_flight
  by simp

text \<open>
  C4.  Progress.  Whenever the commands sent so far run without a fault, the two tasks together make
  exactly \<open>rank s\<close> more steps, whatever the interleaving: no run of theirs is longer, none gets stuck
  earlier, and after that many every command sent has been executed and nothing is on its way.  (The
  build does not log at debug level; no 49-day wait runs out.)
\<close>

theorem pipeline_completes:
  assumes "reachable run False False a s" "run_all run (sent s) a = Inr z"
    "(internal_step run False False ^^ n) s s'"
  shows "n \<le> rank s \<and> (n < rank s \<longrightarrow> (\<exists>s''. internal_step run False False s' s'')) \<and>
    (n = rank s \<longrightarrow> executed s' = sent s \<and> app s' = z \<and> in_flight s' = [] \<and> dis s' = DisReceive \<and> exe s' = ExeReceive)"
  by (rule completes [OF assms])

theorem pipeline_completes_witness:
  "rank two_sent = 14 \<and> (\<exists>s''. internal_step count_cmd False False two_sent s'')"
proof -
  have "run_all count_cmd (sent two_sent) 0 = Inr 12"
    by (simp add: two_sent_def count_cmd_def cmd_no_def)
  from pipeline_completes [OF two_sent_reachable this, of 0 two_sent] show ?thesis
    by (simp add: two_sent_flight)
qed

text \<open>
  C5.  Safety with time-outs.  Even when waits of 49 days do run out anywhere, no command is executed
  twice or out of order (those executed are a subsequence of those sent), the application state is the
  one they produce, and the executer never follows or frees a dangling pointer; a fault of its step is
  one of the command's own function.  In a build that does not log at debug level the dispatcher never
  faults.
\<close>

theorem pipeline_safe:
  assumes "reachable run dbg tmo a s"
  shows "subseq (executed s) (sent s) \<and> run_all run (executed s) a = Inr (app s) \<and>
    (\<forall>b e. executer_step run b s = Some (Inl e) \<longrightarrow> (\<exists>k. subseq (executed s @ [k]) (sent s) \<and> run k (app s) = Inl e)) \<and>
    (\<forall>b e. dispatcher_step False b s \<noteq> Some (Inl e))"
proof -
  have inv: "flow_inv run tmo a s" by (rule flow_inv_reachable [OF assms])
  then have sub: "subseq (executed s @ waiting s) (sent s)" by (simp add: flow_inv_def)
  have "\<exists>k. subseq (executed s @ [k]) (sent s) \<and> run k (app s) = Inl e"
    if f: "executer_step run b s = Some (Inl e)" for b e
  proof -
    obtain p where p: "exe s = ExeRun p"
      using f by (cases "exe s") (auto simp: executer_step_def blocking_receive_eq blocking_send_eq split: if_splits)
    then have "p \<in> set (in_flight s)" by (simp add: in_flight_def)
    then obtain k where k: "heap s p = Some k" using inv by (auto simp: flow_inv_def pipe_ok_def)
    then have "run k (app s) = Inl e"
      using f p by (cases "run k (app s)") (auto simp: executer_step_def cmd_free_def)
    moreover have "waiting s = [k] @ tl (waiting s)" using p k by (simp add: waiting_def in_flight_def)
    then have "subseq (executed s @ [k]) (sent s)"
      using sub by (metis append_assoc subseq_order.trans subseq_rev_drop_many subseq_order.refl)
    ultimately show ?thesis by blast
  qed
  moreover have "subseq (executed s) (sent s)"
    using sub by (metis subseq_order.trans subseq_rev_drop_many subseq_order.refl)
  moreover have "dispatcher_step False b s \<noteq> Some (Inl e)" for b e
    by (cases "dis s") (auto simp: dispatcher_step_def blocking_receive_eq blocking_send_eq)
  ultimately show ?thesis using inv by (auto simp: flow_inv_def)
qed

theorem pipeline_safe_witness:
  "subseq (executed two_sent) [cmd_no 5, cmd_no 7] \<and> (\<forall>b e. dispatcher_step False b two_sent \<noteq> Some (Inl e))"
  using pipeline_safe [OF two_sent_reachable [of True True]] by (simp add: two_sent_def)

lemma rest_send:
  assumes "pipe_ok s" "rank s = 0" "load s = 0"
  shows "cmd_send False (Some (p, k)) s = Some (s\<lparr> heap := (heap s)(p \<mapsto> k),
      dispatcher_queue := queue_put p (dispatcher_queue s), sent := sent s @ [k] \<rparr>)"
    "fst (queue_get (queue_put p (dispatcher_queue s))) = p"
    "q_items (executer_cmd_queue s) = 0"
    "fst (queue_get (queue_put p (executer_cmd_queue s))) = p"
proof -
  have z: "q_items (dispatcher_queue s) = 0" "q_items (executer_cmd_queue s) = 0"
    using assms(2) by (simp_all add: rank_def)
  have head: "fst (queue_get (queue_put p q)) = p" if "queue_inv q" "q_items q = 0" for q :: "nat os_pthread_queue"
  proof -
    have "q_items q \<noteq> q_size q" using that by (auto simp: queue_inv_def)
    then have "queue_inv (queue_put p q)" "queue_list (queue_put p q) = [p]"
      using queue_put_snoc(1,2) [of q p] that by (simp_all add: queue_list_Nil_iff [THEN iffD2])
    then show ?thesis using queue_get_cons(2) [of "queue_put p q"] by simp
  qed
  show "fst (queue_get (queue_put p (dispatcher_queue s))) = p"
    "fst (queue_get (queue_put p (executer_cmd_queue s))) = p"
    using assms(1) z by (simp_all add: head pipe_ok_def)
  show "q_items (executer_cmd_queue s) = 0" by (rule z)
  show "cmd_send False (Some (p, k)) s = Some (s\<lparr> heap := (heap s)(p \<mapsto> k),
      dispatcher_queue := queue_put p (dispatcher_queue s), sent := sent s @ [k] \<rparr>)"
    using assms(1) z by (simp add: cmd_send_def blocking_send_eq pipe_ok_def)
qed

text \<open>
  C40.  The debug build has a race.  The dispatcher logs a field of the command after it has handed it
  to the executer.  From every state in which the pipeline is at rest with room in the queue, and for
  every command whose function returns, there is an interleaving (two steps of the dispatcher, two of
  the executer) after which the log statement reads a command that has been freed.
\<close>

theorem dispatcher_log_races:
  assumes "reachable run True False a s" "rank s = 0" "heap s p = None" "run k (app s) = Inr (rc, a')"
  shows "\<exists>s1 s2. cmd_send False (Some (p, k)) s = Some s1 \<and> (internal_step run True False ^^ 4) s1 s2 \<and>
    dispatcher_step True False s2 = Some (Inl UseAfterFree)"
proof -
  have ok: "pipe_ok s" by (rule reachable_ok [OF assms(1)])
  have pcs: "dis s = DisReceive" "exe s = ExeReceive" using rank_0 [OF assms(2)] by auto
  then have load: "load s = 0" using load_reachable [OF assms(1)] by simp
  note rest = rest_send [OF ok assms(2) load]
  let ?q = "queue_put p (dispatcher_queue s)" and ?e = "queue_put p (executer_cmd_queue s)"
  let ?s1 = "s\<lparr> heap := (heap s)(p \<mapsto> k), dispatcher_queue := ?q, sent := sent s @ [k] \<rparr>"
  let ?t1 = "?s1\<lparr> dispatcher_queue := snd (queue_get ?q), dis := DisSend p \<rparr>"
  let ?t2 = "?t1\<lparr> executer_cmd_queue := ?e, dis := DisLog p \<rparr>"
  let ?t3 = "?t2\<lparr> executer_cmd_queue := snd (queue_get ?e), exe := ExeRun p \<rparr>"
  let ?t4 = "?t3\<lparr> app := a', heap := (heap s)(p := None), exe := ExeSend rc, executed := executed s @ [k] \<rparr>"
  have "internal_step run True False ?s1 ?t1"
    by (rule internal_step.dispatcher [of False])
       (simp_all add: dispatcher_step_def pcs blocking_receive_eq rest check_if_executable_def)
  moreover have "internal_step run True False ?t1 ?t2"
    using ok by (intro internal_step.dispatcher [of False])
       (simp_all add: dispatcher_step_def blocking_send_eq rest pipe_ok_def)
  moreover have "internal_step run True False ?t2 ?t3"
    by (rule internal_step.executer [of False]) (simp_all add: executer_step_def pcs blocking_receive_eq rest)
  moreover have "internal_step run True False ?t3 ?t4"
    by (rule internal_step.executer [of False]) (simp_all add: executer_step_def assms(4) cmd_free_def)
  ultimately have "(internal_step run True False ^^ 4) ?s1 ?t4"
    by (auto simp: numeral_eq_Suc relcompp_apply)
  moreover have "dispatcher_step True False ?t4 = Some (Inl UseAfterFree)"
    by (simp add: dispatcher_step_def)
  ultimately show ?thesis using rest(1) by blast
qed

theorem dispatcher_log_races_witness:
  "\<exists>s1 s2. cmd_send False (Some (1, cmd_no 5)) (main_queues 0) = Some s1 \<and>
     (internal_step count_cmd True False ^^ 4) s1 s2 \<and> dispatcher_step True False s2 = Some (Inl UseAfterFree)"
  by (rule dispatcher_log_races [OF reachable.start, where rc = 1 and a' = 5])
     (simp_all add: rank_def main_queues_def osQueueCreate_def os_pthread_queue_create_def count_cmd_def cmd_no_def)

end
