(* ===== verification/OsThreads.thy ===== *)
theory OsThreads
  imports Config
begin

text \<open>
  Threads on Linux (\<^verbatim>\<open>os/Linux/osThread.c\<close>, \<^verbatim>\<open>osScheduler.c\<close>) and the layer over FreeRTOS
  (\<^verbatim>\<open>os/FreeRTOS/*.c\<close>).  The POSIX threads and FreeRTOS themselves are parameters.
\<close>

section \<open>POSIX threads\<close>

text \<open>
  \<open>th_create\<close> is given the function and the stack size (None for the default) and gives the result and
  the identifier of the thread, which has a value only when the result is 0.
\<close>

record 'k pthreads =
  th_stack_ok :: "nat \<Rightarrow> bool"
  th_create :: "string \<Rightarrow> nat option \<Rightarrow> 'k \<Rightarrow> int \<times> nat \<times> 'k"
  th_setname :: "nat \<Rightarrow> string \<Rightarrow> 'k \<Rightarrow> 'k"
  th_setschedparam :: "nat \<Rightarrow> nat \<Rightarrow> 'k \<Rightarrow> int \<times> 'k"
  th_self :: "'k \<Rightarrow> nat"
  th_cancel :: "nat \<Rightarrow> 'k \<Rightarrow> int \<times> 'k"
  th_join :: "nat \<Rightarrow> 'k \<Rightarrow> 'k"

text \<open>
  The stack size is an \<^verbatim>\<open>unsigned short\<close>; a size that is refused leaves the default in place.  A thread
  that could not be created is given a name all the same, through an identifier that was never written.
\<close>

definition stack_of :: "'k pthreads \<Rightarrow> nat \<Rightarrow> nat option" where
  "stack_of t stack_size = (let n = stack_size mod 2 ^ 16 in if th_stack_ok t n then Some n else None)"

definition osCreateTask ::
  "'k pthreads \<Rightarrow> string \<Rightarrow> string \<Rightarrow> nat \<Rightarrow> nat \<Rightarrow> 'k \<Rightarrow> (int \<times> nat \<times> string list \<times> 'k) c_result" where
  "osCreateTask t functionTask name stack_size priority k =
     (let (created, thread, k) = th_create t functionTask (stack_of t stack_size) k
      in if created \<noteq> 0 then Inl Uninitialised
         else let k = th_setname t thread name k; (rc, k) = th_setschedparam t thread priority k in
              Inr (created, thread,
                   if rc \<noteq> 0 then [''[WARN] ('' @ name @ '') Failed to assign task priority, try as root''] else [], k))"

definition osTaskDelete :: "'k pthreads \<Rightarrow> nat option \<Rightarrow> 'k \<Rightarrow> string list \<times> 'k" where
  "osTaskDelete t task_handle k =
     (let thread = (case task_handle of None \<Rightarrow> th_self t k | Some h \<Rightarrow> h);
          (s, k) = th_cancel t thread k
      in ((''[INFO] Canceling thread '' @ show_nat thread) # (if s \<noteq> 0 then [''[WARN] Failed to cancel thread '' @ show_nat thread] else []), k))"

text \<open>The scheduler of Linux waits for the threads and leaves the process with status 0.\<close>

definition osScheduler :: "'k pthreads \<Rightarrow> nat list \<Rightarrow> 'k \<Rightarrow> int \<times> 'k" where
  "osScheduler t threads_id k = (0, fold (th_join t) threads_id k)"

text \<open>The threads of \<^verbatim>\<open>main\<close>: function, name, stack size and priority.\<close>

type_synonym task_entry = "string \<times> string \<times> nat \<times> nat"

abbreviation (input) SCH_TASK_STACK :: nat where "SCH_TASK_STACK \<equiv> 1280"

definition main_threads :: "task_entry list" where
  "main_threads =
     [(''taskDispatcher'', ''invoker'', SCH_TASK_STACK, 3), (''taskExecuter'', ''receiver'', SCH_TASK_STACK, 4),
      (''taskInit'', ''init'', SCH_TASK_STACK, 3)]"

text \<open>The threads of \<^verbatim>\<open>taskInit\<close>.\<close>

definition client_threads :: "sch_config \<Rightarrow> task_entry list" where
  "client_threads c =
     [(''taskConsole'', ''console'', SCH_TASK_STACK, 2)] @
     (if hk_enabled c then [(''taskHousekeeping'', ''housekeeping'', SCH_TASK_STACK, 2)] else []) @
     (if comm_enable c then [(''taskCommunications'', ''comm'', SCH_TASK_STACK, 2)] else []) @
     (if fp_enabled c then [(''taskFlightPlan'', ''flightplan'', SCH_TASK_STACK, 2)] else [])"

fun create_tasks :: "'k pthreads \<Rightarrow> task_entry list \<Rightarrow> 'k \<Rightarrow> (nat list \<times> 'k) c_result" where
  "create_tasks t [] k = Inr ([], k)"
| "create_tasks t ((fn, name, stack_size, prio) # es) k =
     c_bind (osCreateTask t fn name stack_size prio k) (\<lambda>(rc, thread, out, k).
     c_bind (create_tasks t es k) (\<lambda>(ids, k). Inr (thread # ids, k)))"

section \<open>What the library promises\<close>

text \<open>
  A created thread has a new identifier and runs its function; sizes below the 16384 bytes of
  \<^verbatim>\<open>PTHREAD_STACK_MIN\<close> are refused (the manual page of \<^verbatim>\<open>pthread_attr_setstacksize\<close>); names and priorities do
  not start or end threads.
\<close>

type_synonym running = "nat \<Rightarrow> (string \<times> nat option) option"

locale posix =
  fixes t :: "'k pthreads" and running :: "'k \<Rightarrow> running"
  assumes stack: "th_stack_ok t n \<longleftrightarrow> 16384 \<le> n"
    and created: "th_create t fn stk k = (0, thread, k') \<Longrightarrow>
      running k thread = None \<and> running k' = (running k)(thread \<mapsto> (fn, stk))"
    and named: "running (th_setname t thread name k) = running k" "running (snd (th_setschedparam t thread prio k)) = running k"
begin

lemma create_task:
  assumes "th_create t fn (stack_of t n) k = (rc, thread, k1)"
  shows "rc \<noteq> 0 \<Longrightarrow> osCreateTask t fn name n prio k = Inl Uninitialised"
    and "rc = 0 \<Longrightarrow> \<exists>out k'. osCreateTask t fn name n prio k = Inr (0, thread, out, k') \<and> running k thread = None \<and>
      running k' = (running k)(thread \<mapsto> (fn, stack_of t n))"
  using assms created [of fn _ k thread k1] named(1) [of thread name k1] named(2) [of thread prio "th_setname t thread name k1"]
  by (auto simp: osCreateTask_def Let_def split_def)

text \<open>Tasks whose stack is too small for the library run on the default one.\<close>

lemma create_all:
  assumes "\<forall>(fn, name, n, prio) \<in> set es. n < 16384" "create_tasks t es k = Inr (ids, k')"
  shows "length ids = length es \<and> distinct ids \<and> set ids \<inter> dom (running k) = {} \<and>
    running k' = (running k)(ids [\<mapsto>] map (\<lambda>e. (fst e, None)) es)"
  using assms
proof (induction es arbitrary: k ids)
  case (Cons e es)
  obtain fn name n prio where e: "e = (fn, name, n, prio)" by (cases e)
  obtain rc thread k1 where new: "th_create t fn (stack_of t n) k = (rc, thread, k1)"
    by (cases "th_create t fn (stack_of t n) k") auto
  have small: "stack_of t n = None" using Cons.prems(1) e by (auto simp: stack_of_def stack)
  have "rc = 0" using create_task(1) [OF new, of name prio] Cons.prems(2) e by (cases "rc = 0") auto
  then obtain out k2 where k2: "osCreateTask t fn name n prio k = Inr (0, thread, out, k2)" "running k thread = None"
    "running k2 = (running k)(thread \<mapsto> (fn, None))"
    using create_task(2) [OF new, of name prio] small by auto
  obtain ids' where ids: "create_tasks t es k2 = Inr (ids', k')" "ids = thread # ids'"
    using Cons.prems(2) k2(1) e by (auto simp: c_bind_Inr_iff)
  have "length ids' = length es \<and> distinct ids' \<and> set ids' \<inter> dom (running k2) = {} \<and>
      running k' = (running k2)(ids' [\<mapsto>] map (\<lambda>e. (fst e, None)) es)"
    by (rule Cons.IH [OF _ ids(1)]) (use Cons.prems(1) in auto)
  then show ?case using k2 ids(2) e by auto
qed simp

end

text \<open>A kernel that numbers its threads and has room for a given number of them.\<close>

definition sim_pthreads :: "nat \<Rightarrow> (nat \<times> running) pthreads" where
  "sim_pthreads room = \<lparr> th_stack_ok = (\<lambda>n. 16384 \<le> n),
     th_create = (\<lambda>fn stk (n, run). if n < room \<and> run n = None then (0, n, n + 1, run(n \<mapsto> (fn, stk))) else (11, 0, n, run)),
     th_setname = (\<lambda>thread name k. k), th_setschedparam = (\<lambda>thread prio k. (1, k)), th_self = (\<lambda>k. 0),
     th_cancel = (\<lambda>thread k. (0, k)), th_join = (\<lambda>thread k. k) \<rparr>"

interpretation sim_threads: posix "sim_pthreads room" snd for room
  by unfold_locales (auto simp: sim_pthreads_def split: if_splits)

section \<open>FreeRTOS\<close>

text \<open>
  The conversions of times, with \<open>tick\<close> for \<^verbatim>\<open>portTICK_RATE_MS\<close>, the milliseconds of a tick (1 on the Atmel
  board and 10 on the ESP32), and the results; handles and queues are those of FreeRTOS.
\<close>

abbreviation (input) portMAX_DELAY :: nat where "portMAX_DELAY \<equiv> 2 ^ 32 - 1"

definition rtos_define_time :: "nat \<Rightarrow> nat \<Rightarrow> nat" where
  "rtos_define_time tick mseconds = mseconds div tick"

definition rtos_delay :: "nat \<Rightarrow> (nat \<Rightarrow> 'k \<Rightarrow> 'k) \<Rightarrow> nat \<Rightarrow> 'k \<Rightarrow> 'k" where
  "rtos_delay tick vTaskDelay mseconds k = vTaskDelay (mseconds div tick) k"

definition rtos_delay_until :: "nat \<Rightarrow> (nat \<Rightarrow> nat \<Rightarrow> 'k \<Rightarrow> nat \<times> 'k) \<Rightarrow> nat \<Rightarrow> nat \<Rightarrow> 'k \<Rightarrow> nat \<times> 'k" where
  "rtos_delay_until tick vTaskDelayUntil lastTime mseconds k = vTaskDelayUntil lastTime (rtos_define_time tick mseconds) k"

definition rtos_semaphore_create :: "('k \<Rightarrow> nat option \<times> 'k) \<Rightarrow> 'k \<Rightarrow> bool \<times> nat option \<times> 'k" where
  "rtos_semaphore_create xSemaphoreCreateMutex k = (let (m, k) = xSemaphoreCreateMutex k in (m \<noteq> None, m, k))"

definition rtos_semaphore_take :: "nat \<Rightarrow> (nat \<Rightarrow> 'k \<Rightarrow> bool \<times> 'k) \<Rightarrow> nat \<Rightarrow> 'k \<Rightarrow> bool \<times> 'k" where
  "rtos_semaphore_take tick xSemaphoreTake timeout k =
     xSemaphoreTake (if timeout \<noteq> portMAX_DELAY then timeout div tick else timeout) k"

definition rtos_semaphore_given :: "('k \<Rightarrow> bool \<times> 'k) \<Rightarrow> 'k \<Rightarrow> bool \<times> 'k" where
  "rtos_semaphore_given xSemaphoreGive k = xSemaphoreGive k"

text \<open>The queues are given the milliseconds as they are.\<close>

definition rtos_queue_send :: "('i \<Rightarrow> nat \<Rightarrow> 'k \<Rightarrow> bool \<times> 'k) \<Rightarrow> 'i \<Rightarrow> nat \<Rightarrow> 'k \<Rightarrow> bool \<times> 'k" where
  "rtos_queue_send xQueueSend v timeout k = xQueueSend v timeout k"

definition rtos_queue_receive :: "(nat \<Rightarrow> 'k \<Rightarrow> 'i option \<times> 'k) \<Rightarrow> nat \<Rightarrow> 'k \<Rightarrow> 'i option \<times> 'k" where
  "rtos_queue_receive xQueueReceive timeout k = xQueueReceive timeout k"

definition rtos_create_task ::
  "(string \<Rightarrow> string \<Rightarrow> nat \<Rightarrow> nat \<Rightarrow> 'k \<Rightarrow> bool \<times> 'k) \<Rightarrow> string \<Rightarrow> string \<Rightarrow> nat \<Rightarrow> nat \<Rightarrow> 'k \<Rightarrow> int \<times> 'k" where
  "rtos_create_task xTaskCreate functionTask name stack_size priority k =
     (let (created, k) = xTaskCreate functionTask name (stack_size mod 2 ^ 16) priority k in (if created then 0 else 1, k))"

text \<open>The other wrappers; \<open>n\<close> is the number of rounds of the loop behind a scheduler that has come back.\<close>

definition rtos_queue_create :: "(int \<Rightarrow> nat \<Rightarrow> 'k \<Rightarrow> nat option \<times> 'k) \<Rightarrow> int \<Rightarrow> nat \<Rightarrow> 'k \<Rightarrow> nat option \<times> 'k" where
  "rtos_queue_create xQueueCreate len item_size k = xQueueCreate len item_size k"

definition rtos_tick_count :: "('k \<Rightarrow> nat) \<Rightarrow> 'k \<Rightarrow> nat" where
  "rtos_tick_count xTaskGetTickCount k = xTaskGetTickCount k"

definition rtos_task_delete :: "(nat option \<Rightarrow> 'k \<Rightarrow> 'k) \<Rightarrow> nat option \<Rightarrow> 'k \<Rightarrow> 'k" where
  "rtos_task_delete vTaskDelete task_handle k = vTaskDelete task_handle k"

definition rtos_scheduler :: "('k \<Rightarrow> 'k) \<Rightarrow> nat \<Rightarrow> 'k \<Rightarrow> string list \<times> 'k" where
  "rtos_scheduler vTaskStartScheduler n k =
     (''[INFO] Starting FreeRTOS scheduler...'' # replicate n ''[ERROR] FreeRTOS scheduler stopped!'', vTaskStartScheduler k)"

text \<open>A delay is never longer than asked for, and less than a tick shorter.\<close>

lemma rtos_ticks:
  assumes "0 < tick"
  shows "rtos_define_time tick ms * tick \<le> ms" "ms < (rtos_define_time tick ms + 1) * tick"
  using assms dividend_less_div_times [OF assms, of ms] by (simp_all add: rtos_define_time_def)

section \<open>Properties\<close>

lemma map_upds_values:
  "distinct xs \<Longrightarrow> length xs = length ys \<Longrightarrow> map (m(xs [\<mapsto>] ys)) xs = map Some ys"
proof (induction xs arbitrary: m ys)
  case (Cons x xs)
  obtain y ys' where "ys = y # ys'" using Cons.prems by (cases ys) auto
  moreover have "map ((m(x \<mapsto> y))(xs [\<mapsto>] ys')) xs = map Some ys'"
    using Cons calculation by (intro Cons.IH) auto
  moreover have "((m(x \<mapsto> y))(xs [\<mapsto>] ys')) x = Some y" using Cons.prems by (simp add: map_upds_apply_nontin)
  ultimately show ?case by (simp del: map_upds_twist fun_upd_apply)
qed simp



end
