(* ===== verification/StartUp.thy ===== *)
theory StartUp
  imports TaskCommon Pipeline OsThreads
begin

text \<open>
  Start-up: \<^verbatim>\<open>main\<close> builds the command table and the data repository, creates the queues and starts the
  dispatcher, the executer and \<^verbatim>\<open>taskInit\<close>, which runs the commands of the first boot and starts the
  client tasks.  The calls that set up the boards and libcsp are calls of libraries.
\<close>

section \<open>main\<close>

text \<open>
  The state when the scheduler starts, and the tasks created, by the C names of their functions.  None
  is the build whose command table never fills up.
\<close>

definition main_tasks :: "string list" where
  "main_tasks = map fst main_threads"

text \<open>
  The two repositories are initialised by \<^verbatim>\<open>main\<close>, and on the ESP32 already by its \<^verbatim>\<open>on_reset\<close>; on the other
  boards \<^verbatim>\<open>on_reset\<close> touches neither.
\<close>

definition init_repos ::
  "sch_config \<Rightarrow> 'x storage \<Rightarrow> cmd_repo \<times> 'x dat_state \<Rightarrow> (cmd_repo \<times> 'x dat_state) c_result option" where
  "init_repos c st p =
     (case cmd_repo_init c (fst p) of
        None \<Rightarrow> None
      | Some (rc, r) \<Rightarrow> Some (c_bind (dat_repo_init c st (snd p)) (\<lambda>s. Inr (r, s))))"

definition on_reset_repos ::
  "sch_config \<Rightarrow> 'x storage \<Rightarrow> cmd_repo \<times> 'x dat_state \<Rightarrow> (cmd_repo \<times> 'x dat_state) c_result option" where
  "on_reset_repos c st p = (if platform_of c = ESP32 then init_repos c st p else Some (Inr p))"

definition main_start ::
  "sch_config \<Rightarrow> 'x storage \<Rightarrow> 'x dat_state \<Rightarrow> 's \<Rightarrow> (cmd_repo \<times> 'x dat_state \<times> 's pipeline) c_result option" where
  "main_start c st s a =
     (case on_reset_repos c st (cmd_repo_start, s) of
        None \<Rightarrow> None
      | Some (Inl e) \<Rightarrow> Some (Inl e)
      | Some (Inr p) \<Rightarrow> map_option (\<lambda>x. c_bind x (\<lambda>(r, s). Inr (r, s, main_queues a))) (init_repos c st p))"

section \<open>taskInit\<close>

text \<open>
  The commands of the first boot; with \<open>dbg\<close> the build logs at debug level and reads every parameter of
  the transceiver back.
\<close>

definition trx_parameter :: "bool \<Rightarrow> string \<Rightarrow> string \<Rightarrow> (string \<times> params) list" where
  "trx_parameter dbg name value = requests
     [(True, ''com_set_config'', VarParams [AStr name, AStr value]),
      (dbg, ''com_get_config'', StrParams name)]"

definition init_requests :: "bool \<Rightarrow> (string \<times> params) list" where
  "init_requests dbg =
     [(''istage_pwr'', StrParams ''1 0''),
      (''istage_update_status'', NoParams),
      (''istage_antenna_release'', VarParams [AInt 16, AInt 2, AInt 1, AInt 5]),
      (''istage_antenna_release'', VarParams [AInt 17, AInt 2, AInt 1, AInt 5]),
      (''istage_antenna_release'', VarParams [AInt 18, AInt 2, AInt 1, AInt 5]),
      (''istage_antenna_release'', VarParams [AInt 19, AInt 2, AInt 1, AInt 5]),
      (''istage_update_status'', NoParams)] @
     trx_parameter dbg ''tx_inhibit'' ''10'' @
     trx_parameter dbg ''tx_pwr'' ''0'' @
     trx_parameter dbg ''bcn_interval'' ''60'' @
     trx_parameter dbg ''freq'' ''437250000'' @
     trx_parameter dbg ''baud'' ''4800''"

definition init_routines :: "sch_config \<Rightarrow> bool \<Rightarrow> cmd_repo \<Rightarrow> cmd_t list c_result" where
  "init_routines c dbg r = send_each c r (init_requests dbg)"

definition first_boot :: "sch_config \<Rightarrow> 'x storage \<Rightarrow> 'x dat_state \<Rightarrow> bool" where
  "first_boot c st s \<longleftrightarrow> \<not> dat_get_system_var c st dat_dep_deployed s > 0"

text \<open>No configuration defines \<^verbatim>\<open>SCH_RWTEST_ENABLED\<close>, so the reaction wheel task is never started.\<close>

definition client_tasks :: "sch_config \<Rightarrow> string list" where
  "client_tasks c = map fst (client_threads c)"

text \<open>The commands sent, the tasks started, the data; \<open>reset_source\<close> is what the Nanomind reports.\<close>

definition taskInit ::
  "sch_config \<Rightarrow> 'x storage \<Rightarrow> bool \<Rightarrow> int \<Rightarrow> cmd_repo \<Rightarrow> 'x dat_state \<Rightarrow>
     (cmd_t list \<times> string list \<times> 'x dat_state) c_result" where
  "taskInit c st dbg reset_source r s =
     (let s = (if platform_of c = NANOMIND then dat_set_system_var c st dat_obc_last_reset reset_source s else s)
      in c_bind (if first_boot c st s then init_routines c dbg r else Inr []) (\<lambda>ks.
           Inr (ks, client_tasks c, s)))"

section \<open>The first boot\<close>

lemma init_requests_fit: "\<forall>q \<in> set (init_requests dbg). request_fits c q"
proof -
  have "l_fmt e = ''%d %d %d %d''" if "e \<in> set (cmd_table c)" "l_name e = ''istage_antenna_release''" for e
    using that by (auto simp: cmd_table_def cmd_tables use_nanopower_def use_nanocom_def cmd_entry_def split: if_splits)
  moreover have "l_fmt e = ''%s %s''" if "e \<in> set (cmd_table c)" "l_name e = ''com_set_config''" for e
    using that by (auto simp: cmd_table_def cmd_tables use_nanopower_def use_nanocom_def cmd_entry_def split: if_splits)
  moreover have "length (vsprintf (directives ''%d %d %d %d'') [AInt a, AInt 2, AInt 1, AInt 5]) < 64"
    if "a \<in> {16, 17, 18, 19}" for a
    using that by (elim insertE) (simp_all, code_simp+)
  moreover have "length (vsprintf (directives ''%s %s'') [AStr a, AStr b]) < 64"
    if "(a, b) \<in> {(''tx_inhibit'', ''10''), (''tx_pwr'', ''0''), (''bcn_interval'', ''60''), (''freq'', ''437250000''),
      (''baud'', ''4800'')}" for a b
    using that by (elim insertE) (simp_all, code_simp+)
  ultimately show ?thesis
    by (auto simp: init_requests_def trx_parameter_def request_fits_def)
qed

text \<open>The commands of the first boot as C functions with the text of their parameters.\<close>

definition boot_plan :: "bool \<Rightarrow> bool \<Rightarrow> (string \<times> string) list" where
  "boot_plan comm dbg =
     [(''gssb_pwr'', ''1 0''), (''gssb_istage_update_status'', ''''),
      (''gssb_istage_antenna_release'', ''16 2 1 5''), (''gssb_istage_antenna_release'', ''17 2 1 5''),
      (''gssb_istage_antenna_release'', ''18 2 1 5''), (''gssb_istage_antenna_release'', ''19 2 1 5''),
      (''gssb_istage_update_status'', '''')] @
     (if comm then concat (map (\<lambda>(n, v). (''com_set_config'', n @ '' '' @ v) #
          (if dbg then [(''com_get_config'', n)] else []))
        [(''tx_inhibit'', ''10''), (''tx_pwr'', ''0''), (''bcn_interval'', ''60''), (''freq'', ''437250000''),
         (''baud'', ''4800'')])
      else [])"

lemma cmds_for_unregistered: "name \<notin> l_name ` set (cmd_table c) \<Longrightarrow> cmds_for c (name, p) = []"
  by (auto simp: cmds_for_def filter_empty_conv)

lemma boot_entries:
  assumes "platform_of c = NANOMIND"
  shows "cmd_entry ''istage_pwr'' ''gssb_pwr'' ''%d %d'' 2 \<in> set (cmd_table c)"
    "cmd_entry ''istage_update_status'' ''gssb_istage_update_status'' '''' 0 \<in> set (cmd_table c)"
    "cmd_entry ''istage_antenna_release'' ''gssb_istage_antenna_release'' ''%d %d %d %d'' 4 \<in> set (cmd_table c)"
    "comm_enable c \<Longrightarrow> cmd_entry ''com_set_config'' ''com_set_config'' ''%s %s'' 2 \<in> set (cmd_table c)"
    "comm_enable c \<Longrightarrow> cmd_entry ''com_get_config'' ''com_get_config'' ''%s'' 1 \<in> set (cmd_table c)"
  using assms by (simp_all add: cmd_table_def cmd_obc_table_def cmd_com_table_def use_nanocom_def)

lemma boot_unregistered:
  assumes "platform_of c \<noteq> NANOMIND \<or> \<not> comm_enable c"
  shows "''com_set_config'' \<notin> l_name ` set (cmd_table c)" "''com_get_config'' \<notin> l_name ` set (cmd_table c)"
    "platform_of c \<noteq> NANOMIND \<Longrightarrow> name \<in> {''istage_pwr'', ''istage_update_status'', ''istage_antenna_release''} \<Longrightarrow>
       name \<notin> l_name ` set (cmd_table c)"
  using assms by (auto simp: cmd_table_def cmd_tables use_nanopower_def use_nanocom_def cmd_entry_def split: if_splits)

lemma boot_texts:
  "vsprintf (directives ''%d %d %d %d'') [AInt 16, AInt 2, AInt 1, AInt 5] = ''16 2 1 5''"
  "vsprintf (directives ''%d %d %d %d'') [AInt 17, AInt 2, AInt 1, AInt 5] = ''17 2 1 5''"
  "vsprintf (directives ''%d %d %d %d'') [AInt 18, AInt 2, AInt 1, AInt 5] = ''18 2 1 5''"
  "vsprintf (directives ''%d %d %d %d'') [AInt 19, AInt 2, AInt 1, AInt 5] = ''19 2 1 5''"
  "vsprintf (directives ''%s %s'') [AStr a, AStr b] = a @ '' '' @ b"
  by (code_simp, code_simp, code_simp, code_simp, code_simp, simp)

definition call_of :: "cmd_t \<Rightarrow> string \<times> char list option" where
  "call_of k = (c_function k, c_params k)"

lemma call_of_forget [simp]: "call_of (forget_id k) = call_of k"
  by (simp add: call_of_def forget_id_def)

lemma boot_commands:
  "map call_of (concat (map (cmds_for c) (init_requests dbg))) =
     (if platform_of c = NANOMIND then map (map_prod id param_block) (boot_plan (comm_enable c) dbg) else [])"
proof (cases "platform_of c = NANOMIND")
  case True
  note e = boot_entries [OF this]
  note b = cmds_for_entry [OF e(1)] cmds_for_entry [OF e(2)] cmds_for_entry [OF e(3)]
  show ?thesis
  proof (cases "comm_enable c")
    case comm: True
    show ?thesis
      using True comm
      by (simp add: init_requests_def trx_parameter_def boot_plan_def b cmds_for_entry [OF e(4) [OF comm]]
          cmds_for_entry [OF e(5) [OF comm]] boot_texts call_of_def del: directives.simps vsprintf.simps)
  next
    case False
    then show ?thesis
      using True by (simp add: init_requests_def trx_parameter_def boot_plan_def b boot_texts call_of_def
          cmds_for_unregistered boot_unregistered del: directives.simps vsprintf.simps)
  qed
qed (simp add: init_requests_def trx_parameter_def cmds_for_unregistered boot_unregistered)

section \<open>Properties\<close>

text \<open>
  C37.  The first boot.  When no deployment is recorded, \<^verbatim>\<open>taskInit\<close> sends on a Nanomind the commands that power
  the panel, release the four antennas and, with communications, configure the transceiver, in this
  order and with these parameters; they are at most 17, so all of them fit into the dispatcher's queue.
  On any other platform, and on every later boot, it sends nothing.  It starts the client tasks the build
  enables, and changes nothing of the data but the reset source on the Nanomind.
\<close>

theorem taskInit_spec:
  assumes "table_built c r" "dat_inv c st s" "in_i32 reset_source"
  shows "\<exists>ks s'. taskInit c st dbg reset_source r s = Inr (ks, client_tasks c, s') \<and> length ks \<le> 17 \<and>
    map call_of ks = (if platform_of c = NANOMIND \<and> dat_get_system_var c st dat_dep_deployed s \<le> 0
       then map (map_prod id param_block) (boot_plan (comm_enable c) dbg) else []) \<and>
    dat_get_system_var c st v s' = (if platform_of c = NANOMIND \<and> v = dat_obc_last_reset then reset_source
       else dat_get_system_var c st v s)"
proof -
  let ?s = "if platform_of c = NANOMIND then dat_set_system_var c st dat_obc_last_reset reset_source s else s"
  have first: "first_boot c st ?s \<longleftrightarrow> dat_get_system_var c st dat_dep_deployed s \<le> 0"
    using assms(2,3) by (auto simp: first_boot_def dat_simps)
  obtain ks where ks: "send_each c r (init_requests dbg) = Inr ks"
    "map forget_id ks = concat (map (cmds_for c) (init_requests dbg))"
    using send_each_built [OF assms(1) init_requests_fit] by blast
  have "map call_of ks = map call_of (map forget_id ks)" by simp
  then have calls: "map call_of ks = (if platform_of c = NANOMIND
      then map (map_prod id param_block) (boot_plan (comm_enable c) dbg) else [])"
    unfolding ks(2) boot_commands .
  have "length (boot_plan (comm_enable c) dbg) \<le> 17" by (simp add: boot_plan_def)
  then have "length ks \<le> 17" using arg_cong [OF calls, of length] by (simp split: if_splits)
  then show ?thesis
    using first calls ks(1) assms(2,3) by (auto simp: taskInit_def init_routines_def Let_def dat_simps)
qed

theorem taskInit_spec_witness:
  "let c = config_h\<lparr> platform_of := NANOMIND, cmd_max_entries := 100 \<rparr> in
   \<exists>ks s'. taskInit c no_storage True 4 (snd (the (cmd_repo_init c cmd_repo_start))) dat_zero =
     Inr (ks, [''taskConsole'', ''taskCommunications''], s') \<and>
     map call_of ks = map (map_prod id param_block) (boot_plan True True) \<and>
     dat_get_system_var c no_storage dat_obc_last_reset s' = 4"
proof -
  let ?c = "config_h\<lparr> platform_of := NANOMIND, cmd_max_entries := 100 \<rparr>"
  have wf: "cmd_wf ?c cmd_repo_start" by (simp add: cmd_wf_def cmd_repo_start_def)
  have "length (cmd_table ?c) < cmd_max_entries ?c" by (simp add: length_cmd_table config_h_def)
  then have built: "table_built ?c (snd (the (cmd_repo_init ?c cmd_repo_start)))"
    using cmd_repo_init_ok [OF wf] cmd_repo_init_built [OF wf] by (metis option.sel snd_conv)
  have inv: "dat_inv ?c no_storage dat_zero"
    by (simp add: dat_inv_def dat_zero_def config_h_def buff_size_def)
  have zero: "dat_get_system_var ?c no_storage dat_dep_deployed dat_zero = 0"
    by (simp add: dat_get_system_var_def cell_get_def dat_zero_def config_h_def)
  have c: "platform_of ?c = NANOMIND" "comm_enable ?c"
    "client_tasks ?c = [''taskConsole'', ''taskCommunications'']"
    by (simp_all add: config_h_def client_tasks_def client_threads_def)
  show ?thesis
    unfolding Let_def
    using taskInit_spec [OF built inv, of 4 True dat_obc_last_reset] zero c by (auto simp: in_i32_def)
qed

lemma init_repos_ram:
  assumes "storage_mode c = 0" "length (cmd_table c) < cmd_max_entries c" "cmd_wf c (fst p)" "length (var_buff (snd p)) = buff_size c"
  shows "\<exists>r s. init_repos c st p = Some (Inr (r, s)) \<and> cmd_wf c r \<and> table_built c r \<and> dat_inv c st s \<and>
    length (var_buff s) = buff_size c \<and> dat_get_system_var c st dat_dep_deployed s = INT_MAX"
proof -
  obtain rc r where r: "cmd_repo_init c (fst p) = Some (rc, r)"
    using cmd_repo_init_ok [OF assms(3,2)] by (metis surj_pair)
  obtain s where "dat_repo_init c st (snd p) = Inr s" "dat_inv c st s" "dat_get_system_var c st dat_dep_deployed s = INT_MAX"
    using dat_repo_init_ram_vars [OF assms(1,4), of st dat_dep_deployed] by auto
  then show ?thesis
    using r cmd_repo_init_built [OF assms(3) r] assms(1)
    by (auto simp: init_repos_def cmd_wf_def table_built_def dat_inv_def)
qed

text \<open>
  C38.  Booting with the repository in RAM.  Every build whose commands leave room in the table starts up,
  with the queues empty; but the record of the deployment is \<^verbatim>\<open>INT_MAX\<close> after every reset, so
  \<^verbatim>\<open>taskInit\<close> never takes a boot for the first one and sends no command.
\<close>

theorem boot_in_ram:
  assumes "storage_mode c = 0" "length (var_buff s) = buff_size c" "length (cmd_table c) < cmd_max_entries c"
    "in_i32 reset_source"
  shows "\<exists>r s1 s2. main_start c st s a = Some (Inr (r, s1, main_queues a)) \<and> table_built c r \<and> dat_inv c st s1 \<and>
    taskInit c st dbg reset_source r s1 = Inr ([], client_tasks c, s2)"
proof -
  have wf: "cmd_wf c cmd_repo_start" by (simp add: cmd_wf_def cmd_repo_start_def)
  obtain p where p: "on_reset_repos c st (cmd_repo_start, s) = Some (Inr p)" "cmd_wf c (fst p)" "length (var_buff (snd p)) = buff_size c"
    using init_repos_ram [OF assms(1,3), of "(cmd_repo_start, s)" st] wf assms(2)
    by (cases "platform_of c = ESP32") (auto simp: on_reset_repos_def)
  obtain r s1 where "init_repos c st p = Some (Inr (r, s1))" "table_built c r" "dat_inv c st s1"
    "dat_get_system_var c st dat_dep_deployed s1 = INT_MAX"
    using init_repos_ram [OF assms(1,3) p(2,3)] by blast
  then show ?thesis
    using p(1) assms(4) by (auto simp: main_start_def taskInit_def first_boot_def Let_def dat_simps)
qed

theorem boot_in_ram_witness:
  "\<exists>r s1 s2. main_start config_h no_storage dat_zero () = Some (Inr (r, s1, main_queues ())) \<and>
    taskInit config_h no_storage True 0 r s1 = Inr ([], [''taskConsole'', ''taskCommunications''], s2)"
proof -
  have c: "storage_mode config_h = 0" "length (var_buff dat_zero) = buff_size config_h"
    "client_tasks config_h = [''taskConsole'', ''taskCommunications'']"
    by (simp_all add: config_h_def dat_zero_def buff_size_def client_tasks_def client_threads_def)
  show ?thesis
    using boot_in_ram [OF c(1,2) config_h_start(2), of 0 no_storage "()" True] c(3) by (auto simp: in_i32_def)
qed

end
