(* ===== verification/TaskPhases.thy ===== *)
theory TaskPhases
  imports TaskCommon
begin

text \<open>
  The two periodic tasks that fly the mission: housekeeping (\<^verbatim>\<open>taskHousekeeping.c\<close>) and the reaction
  wheel test (\<^verbatim>\<open>taskRWTest.c\<close>).  Both derive the balloon phase from the minutes alive and send
  commands at fixed seconds, some of them only in some phases.  One round of each loop is a
  function of the seconds counter and the data repository.
\<close>

section \<open>Phases\<close>

datatype (plugins only: code) phase_n =
  phase_a0 | phase_a1 | phase_a | phase_b | phase_b1 | phase_b2 | phase_c | phase_c1

fun phase_code :: "phase_n \<Rightarrow> int" where
  "phase_code phase_a0 = 0" | "phase_code phase_a1 = 1" | "phase_code phase_a = 2" | "phase_code phase_b = 3"
| "phase_code phase_b1 = 4" | "phase_code phase_b2 = 5" | "phase_code phase_c = 6" | "phase_code phase_c1 = 7"

abbreviation (input) MIN_PHASE_A :: int where "MIN_PHASE_A \<equiv> 20"
abbreviation (input) MIN_PHASE_A1 :: int where "MIN_PHASE_A1 \<equiv> 26"
abbreviation (input) MIN_PHASE_B :: int where "MIN_PHASE_B \<equiv> 60"
abbreviation (input) MIN_PHASE_B1 :: int where "MIN_PHASE_B1 \<equiv> 95"
abbreviation (input) MIN_PHASE_B2 :: int where "MIN_PHASE_B2 \<equiv> 101"
abbreviation (input) MIN_PHASE_C :: int where "MIN_PHASE_C \<equiv> 107"
abbreviation (input) MIN_PHASE_C1 :: int where "MIN_PHASE_C1 \<equiv> 138"

abbreviation (input) RW_MIN_PHASE_A :: int where "RW_MIN_PHASE_A \<equiv> 10"
abbreviation (input) RW_MIN_PHASE_A1 :: int where "RW_MIN_PHASE_A1 \<equiv> 41"
abbreviation (input) RW_MIN_PHASE_B :: int where "RW_MIN_PHASE_B \<equiv> 72"
abbreviation (input) RW_MIN_PHASE_B1 :: int where "RW_MIN_PHASE_B1 \<equiv> 103"
abbreviation (input) RW_MIN_PHASE_B2 :: int where "RW_MIN_PHASE_B2 \<equiv> 134"
abbreviation (input) RW_MIN_PHASE_C :: int where "RW_MIN_PHASE_C \<equiv> 165"
abbreviation (input) RW_MIN_PHASE_C1 :: int where "RW_MIN_PHASE_C1 \<equiv> 196"

text \<open>The inner conditional of every branch.\<close>

definition enter_phase :: "sch_config \<Rightarrow> 'x storage \<Rightarrow> int \<Rightarrow> phase_n \<Rightarrow> 'x dat_state \<Rightarrow> 'x dat_state" where
  "enter_phase c st current_phase p s =
     (if current_phase \<noteq> phase_code p then dat_set_system_var c st dat_balloon_phase (phase_code p) s else s)"

definition change_system_phase :: "sch_config \<Rightarrow> 'x storage \<Rightarrow> 'x dat_state \<Rightarrow> 'x dat_state" where
  "change_system_phase c st s =
     (let current_phase = dat_get_system_var c st dat_balloon_phase s;
          min_alive = dat_get_system_var c st dat_obc_hrs_alive s;
          enter = (\<lambda>p. enter_phase c st current_phase p s) in
      if min_alive = -1 then s
      else if min_alive \<le> MIN_PHASE_A then enter phase_a0
      else if min_alive > MIN_PHASE_A \<and> min_alive \<le> MIN_PHASE_A1 then enter phase_a1
      else if min_alive > MIN_PHASE_A1 \<and> min_alive \<le> MIN_PHASE_B then enter phase_a
      else if min_alive > MIN_PHASE_B \<and> min_alive \<le> MIN_PHASE_B1 then enter phase_b
      else if min_alive > MIN_PHASE_B1 \<and> min_alive \<le> MIN_PHASE_B2 then enter phase_b1
      else if min_alive > MIN_PHASE_B2 \<and> min_alive \<le> MIN_PHASE_C then enter phase_b2
      else if min_alive > MIN_PHASE_C \<and> min_alive \<le> MIN_PHASE_C1 then enter phase_c
      else if min_alive > MIN_PHASE_C1 then enter phase_c1
      else s)"

definition rw_change_system_phase :: "sch_config \<Rightarrow> 'x storage \<Rightarrow> 'x dat_state \<Rightarrow> 'x dat_state" where
  "rw_change_system_phase c st s =
     (let current_phase = dat_get_system_var c st dat_balloon_phase s;
          min_alive = dat_get_system_var c st dat_obc_hrs_alive s;
          enter = (\<lambda>p. enter_phase c st current_phase p s) in
      if min_alive = -1 then s
      else if min_alive \<le> RW_MIN_PHASE_A then enter phase_a0
      else if min_alive > RW_MIN_PHASE_A \<and> min_alive \<le> RW_MIN_PHASE_A1 then enter phase_a1
      else if min_alive > RW_MIN_PHASE_A1 \<and> min_alive \<le> RW_MIN_PHASE_B then enter phase_a
      else if min_alive > RW_MIN_PHASE_B \<and> min_alive \<le> RW_MIN_PHASE_B1 then enter phase_b
      else if min_alive > RW_MIN_PHASE_B1 \<and> min_alive \<le> RW_MIN_PHASE_B2 then enter phase_b1
      else if min_alive > RW_MIN_PHASE_B2 \<and> min_alive \<le> RW_MIN_PHASE_C then enter phase_b2
      else if min_alive > RW_MIN_PHASE_C \<and> min_alive \<le> RW_MIN_PHASE_C1 then enter phase_c
      else if min_alive > RW_MIN_PHASE_C1 then enter phase_c1
      else s)"

section \<open>One second of housekeeping\<close>

text \<open>
  \<open>near\<close> says that the height in the local \<^verbatim>\<open>prs_data_\<close> (uninitialised for the first ten minutes) is in
  the deployment band; it decides nothing, since the command behind it asks for phase B1 again.
  Rounds that read the latest pressure sample read it into that local.
\<close>

definition housekeeping_requests :: "bool \<Rightarrow> u32w \<Rightarrow> int \<Rightarrow> (string \<times> params) list" where
  "housekeeping_requests near elapsed_sec phase = requests
     [(elapsed_sec mod 10 = 1, ''get_gps_data'', NoParams),
      (elapsed_sec mod 10 = 4, ''get_prs_data'', NoParams),
      (elapsed_sec mod 60 = 0, ''get_dpl_data'', NoParams),
      (elapsed_sec mod 300 = 0, ''run_sstv'', NoParams),
      (elapsed_sec mod 600 = 0, ''send_xbee_data'', NoParams),
      (elapsed_sec mod 10 = 0, ''send_sun_data'', NoParams),
      (phase = phase_code phase_a0 \<and> elapsed_sec mod 300 = 0, ''open_dpl_1'', NoParams),
      ((phase = phase_code phase_b1 \<or> near) \<and> phase = phase_code phase_b1 \<and> elapsed_sec mod 20 = 0,
         ''open_dpl_1'', NoParams),
      (elapsed_sec mod 60 = 0, ''drp_add_hrs_alive'', VarParams [AInt 1])]"

text \<open>A round: the commands sent, the counter, the data repository.\<close>

definition taskHousekeeping ::
  "sch_config \<Rightarrow> 'x storage \<Rightarrow> cmd_repo \<Rightarrow> bool \<Rightarrow> u32w \<Rightarrow> 'x dat_state \<Rightarrow>
     (cmd_t list \<times> u32w \<times> 'x dat_state) c_result" where
  "taskHousekeeping c st r near elapsed_sec s =
     (let elapsed_sec = elapsed_sec + 1;
          s = change_system_phase c st s;
          phase = dat_get_system_var c st dat_balloon_phase s
      in c_bind (send_each c r (housekeeping_requests near elapsed_sec phase))
           (\<lambda>ks. Inr (ks, elapsed_sec, s)))"

section \<open>One second of the reaction wheel test\<close>

definition rw_requests :: "u32w \<Rightarrow> int \<Rightarrow> (string \<times> params) list" where
  "rw_requests elapsed_sec phase = requests
     [(phase = phase_code phase_a0 \<and> elapsed_sec mod 60 = 0, ''rw_set_speed'', StrParams ''100''),
      (phase = phase_code phase_a1 \<and> elapsed_sec mod 60 = 0, ''rw_set_speed'', StrParams ''158''),
      (phase = phase_code phase_a \<and> elapsed_sec mod 60 = 0, ''rw_set_speed'', StrParams ''217''),
      (phase = phase_code phase_b \<and> elapsed_sec mod 60 = 0, ''rw_set_speed'', StrParams ''276''),
      (phase = phase_code phase_b1 \<and> elapsed_sec mod 60 = 0, ''rw_set_speed'', StrParams ''334''),
      (phase = phase_code phase_b2 \<and> elapsed_sec mod 60 = 0, ''rw_set_speed'', StrParams ''393''),
      (phase = phase_code phase_c \<and> elapsed_sec mod 60 = 0, ''rw_set_speed'', StrParams ''452''),
      (phase = phase_code phase_c1 \<and> elapsed_sec mod 60 = 0, ''rw_set_speed'', StrParams ''511''),
      (elapsed_sec mod 60 = 0, ''drp_add_hrs_alive'', VarParams [AInt 1])]"

definition taskRWTest ::
  "sch_config \<Rightarrow> 'x storage \<Rightarrow> cmd_repo \<Rightarrow> u32w \<Rightarrow> 'x dat_state \<Rightarrow>
     (cmd_t list \<times> u32w \<times> 'x dat_state) c_result" where
  "taskRWTest c st r elapsed_sec s =
     (let elapsed_sec = elapsed_sec + 1;
          s = rw_change_system_phase c st s;
          phase = dat_get_system_var c st dat_balloon_phase s
      in c_bind (send_each c r (rw_requests elapsed_sec phase))
           (\<lambda>ks. Inr (ks, elapsed_sec, s)))"

section \<open>A phase automaton\<close>

text \<open>
  The contract both tasks implement: the phase is the number of limits the minutes have passed.
\<close>

definition phase_at :: "int list \<Rightarrow> int \<Rightarrow> int" where
  "phase_at limits m = int (length (filter (\<lambda>l. l < m) limits))"

lemma phase_at_mono: "m \<le> m' \<Longrightarrow> phase_at limits m \<le> phase_at limits m'"
  by (induction limits) (auto simp: phase_at_def)

lemma phase_at_range: "0 \<le> phase_at limits m \<and> phase_at limits m \<le> int (length limits)"
  by (simp add: phase_at_def)

locale phase_automaton =
  fixes inv :: "'s \<Rightarrow> bool"
    and minutes :: "'s \<Rightarrow> int"
    and phase :: "'s \<Rightarrow> int"
    and change :: "'s \<Rightarrow> 's"
    and limits :: "int list"
  assumes inv_change: "inv s \<Longrightarrow> inv (change s)"
    and minutes_change: "inv s \<Longrightarrow> minutes (change s) = minutes s"
    and phase_change: "inv s \<Longrightarrow> minutes s \<noteq> -1 \<Longrightarrow> phase (change s) = phase_at limits (minutes s)"
    and no_clock: "minutes s = -1 \<Longrightarrow> change s = s"
begin

lemma change_idem: "inv s \<Longrightarrow> phase (change (change s)) = phase (change s)"
  by (cases "minutes s = -1") (simp_all add: no_clock phase_change minutes_change inv_change)

text \<open>As long as the minutes do not go back, neither does the phase.\<close>

lemma never_back:
  assumes "inv s" "inv s'" "minutes s \<noteq> -1" "minutes s' \<noteq> -1" "minutes s \<le> minutes s'"
  shows "phase (change s) \<le> phase (change s')"
  using assms by (simp add: phase_change phase_at_mono)

lemma one_step:
  assumes "inv s" "minutes s \<noteq> -1"
  shows "0 \<le> phase (change s) \<and> phase (change s) \<le> int (length limits)"
  using assms phase_at_range by (simp add: phase_change)

end

definition hk_limits :: "int list" where
  "hk_limits = [MIN_PHASE_A, MIN_PHASE_A1, MIN_PHASE_B, MIN_PHASE_B1, MIN_PHASE_B2, MIN_PHASE_C, MIN_PHASE_C1]"

definition rw_limits :: "int list" where
  "rw_limits = [RW_MIN_PHASE_A, RW_MIN_PHASE_A1, RW_MIN_PHASE_B, RW_MIN_PHASE_B1, RW_MIN_PHASE_B2,
     RW_MIN_PHASE_C, RW_MIN_PHASE_C1]"

text \<open>What a change of phase does to every variable.\<close>

lemma enter_phase_get:
  assumes "dat_inv c st s"
  shows "dat_inv c st (enter_phase c st (dat_get_system_var c st dat_balloon_phase s) p s)"
    "dat_get_system_var c st w (enter_phase c st (dat_get_system_var c st dat_balloon_phase s) p s) =
       (if w = dat_balloon_phase then phase_code p else dat_get_system_var c st w s)"
proof -
  have "in_i32 (phase_code p)" by (cases p) (simp_all add: in_i32_def)
  then show "dat_inv c st (enter_phase c st (dat_get_system_var c st dat_balloon_phase s) p s)"
    "dat_get_system_var c st w (enter_phase c st (dat_get_system_var c st dat_balloon_phase s) p s) =
       (if w = dat_balloon_phase then phase_code p else dat_get_system_var c st w s)"
    using assms by (auto simp: enter_phase_def dat_simps)
qed

definition phase_after :: "int list \<Rightarrow> int \<Rightarrow> int \<Rightarrow> int" where
  "phase_after limits m current = (if m = -1 then current else phase_at limits m)"

lemma change_system_phase_get [phase_simps]:
  assumes "dat_inv c st s"
  shows "dat_inv c st (change_system_phase c st s)"
    "dat_get_system_var c st w (change_system_phase c st s) =
       (if w = dat_balloon_phase
        then phase_after hk_limits (dat_get_system_var c st dat_obc_hrs_alive s) (dat_get_system_var c st dat_balloon_phase s)
        else dat_get_system_var c st w s)"
  using assms
  by (auto simp: change_system_phase_def Let_def enter_phase_get phase_after_def phase_at_def hk_limits_def)

lemma rw_change_system_phase_get [phase_simps]:
  assumes "dat_inv c st s"
  shows "dat_inv c st (rw_change_system_phase c st s)"
    "dat_get_system_var c st w (rw_change_system_phase c st s) =
       (if w = dat_balloon_phase
        then phase_after rw_limits (dat_get_system_var c st dat_obc_hrs_alive s) (dat_get_system_var c st dat_balloon_phase s)
        else dat_get_system_var c st w s)"
  using assms
  by (auto simp: rw_change_system_phase_def Let_def enter_phase_get phase_after_def phase_at_def rw_limits_def)

interpretation hk: phase_automaton "dat_inv c st" "dat_get_system_var c st dat_obc_hrs_alive"
  "dat_get_system_var c st dat_balloon_phase" "change_system_phase c st" hk_limits for c st
  by unfold_locales (simp_all add: phase_simps phase_after_def, simp add: change_system_phase_def)

interpretation rw: phase_automaton "dat_inv c st" "dat_get_system_var c st dat_obc_hrs_alive"
  "dat_get_system_var c st dat_balloon_phase" "rw_change_system_phase c st" rw_limits for c st
  by unfold_locales (simp_all add: phase_simps phase_after_def, simp add: rw_change_system_phase_def)

section \<open>Properties\<close>

text \<open>
  C15.  The phase.  While the minutes alive are known (not -1), both tasks set the balloon phase to the
  number of their seven limits that the minutes have passed, which is one of the eight phases; they
  touch no other variable and repeating them changes nothing.  When the minutes are not known they
  change nothing at all.
\<close>

theorem change_system_phase_spec:
  assumes "dat_inv c st s" "m = dat_get_system_var c st dat_obc_hrs_alive s"
  shows "(m = -1 \<longrightarrow> change_system_phase c st s = s \<and> rw_change_system_phase c st s = s) \<and>
    (m \<noteq> -1 \<longrightarrow>
      dat_get_system_var c st dat_balloon_phase (change_system_phase c st s) = phase_at hk_limits m \<and>
      dat_get_system_var c st dat_balloon_phase (rw_change_system_phase c st s) = phase_at rw_limits m \<and>
      phase_at hk_limits m \<in> phase_code ` UNIV \<and> phase_at rw_limits m \<in> phase_code ` UNIV) \<and>
    (\<forall>w. w \<noteq> dat_balloon_phase \<longrightarrow>
      dat_get_system_var c st w (change_system_phase c st s) = dat_get_system_var c st w s \<and>
      dat_get_system_var c st w (rw_change_system_phase c st s) = dat_get_system_var c st w s) \<and>
    dat_get_system_var c st dat_balloon_phase (change_system_phase c st (change_system_phase c st s)) =
      dat_get_system_var c st dat_balloon_phase (change_system_phase c st s)"
proof -
  have codes: "k \<in> phase_code ` UNIV" if "0 \<le> k" "k \<le> 7" for k
  proof -
    have "k \<in> phase_code ` {phase_a0, phase_a1, phase_a, phase_b, phase_b1, phase_b2, phase_c, phase_c1}"
      using that by simp linarith
    then show ?thesis by blast
  qed
  have "phase_at hk_limits m \<in> phase_code ` UNIV" "phase_at rw_limits m \<in> phase_code ` UNIV"
    using phase_at_range [of hk_limits m] phase_at_range [of rw_limits m]
    by (auto intro!: codes simp: hk_limits_def rw_limits_def)
  then show ?thesis
    using assms hk.no_clock [of c st s] rw.no_clock [of c st s] hk.change_idem [OF assms(1)]
    by (simp add: phase_simps phase_after_def)
qed

theorem change_system_phase_spec_witness:
  "let s = dat_set_system_var config_h no_storage dat_obc_hrs_alive 97 dat_zero in
   dat_get_system_var config_h no_storage dat_balloon_phase (change_system_phase config_h no_storage s) = 4 \<and>
   dat_get_system_var config_h no_storage dat_balloon_phase (rw_change_system_phase config_h no_storage s) = 3"
proof -
  let ?s = "dat_set_system_var config_h no_storage dat_obc_hrs_alive 97 dat_zero"
  have "dat_inv config_h no_storage ?s" "dat_get_system_var config_h no_storage dat_obc_hrs_alive ?s = 97"
    using dat_zero_inv by (simp_all add: dat_simps in_i32_def)
  from change_system_phase_spec [OF this(1) this(2) [symmetric]] show ?thesis
    by (simp add: Let_def phase_at_def hk_limits_def rw_limits_def)
qed

text \<open>
  C16.  The phase never goes back while the minutes alive do not, and never depends on how often or
  when the tasks ran in between.
\<close>

theorem phases_never_go_back:
  assumes "dat_inv c st s" "dat_inv c st s'"
    "0 \<le> dat_get_system_var c st dat_obc_hrs_alive s"
    "dat_get_system_var c st dat_obc_hrs_alive s \<le> dat_get_system_var c st dat_obc_hrs_alive s'"
  shows "dat_get_system_var c st dat_balloon_phase (change_system_phase c st s) \<le>
      dat_get_system_var c st dat_balloon_phase (change_system_phase c st s') \<and>
    dat_get_system_var c st dat_balloon_phase (rw_change_system_phase c st s) \<le>
      dat_get_system_var c st dat_balloon_phase (rw_change_system_phase c st s')"
  using assms by (auto intro: hk.never_back rw.never_back)

theorem phases_never_go_back_witness:
  "dat_get_system_var config_h no_storage dat_balloon_phase (change_system_phase config_h no_storage dat_zero) \<le>
     dat_get_system_var config_h no_storage dat_balloon_phase
       (change_system_phase config_h no_storage (dat_set_system_var config_h no_storage dat_obc_hrs_alive 97 dat_zero))"
proof -
  have z: "dat_get_system_var config_h no_storage dat_obc_hrs_alive dat_zero = 0"
    by code_simp
  show ?thesis
    using phases_never_go_back [of config_h no_storage dat_zero
        "dat_set_system_var config_h no_storage dat_obc_hrs_alive 97 dat_zero"] dat_zero_inv z
    by (simp add: dat_simps in_i32_def)
qed

section \<open>Which commands a round sends\<close>

lemma hk_entries:
  assumes "comm_enable c"
  shows "cmd_entry ''get_gps_data'' ''get_gps_data'' '''' 0 \<in> set (cmd_table c)"
    "cmd_entry ''get_prs_data'' ''get_prs_data'' '''' 0 \<in> set (cmd_table c)"
    "cmd_entry ''get_dpl_data'' ''get_dpl_data'' '''' 0 \<in> set (cmd_table c)"
    "cmd_entry ''run_sstv'' ''run_sstv'' '''' 0 \<in> set (cmd_table c)"
    "cmd_entry ''send_xbee_data'' ''send_xbee_data'' '''' 0 \<in> set (cmd_table c)"
    "cmd_entry ''send_sun_data'' ''send_sun_data'' '''' 0 \<in> set (cmd_table c)"
    "cmd_entry ''open_dpl_1'' ''open_dpl_1'' '''' 0 \<in> set (cmd_table c)"
  using assms by (simp_all add: cmd_table_def cmd_subsys_table_def)

lemma hrs_entry: "cmd_entry ''drp_add_hrs_alive'' ''drp_update_hours_alive'' ''%d'' 1 \<in> set (cmd_table c)"
  by (simp add: cmd_table_def cmd_drp_table_def)

lemma hrs_text: "vsprintf (directives ''%d'') [AInt 1] = ''1''"
  by code_simp

lemma hrs_fits: "request_fits c (''drp_add_hrs_alive'', VarParams [AInt 1])"
proof -
  have "l_fmt e = ''%d''" if "e \<in> set (cmd_table c)" "l_name e = ''drp_add_hrs_alive''" for e
  proof -
    have "e = cmd_entry ''drp_add_hrs_alive'' ''drp_update_hours_alive'' ''%d'' 1"
      using filter_distinct_name [OF distinct_cmd_table that(1)]
        filter_distinct_name [OF distinct_cmd_table hrs_entry, of c] that(2)
      by (simp add: cmd_entry_def)
    then show ?thesis by (simp add: cmd_entry_def)
  qed
  moreover have "length (vsprintf (directives ''%d'') [AInt 1]) < SCH_CMD_MAX_STR_PARAMS"
    unfolding hrs_text by simp
  ultimately have "\<forall>e \<in> set (cmd_table c). l_name e = ''drp_add_hrs_alive'' \<longrightarrow>
      length (vsprintf (directives (l_fmt e)) [AInt 1]) < SCH_CMD_MAX_STR_PARAMS"
    by metis
  then show ?thesis by (simp add: request_fits_def)
qed

lemma housekeeping_requests_fit: "\<forall>q \<in> set (housekeeping_requests near t phase). request_fits c q"
  using hrs_fits by (simp add: housekeeping_requests_def) (simp add: request_fits_def)

lemma rw_requests_fit: "\<forall>q \<in> set (rw_requests t phase). request_fits c q"
  using hrs_fits by (simp add: rw_requests_def) (simp add: request_fits_def)

lemma unat_word_of_nat_mod:
  assumes "n < 4294967296" "0 < k" "k < 4294967296" "j < k"
  shows "(word_of_nat n :: u32w) mod word_of_nat k = word_of_nat j \<longleftrightarrow> n mod k = j"
proof -
  have "unat ((word_of_nat n :: u32w) mod word_of_nat k) = n mod k"
    using assms by (simp add: unat_mod unat_of_nat take_bit_nat_eq_self)
  moreover have "unat (word_of_nat j :: u32w) = j" using assms by (simp add: unat_of_nat take_bit_nat_eq_self)
  ultimately show ?thesis by (simp only: word_unat_eq_iff)
qed

lemma second_mod:
  assumes "n < 4294967296"
  shows "(word_of_nat n :: u32w) mod 10 = 1 \<longleftrightarrow> n mod 10 = 1"
    "(word_of_nat n :: u32w) mod 10 = 4 \<longleftrightarrow> n mod 10 = 4"
    "(word_of_nat n :: u32w) mod 10 = 0 \<longleftrightarrow> n mod 10 = 0"
    "(word_of_nat n :: u32w) mod 20 = 0 \<longleftrightarrow> n mod 20 = 0"
    "(word_of_nat n :: u32w) mod 60 = 0 \<longleftrightarrow> n mod 60 = 0"
    "(word_of_nat n :: u32w) mod 300 = 0 \<longleftrightarrow> n mod 300 = 0"
    "(word_of_nat n :: u32w) mod 600 = 0 \<longleftrightarrow> n mod 600 = 0"
  using unat_word_of_nat_mod [OF assms, of 10 1] unat_word_of_nat_mod [OF assms, of 10 4]
    unat_word_of_nat_mod [OF assms, of 10 0] unat_word_of_nat_mod [OF assms, of 20 0]
    unat_word_of_nat_mod [OF assms, of 60 0] unat_word_of_nat_mod [OF assms, of 300 0]
    unat_word_of_nat_mod [OF assms, of 600 0] by simp_all

text \<open>
  A round of housekeeping as a whole: it never faults, the commands it sends are known up to their
  index, and the data repository is the one with the phase updated.
\<close>

lemma taskHousekeeping_run:
  assumes "table_built c r"
  shows "\<exists>ks. taskHousekeeping c st r near t s = Inr (ks, t + 1, change_system_phase c st s) \<and>
    map forget_id ks = concat (map (cmds_for c)
      (housekeeping_requests near (t + 1) (dat_get_system_var c st dat_balloon_phase (change_system_phase c st s))))"
proof -
  let ?q = "housekeeping_requests near (t + 1) (dat_get_system_var c st dat_balloon_phase (change_system_phase c st s))"
  obtain ks where "send_each c r ?q = Inr ks" "map forget_id ks = concat (map (cmds_for c) ?q)"
    using send_each_built [OF assms housekeeping_requests_fit] by blast
  then show ?thesis by (simp add: taskHousekeeping_def Let_def)
qed

text \<open>The round with its commands; the data are those with the phase updated.\<close>

lemma housekeeping_second:
  assumes "table_built c r" "comm_enable c" "dat_inv c st s" "n + 1 < 4294967296"
    and "m = dat_get_system_var c st dat_obc_hrs_alive s" "m \<noteq> -1"
  shows "\<exists>ks s'. taskHousekeeping c st r near (word_of_nat n) s = Inr (ks, word_of_nat (n + 1), s') \<and>
    s' = change_system_phase c st s \<and> dat_get_system_var c st dat_balloon_phase s' = phase_at hk_limits m \<and>
    map c_function ks =
      (if (n + 1) mod 10 = 1 then [''get_gps_data''] else []) @
      (if (n + 1) mod 10 = 4 then [''get_prs_data''] else []) @
      (if (n + 1) mod 60 = 0 then [''get_dpl_data''] else []) @
      (if (n + 1) mod 300 = 0 then [''run_sstv''] else []) @
      (if (n + 1) mod 600 = 0 then [''send_xbee_data''] else []) @
      (if (n + 1) mod 10 = 0 then [''send_sun_data''] else []) @
      (if m \<le> 20 \<and> (n + 1) mod 300 = 0 \<or> 95 < m \<and> m \<le> 101 \<and> (n + 1) mod 20 = 0 then [''open_dpl_1''] else []) @
      (if (n + 1) mod 60 = 0 then [''drp_update_hours_alive''] else [])"
proof -
  let ?s = "change_system_phase c st s" and ?t = "word_of_nat n + 1 :: u32w"
  have t: "?t = word_of_nat (n + 1)" by simp
  have ph: "dat_get_system_var c st dat_balloon_phase ?s = phase_at hk_limits m"
    using assms(3,5,6) by (simp add: phase_simps phase_after_def)
  have a0: "phase_at hk_limits m = 0 \<longleftrightarrow> m \<le> 20" and b1: "phase_at hk_limits m = 4 \<longleftrightarrow> 95 < m \<and> m \<le> 101"
    by (auto simp: phase_at_def hk_limits_def)
  obtain ks where run: "taskHousekeeping c st r near (word_of_nat n) s = Inr (ks, ?t, ?s)"
    and ks: "map forget_id ks = concat (map (cmds_for c) (housekeeping_requests near ?t (phase_at hk_limits m)))"
    using taskHousekeeping_run [OF assms(1), of st near "word_of_nat n" s] ph by auto
  have "map c_function ks = map c_function (map forget_id ks)" by (simp add: forget_id_def)
  note sec = second_mod [OF assms(4), folded t]
  have "map c_function ks = map c_function (concat (map (cmds_for c)
      (housekeeping_requests near ?t (phase_at hk_limits m))))"
    using ks \<open>map c_function ks = map c_function (map forget_id ks)\<close> by simp
  also have "\<dots> =
      (if (n + 1) mod 10 = 1 then [''get_gps_data''] else []) @
      (if (n + 1) mod 10 = 4 then [''get_prs_data''] else []) @
      (if (n + 1) mod 60 = 0 then [''get_dpl_data''] else []) @
      (if (n + 1) mod 300 = 0 then [''run_sstv''] else []) @
      (if (n + 1) mod 600 = 0 then [''send_xbee_data''] else []) @
      (if (n + 1) mod 10 = 0 then [''send_sun_data''] else []) @
      (if m \<le> 20 \<and> (n + 1) mod 300 = 0 \<or> 95 < m \<and> m \<le> 101 \<and> (n + 1) mod 20 = 0 then [''open_dpl_1''] else []) @
      (if (n + 1) mod 60 = 0 then [''drp_update_hours_alive''] else [])"
    unfolding housekeeping_requests_def
    by (simp add: sec a0 b1 cmds_for_entry [OF hk_entries(1) [OF assms(2)]] cmds_for_entry [OF hk_entries(2) [OF assms(2)]]
      cmds_for_entry [OF hk_entries(3) [OF assms(2)]] cmds_for_entry [OF hk_entries(4) [OF assms(2)]]
      cmds_for_entry [OF hk_entries(5) [OF assms(2)]] cmds_for_entry [OF hk_entries(6) [OF assms(2)]]
      cmds_for_entry [OF hk_entries(7) [OF assms(2)]] cmds_for_entry [OF hrs_entry] del: add_2_eq_Suc)
  finally show ?thesis using run ph t by auto
qed


definition repo_h :: cmd_repo where
  "repo_h = snd (the (cmd_repo_init config_h cmd_repo_start))"

lemma repo_h_built: "table_built config_h repo_h"
  using cmd_repo_init_built [OF config_h_start(1,3)] by (simp add: repo_h_def)

lemma config_h_flags: "comm_enable config_h" "platform_of config_h = LINUX" "storage_mode config_h = 0"
  by (simp_all add: config_h_def)


definition rw_speed :: "int \<Rightarrow> string" where
  "rw_speed phase = [''100'', ''158'', ''217'', ''276'', ''334'', ''393'', ''452'', ''511''] ! nat phase"

lemma rw_entry:
  assumes "comm_enable c" "platform_of c = LINUX"
  shows "cmd_entry ''rw_set_speed'' ''rw_set_speed'' ''%d'' 1 \<in> set (cmd_table c)"
  using assms by (simp add: cmd_table_def cmd_rw_table_def)

lemma rw_requests_at:
  assumes "phase_at rw_limits m = ph"
  shows "rw_requests t ph = (if t mod 60 = 0 then [(''rw_set_speed'', StrParams (rw_speed ph)),
      (''drp_add_hrs_alive'', VarParams [AInt 1])] else [])"
proof -
  have "0 \<le> ph \<and> ph \<le> 7" using phase_at_range [of rw_limits m] assms by (simp add: rw_limits_def)
  then have "ph \<in> {0, 1, 2, 3, 4, 5, 6, 7}" by auto
  then show ?thesis by (auto simp: rw_requests_def rw_speed_def)
qed

text \<open>
  The wheel test.  In a Linux build with communications the \<open>n\<close>-th second sends nothing unless \<open>n\<close>
  is a multiple of 60; then it sends \<^verbatim>\<open>rw_set_speed\<close> with the speed of the current phase as its text
  and adds one minute.
\<close>

lemma rw_timetable:
  assumes "table_built c r" "comm_enable c" "platform_of c = LINUX" "dat_inv c st s" "n + 1 < 4294967296"
    and "m = dat_get_system_var c st dat_obc_hrs_alive s" "m \<noteq> -1"
  shows "\<exists>ks s'. taskRWTest c st r (word_of_nat n) s = Inr (ks, word_of_nat (n + 1), s') \<and>
    dat_get_system_var c st dat_balloon_phase s' = phase_at rw_limits m \<and>
    map (\<lambda>k. (c_function k, c_params k)) ks =
      (if (n + 1) mod 60 = 0 then [(''rw_set_speed'', Some (rw_speed (phase_at rw_limits m) @ [NUL])),
         (''drp_update_hours_alive'', Some (''1'' @ [NUL]))] else [])"
proof -
  let ?s = "rw_change_system_phase c st s" and ?t = "word_of_nat n + 1 :: u32w" and ?ph = "phase_at rw_limits m"
  have ph: "dat_get_system_var c st dat_balloon_phase ?s = ?ph"
    using assms(4,6,7) by (simp add: phase_simps phase_after_def)
  obtain ks where send: "send_each c r (rw_requests ?t ?ph) = Inr ks"
    and ks: "map forget_id ks = concat (map (cmds_for c) (rw_requests ?t ?ph))"
    using send_each_built [OF assms(1) rw_requests_fit] by blast
  have "?ph \<in> {0, 1, 2, 3, 4, 5, 6, 7}" using phase_at_range [of rw_limits m] by (auto simp: rw_limits_def)
  then have blk: "param_block (rw_speed ?ph) = Some (rw_speed ?ph @ [NUL])"
    by (auto simp: rw_speed_def param_block_def strncpy_def)
  have one: "param_block ''1'' = Some (''1'' @ [NUL])" by (simp add: param_block_def strncpy_def)
  have sec: "?t mod 60 = 0 \<longleftrightarrow> (n + 1) mod 60 = 0" using second_mod(5) [OF assms(5)] by (simp add: add.commute)
  have hrs: "cmds_for c (''drp_add_hrs_alive'', VarParams [AInt 1]) = [\<lparr> c_id = 0, c_nparams = 1, c_fmt = ''%d'',
      c_params = Some (''1'' @ [NUL]), c_function = ''drp_update_hours_alive'' \<rparr>]"
    using cmds_for_entry [OF hrs_entry] by (simp only: param_text.simps hrs_text one)
  have "map (\<lambda>k. (c_function k, c_params k)) ks = map (\<lambda>k. (c_function k, c_params k)) (map forget_id ks)"
    by (simp add: forget_id_def)
  also have "\<dots> = (if (n + 1) mod 60 = 0 then [(''rw_set_speed'', Some (rw_speed ?ph @ [NUL])),
         (''drp_update_hours_alive'', Some (''1'' @ [NUL]))] else [])"
    unfolding ks rw_requests_at [OF refl] sec
    by (simp only: if_distrib [of "map _"] if_distrib [of concat]) (simp add: hrs cmds_for_entry [OF rw_entry [OF assms(2,3)]] blk)
  finally show ?thesis using send ph by (simp add: taskRWTest_def Let_def)
qed

lemma rw_timetable_witness:
  "let s = dat_set_system_var config_h no_storage dat_obc_hrs_alive 97 dat_zero in
   \<exists>ks s'. taskRWTest config_h no_storage repo_h (word_of_nat 59) s = Inr (ks, word_of_nat 60, s') \<and>
     map (\<lambda>k. (c_function k, c_params k)) ks =
       [(''rw_set_speed'', Some (''276'' @ [NUL])), (''drp_update_hours_alive'', Some (''1'' @ [NUL]))]"
proof -
  let ?s = "dat_set_system_var config_h no_storage dat_obc_hrs_alive 97 dat_zero"
  have "dat_inv config_h no_storage ?s" "dat_get_system_var config_h no_storage dat_obc_hrs_alive ?s = 97"
    using dat_zero_inv by (simp_all add: dat_simps in_i32_def)
  then show ?thesis
    using rw_timetable [OF repo_h_built, of no_storage ?s 59 97]
    by (auto simp: Let_def config_h_flags phase_at_def rw_limits_def rw_speed_def)
qed

end
