(* ===== verification/CmdCOM.thy ===== *)
theory CmdCOM
  imports CmdDRP
begin

text \<open>
  The communication commands (\<^verbatim>\<open>src/system/cmdCOM.c\<close>).  The network library (libcsp) and the radio's
  parameter client are not part of the sources: their functions are the fields of the records
  \<open>csp\<close> and \<open>ax100\<close>, over a network state \<open>'n\<close>.
\<close>

section \<open>The network\<close>

text \<open>
  \<open>csp_transaction\<close> gets node, port and message and returns its result and the byte it wrote into the
  reply buffer, if any; \<open>csp_buffer_get\<close> says whether a packet was allocated.
\<close>

record 'n csp =
  csp_ping :: "u8 \<Rightarrow> 'n \<Rightarrow> int \<times> 'n"
  csp_buffer_get :: "nat \<Rightarrow> 'n \<Rightarrow> bool \<times> 'n"
  csp_buffer_free :: "'n \<Rightarrow> 'n"
  csp_sendto :: "u8 \<Rightarrow> nat \<Rightarrow> u8 list \<Rightarrow> 'n \<Rightarrow> int \<times> 'n"
  csp_transaction :: "u8 \<Rightarrow> nat \<Rightarrow> u8 list \<Rightarrow> 'n \<Rightarrow> int \<times> u8 option \<times> 'n"

abbreviation (input) SCH_TRX_PORT_TM :: nat where "SCH_TRX_PORT_TM \<equiv> 9"
abbreviation (input) SCH_TRX_PORT_TC :: nat where "SCH_TRX_PORT_TC \<equiv> 10"
abbreviation (input) SCH_TRX_PORT_RPT :: nat where "SCH_TRX_PORT_RPT \<equiv> 11"
abbreviation (input) SCH_TRX_PORT_CMD :: nat where "SCH_TRX_PORT_CMD \<equiv> 12"

section \<open>Frames\<close>

abbreviation (input) COM_FRAME_MAX_LEN :: nat where "COM_FRAME_MAX_LEN \<equiv> 192"

record com_frame =
  f_nframe :: u16
  f_type :: u16
  f_ndata :: u32w
  f_data :: "u8 list"

record com_data =
  d_node :: u8
  d_frame :: com_frame

definition frame_bytes :: "com_frame \<Rightarrow> u8 list" where
  "frame_bytes f = le_bytes 2 (unat (f_nframe f)) @ le_bytes 2 (unat (f_type f)) @
     le_bytes 4 (unat (f_ndata f)) @ f_data f"

section \<open>Handlers\<close>

definition com_ping ::
  "'n csp \<Rightarrow> string \<Rightarrow> char list option \<Rightarrow> int \<Rightarrow> 'n \<Rightarrow> (int \<times> 'n) c_result" where
  "com_ping net fmt params nparams n =
     (case params of
        None \<Rightarrow> Inr (CMD_ERROR, n)
      | Some b \<Rightarrow> c_bind (scan_ints fmt b) (\<lambda>(k, is).
          if k = nparams then
            case is of
              [node] \<Rightarrow> let (rc, n) = csp_ping net (word_of_int node) n in
                         Inr (if rc > 0 then CMD_OK else CMD_FAIL, n)
            | _ \<Rightarrow> Inl Uninitialised
          else Inr (CMD_FAIL, n)))"

text \<open>The message of \<^verbatim>\<open>com_send_rpt\<close> is scanned into 64 bytes.\<close>

definition com_send_rpt ::
  "'n csp \<Rightarrow> string \<Rightarrow> char list option \<Rightarrow> int \<Rightarrow> 'n \<Rightarrow> (int \<times> 'n) c_result" where
  "com_send_rpt net fmt params nparams n =
     (case params of
        None \<Rightarrow> Inr (CMD_ERROR, n)
      | Some b \<Rightarrow> c_bind (c_str b) (\<lambda>p.
          case sscanf p fmt of
            (k, [VInt node, VStr msg]) \<Rightarrow>
              if SCH_CMD_MAX_STR_PARAMS \<le> length msg then Inl StackOverflow
              else if k = nparams then
                let (ok, n) = csp_buffer_get net (length msg + 1) n in
                if \<not> ok then Inr (CMD_FAIL, n)
                else
                  let (rc, n) = csp_sendto net (word_of_int node) SCH_TRX_PORT_RPT (bytes_of (msg @ [NUL])) n in
                  if rc = 0 then Inr (CMD_OK, n) else Inr (CMD_FAIL, csp_buffer_free net n)
              else Inr (CMD_FAIL, n)
          | (k, _) \<Rightarrow> if k = nparams then Inl Uninitialised else Inr (CMD_FAIL, n)))"

text \<open>
  What \<^verbatim>\<open>com_send_cmd\<close> and \<^verbatim>\<open>com_send_tc_frame\<close> share: the format \<^verbatim>\<open>"%d %n"\<close> gives the node and where
  the command starts; at most 64 characters are copied into a zeroed buffer of \<open>len\<close> bytes and sent
  up to their NUL; a confirmation is a first reply byte of 200.
\<close>

definition confirmed :: "int \<Rightarrow> u8 option \<Rightarrow> bool" where
  "confirmed rc rep \<longleftrightarrow> rc > 0 \<and> rep = Some 200"

definition send_tc ::
  "'n csp \<Rightarrow> nat \<Rightarrow> string \<Rightarrow> char list option \<Rightarrow> int \<Rightarrow> 'n \<Rightarrow> (int \<times> 'n) c_result" where
  "send_tc net len fmt params nparams n =
     (case params of
        None \<Rightarrow> Inr (CMD_ERROR, n)
      | Some b \<Rightarrow> c_bind (c_str b) (\<lambda>p.
          case sscanf p fmt of
            (k, [VInt node, VCount nxt]) \<Rightarrow>
              if k = nparams \<and> 1 < nxt then
                c_bind (c_str (strncpy (drop nxt p) SCH_CMD_MAX_STR_PARAMS @
                               replicate (len - SCH_CMD_MAX_STR_PARAMS) NUL)) (\<lambda>msg.
                  let (rc, rep, n) = csp_transaction net (word_of_int node) SCH_TRX_PORT_TC (bytes_of msg) n in
                  Inr (if confirmed rc rep then CMD_OK else CMD_FAIL, n))
              else Inr (CMD_FAIL, n)
          | (k, _) \<Rightarrow> if k = nparams then Inl Uninitialised else Inr (CMD_FAIL, n)))"

definition com_send_cmd ::
  "'n csp \<Rightarrow> string \<Rightarrow> char list option \<Rightarrow> int \<Rightarrow> 'n \<Rightarrow> (int \<times> 'n) c_result" where
  "com_send_cmd net fmt params nparams n = send_tc net SCH_CMD_MAX_STR_PARAMS fmt params nparams n"

definition com_send_tc_frame ::
  "'n csp \<Rightarrow> string \<Rightarrow> char list option \<Rightarrow> int \<Rightarrow> 'n \<Rightarrow> (int \<times> 'n) c_result" where
  "com_send_tc_frame net fmt params nparams n = send_tc net COM_FRAME_MAX_LEN fmt params nparams n"

text \<open>The parameters of \<^verbatim>\<open>com_send_data\<close> are the frame itself.\<close>

definition com_send_data :: "'n csp \<Rightarrow> com_data option \<Rightarrow> 'n \<Rightarrow> int \<times> 'n" where
  "com_send_data net params n =
     (case params of
        None \<Rightarrow> (CMD_ERROR, n)
      | Some data_to_send \<Rightarrow>
          let (rc, rep, n) = csp_transaction net (d_node data_to_send) SCH_TRX_PORT_TM
                               (frame_bytes (d_frame data_to_send)) n in
          (if confirmed rc rep then CMD_OK else CMD_FAIL, n))"

definition com_debug :: "string \<Rightarrow> char list option \<Rightarrow> int \<Rightarrow> int" where
  "com_debug fmt params nparams = CMD_OK"

section \<open>The radio\<close>

text \<open>
  The parameter tables of the AX100 (\<^verbatim>\<open>ax100_config\<close>, \<^verbatim>\<open>ax100_tx_config\<close>), their numbers
  (\<^verbatim>\<open>AX100_PARAM_RUNNING\<close>, \<^verbatim>\<open>AX100_PARAM_TX(0)\<close>) and the client functions.
  \<open>rparam_get_single\<close> gets an entry and a table and returns its result and the value as a little-endian
  number of the entry's size.
\<close>

record param_table_t =
  p_name :: string
  p_addr :: int
  p_type :: int
  p_size :: nat

record 'n ax100 =
  ax100_param_running :: int
  ax100_param_tx0 :: int
  ax100_config :: "param_table_t list"
  ax100_tx_config :: "param_table_t list"
  rparam_get_single :: "param_table_t \<Rightarrow> int \<Rightarrow> 'n \<Rightarrow> int \<times> nat \<times> 'n"
  rparam_set_single :: "param_table_t \<Rightarrow> int \<Rightarrow> string \<Rightarrow> 'n \<Rightarrow> int \<times> 'n"

definition com_config_find :: "'n ax100 \<Rightarrow> string \<Rightarrow> (int \<times> param_table_t) option" where
  "com_config_find ax name =
     (case find (\<lambda>p. strcmp name (p_name p) = 0) (ax100_config ax) of
        Some p \<Rightarrow> Some (ax100_param_running ax, p)
      | None \<Rightarrow> map_option (\<lambda>p. (ax100_param_tx0 ax, p))
                  (find (\<lambda>p. strcmp name (p_name p) = 0) (ax100_tx_config ax)))"

text \<open>The result \<^verbatim>\<open>rc\<close> of \<^verbatim>\<open>com_reset_wdt\<close> is never assigned: the call that would is commented out.\<close>

definition com_reset_wdt :: "string \<Rightarrow> char list option \<Rightarrow> int \<Rightarrow> int c_result" where
  "com_reset_wdt fmt params nparams =
     (case params of
        None \<Rightarrow> Inl NullDeref
      | Some b \<Rightarrow> c_bind (c_str b) (\<lambda>p. Inl Uninitialised))"

definition com_get_hk :: "string \<Rightarrow> char list option \<Rightarrow> int \<Rightarrow> int" where
  "com_get_hk fmt params nparams = CMD_FAIL"

text \<open>When the parameters do not scan, \<^verbatim>\<open>com_get_config\<close> and \<^verbatim>\<open>com_set_config\<close> end without a result.\<close>

definition com_get_config ::
  "'n ax100 \<Rightarrow> string \<Rightarrow> char list option \<Rightarrow> int \<Rightarrow> 'n \<Rightarrow> (int \<times> 'n) c_result" where
  "com_get_config ax fmt params nparams n =
     (case params of
        None \<Rightarrow> Inr (CMD_FAIL, n)
      | Some b \<Rightarrow> c_bind (c_str b) (\<lambda>p.
          case sscanf p fmt of
            (k, [VStr param]) \<Rightarrow>
              if SCH_CMD_MAX_STR_PARAMS \<le> length param then Inl StackOverflow
              else if k = nparams then
                if strcmp param ''help'' = 0 then Inr (CMD_OK, n)
                else case com_config_find ax param of
                  None \<Rightarrow> Inr (CMD_FAIL, n)
                | Some (table, e) \<Rightarrow>
                    let (rc, v, n) = rparam_get_single ax e table n in
                    Inr (if rc > 0 then CMD_OK else CMD_FAIL, n)
              else Inl Uninitialised
          | (k, _) \<Rightarrow> Inl Uninitialised))"

definition com_set_config ::
  "'n ax100 \<Rightarrow> string \<Rightarrow> char list option \<Rightarrow> int \<Rightarrow> 'n \<Rightarrow> (int \<times> 'n) c_result" where
  "com_set_config ax fmt params nparams n =
     (case params of
        None \<Rightarrow> Inr (CMD_FAIL, n)
      | Some b \<Rightarrow> c_bind (c_str b) (\<lambda>p.
          case sscanf p fmt of
            (k, [VStr param, VStr value]) \<Rightarrow>
              if SCH_CMD_MAX_STR_PARAMS \<le> length param \<or> SCH_CMD_MAX_STR_PARAMS \<le> length value
              then Inl StackOverflow
              else if k = nparams then
                if strcmp param ''help'' = 0 then Inr (CMD_OK, n)
                else case com_config_find ax param of
                  None \<Rightarrow> Inr (CMD_FAIL, n)
                | Some (table, e) \<Rightarrow>
                    let (rc, n) = rparam_set_single ax e table value n in
                    Inr (if rc > 0 then CMD_OK else CMD_FAIL, n)
              else Inl Uninitialised
          | (k, _) \<Rightarrow> Inl Uninitialised))"

text \<open>The third variable is \<^verbatim>\<open>dat_com_bcn_period\<close>, where the name is the baud rate.\<close>

definition com_status_names :: "(string \<times> dat_system) list" where
  "com_status_names = [(''freq'', dat_com_freq), (''tx_pwr'', dat_com_tx_pwr),
     (''baud'', dat_com_bcn_period), (''mode'', dat_com_mode), (''bcn_interval'', dat_com_bcn_period)]"

fun com_update_loop ::
  "sch_config \<Rightarrow> 'x storage \<Rightarrow> 'n ax100 \<Rightarrow> (string \<times> dat_system) list \<Rightarrow> 'n \<times> 'x dat_state \<Rightarrow>
     ('n \<times> 'x dat_state) c_result" where
  "com_update_loop c st ax [] (n, s) = Inr (n, s)"
| "com_update_loop c st ax ((name, var) # vs) (n, s) =
     (case com_config_find ax name of
        None \<Rightarrow> Inl AssertFailed
      | Some (table, e) \<Rightarrow>
          let (rc, v, n) = rparam_get_single ax e table n;
              s = (if rc > 0 then
                     if p_size e = 4 then dat_set_system_var c st var (i32 (int v)) s
                     else if p_size e = 1 then dat_set_system_var c st var (int v mod 256) s
                     else s
                   else s)
          in com_update_loop c st ax vs (n, s))"

definition com_update_status_vars ::
  "sch_config \<Rightarrow> 'x storage \<Rightarrow> 'n ax100 \<Rightarrow> string \<Rightarrow> char list option \<Rightarrow> int \<Rightarrow> 'n \<times> 'x dat_state \<Rightarrow>
     (int \<times> 'n \<times> 'x dat_state) c_result" where
  "com_update_status_vars c st ax fmt params nparams ns =
     c_bind (com_update_loop c st ax com_status_names ns) (\<lambda>ns. Inr (CMD_OK, ns))"

end
