(* ===== verification/CmdSubSys.thy ===== *)
theory CmdSubSys
  imports CmdCOM
begin

text \<open>
  The commands that talk to the other boards of the balloon (\<^verbatim>\<open>src/system/cmdSubSys.c\<close>).  All but one
  send a fixed text to the repeater port of a node, through \<^verbatim>\<open>com_send_rpt\<close>.
\<close>

section \<open>Handlers\<close>

text \<open>The call they share; its result is not looked at.\<close>

definition rpt_order :: "'n csp \<Rightarrow> string \<Rightarrow> 'n \<Rightarrow> (int \<times> 'n) c_result" where
  "rpt_order net param n =
     c_bind (com_send_rpt net ''%d %s'' (Some (text_block param)) 2 n) (\<lambda>(rc, n). Inr (CMD_OK, n))"

definition get_gps_data :: "'n csp \<Rightarrow> 'n \<Rightarrow> (int \<times> 'n) c_result" where
  "get_gps_data net n = rpt_order net ''15 get_gps_data'' n"

definition get_dpl_data :: "'n csp \<Rightarrow> 'n \<Rightarrow> (int \<times> 'n) c_result" where
  "get_dpl_data net n = rpt_order net ''12 get_dpl_data'' n"

definition get_prs_data :: "'n csp \<Rightarrow> 'n \<Rightarrow> (int \<times> 'n) c_result" where
  "get_prs_data net n = rpt_order net ''14 get_prs_data'' n"

definition open_dpl_1 :: "'n csp \<Rightarrow> 'n \<Rightarrow> (int \<times> 'n) c_result" where
  "open_dpl_1 net n = rpt_order net ''12 open_dpl_1'' n"

definition open_dpl_2 :: "'n csp \<Rightarrow> 'n \<Rightarrow> (int \<times> 'n) c_result" where
  "open_dpl_2 net n = rpt_order net ''12 open_dpl_2'' n"

definition open_dpl_sm :: "'n csp \<Rightarrow> 'n \<Rightarrow> (int \<times> 'n) c_result" where
  "open_dpl_sm net n = rpt_order net ''8 open_dpl_sm'' n"

definition close_dpl_sm :: "'n csp \<Rightarrow> 'n \<Rightarrow> (int \<times> 'n) c_result" where
  "close_dpl_sm net n = rpt_order net ''8 close_dpl_sm'' n"

definition send_iridium_msg1 :: "'n csp \<Rightarrow> 'n \<Rightarrow> (int \<times> 'n) c_result" where
  "send_iridium_msg1 net n = rpt_order net ''6 StartingMission'' n"

definition send_iridium_msg2 :: "'n csp \<Rightarrow> 'n \<Rightarrow> (int \<times> 'n) c_result" where
  "send_iridium_msg2 net n = rpt_order net ''6 EndMission'' n"

definition run_sstv :: "'n csp \<Rightarrow> 'n \<Rightarrow> (int \<times> 'n) c_result" where
  "run_sstv net n = rpt_order net ''8 run_sstv'' n"

definition send_xbee_data :: "'n csp \<Rightarrow> 'n \<Rightarrow> (int \<times> 'n) c_result" where
  "send_xbee_data net n = rpt_order net ''16 send_xbee_data'' n"

definition send_sun_data :: "'n csp \<Rightarrow> 'n \<Rightarrow> (int \<times> 'n) c_result" where
  "send_sun_data net n = rpt_order net ''16 send_sun_data'' n"

text \<open>
  \<^verbatim>\<open>send_iridium_data\<close> reads the latest GPS, pressure and deployment samples, logs them, sends nothing
  and ends without a \<^verbatim>\<open>return\<close>, so the result the executer uses is indeterminate.
\<close>

definition send_iridium_data ::
  "sch_config \<Rightarrow> 'x storage \<Rightarrow> 'x dat_state \<Rightarrow> (payload_id \<times> u8 list option) list \<times> int c_result" where
  "send_iridium_data c st s =
     (map (\<lambda>p. let (rc, b) = dat_get_recent_payload_sample c st p 0 s in
               (p, if rc \<noteq> -1 then Some b else None)) [gps_sensors, prs_sensors, dpl_sensors],
      Inl Uninitialised)"

section \<open>What an order sends\<close>

definition rpt_sent :: "'n csp \<Rightarrow> int \<Rightarrow> string \<Rightarrow> 'n \<Rightarrow> 'n" where
  "rpt_sent net node msg n =
     (let (ok, n1) = csp_buffer_get net (length msg + 1) n in
      if \<not> ok then n1
      else let (rc, n2) = csp_sendto net (word_of_int node) SCH_TRX_PORT_RPT (bytes_of (msg @ [NUL])) n1 in
        if rc = 0 then n2 else csp_buffer_free net n2)"

lemma rpt_order_run:
  assumes "sscanf param ''%d %s'' = (2, [VInt node, VStr msg])" "c_string param" "length msg < SCH_CMD_MAX_STR_PARAMS"
  shows "rpt_order net param n = Inr (CMD_OK, rpt_sent net node msg n)"
  using assms
  by (auto simp: rpt_order_def com_send_rpt_def rpt_sent_def c_str_text_block Let_def split_def)

text \<open>Every order with the node it goes to and its text.\<close>

definition subsys_orders :: "(('n csp \<Rightarrow> 'n \<Rightarrow> (int \<times> 'n) c_result) \<times> int \<times> string) list" where
  "subsys_orders =
     [(get_gps_data, 15, ''get_gps_data''), (get_dpl_data, 12, ''get_dpl_data''),
      (get_prs_data, 14, ''get_prs_data''), (open_dpl_1, 12, ''open_dpl_1''), (open_dpl_2, 12, ''open_dpl_2''),
      (open_dpl_sm, 8, ''open_dpl_sm''), (close_dpl_sm, 8, ''close_dpl_sm''),
      (send_iridium_msg1, 6, ''StartingMission''), (send_iridium_msg2, 6, ''EndMission''),
      (run_sstv, 8, ''run_sstv''), (send_xbee_data, 16, ''send_xbee_data''), (send_sun_data, 16, ''send_sun_data'')]"

lemmas subsys_defs = get_gps_data_def get_dpl_data_def get_prs_data_def open_dpl_1_def open_dpl_2_def
  open_dpl_sm_def close_dpl_sm_def send_iridium_msg1_def send_iridium_msg2_def run_sstv_def
  send_xbee_data_def send_sun_data_def

lemma subsys_texts:
  "sscanf ''15 get_gps_data'' ''%d %s'' = (2, [VInt 15, VStr ''get_gps_data''])"
  "sscanf ''12 get_dpl_data'' ''%d %s'' = (2, [VInt 12, VStr ''get_dpl_data''])"
  "sscanf ''14 get_prs_data'' ''%d %s'' = (2, [VInt 14, VStr ''get_prs_data''])"
  "sscanf ''12 open_dpl_1'' ''%d %s'' = (2, [VInt 12, VStr ''open_dpl_1''])"
  "sscanf ''12 open_dpl_2'' ''%d %s'' = (2, [VInt 12, VStr ''open_dpl_2''])"
  "sscanf ''8 open_dpl_sm'' ''%d %s'' = (2, [VInt 8, VStr ''open_dpl_sm''])"
  "sscanf ''8 close_dpl_sm'' ''%d %s'' = (2, [VInt 8, VStr ''close_dpl_sm''])"
  "sscanf ''6 StartingMission'' ''%d %s'' = (2, [VInt 6, VStr ''StartingMission''])"
  "sscanf ''6 EndMission'' ''%d %s'' = (2, [VInt 6, VStr ''EndMission''])"
  "sscanf ''8 run_sstv'' ''%d %s'' = (2, [VInt 8, VStr ''run_sstv''])"
  "sscanf ''16 send_xbee_data'' ''%d %s'' = (2, [VInt 16, VStr ''send_xbee_data''])"
  "sscanf ''16 send_sun_data'' ''%d %s'' = (2, [VInt 16, VStr ''send_sun_data''])"
  by code_simp+

lemma subsys_orders_run:
  "\<forall>(f, node, text) \<in> set subsys_orders. f net n = Inr (CMD_OK, rpt_sent net node text n)"
  unfolding subsys_orders_def subsys_defs using subsys_texts [THEN rpt_order_run, of net n] by (simp add: c_string_def)

text \<open>
  The orders to the other boards.  Each asks for a packet that holds its text and a NUL and sends
  exactly these bytes to the repeater port of its node, or gives the packet back when the network
  refuses it.  The result is \<^verbatim>\<open>CMD_OK\<close> in every case, also when nothing was sent.
\<close>

lemma subsys_orders_spec:
  "\<forall>(f, node, text) \<in> set subsys_orders.
     f net n = Inr (CMD_OK, let (ok, n1) = csp_buffer_get net (length text + 1) n in
       if \<not> ok then n1
       else let (rc, n2) = csp_sendto net (word_of_int node) SCH_TRX_PORT_RPT (bytes_of (text @ [NUL])) n1 in
         if rc = 0 then n2 else csp_buffer_free net n2)"
  using subsys_orders_run [of net n] unfolding rpt_sent_def .

text \<open>A network that accepts everything and keeps what was sent.\<close>

definition log_net :: "bool \<Rightarrow> (nat \<times> nat \<times> string) list csp" where
  "log_net up = \<lparr> csp_ping = (\<lambda>node n. (1, n)), csp_buffer_get = (\<lambda>k n. (up, n)), csp_buffer_free = (\<lambda>n. n),
     csp_sendto = (\<lambda>node port b n. (0, n @ [(unat node, port, map (\<lambda>x. char_of (unat x)) b)])),
     csp_transaction = (\<lambda>node port b n. (1, Some 200, n @ [(unat node, port, map (\<lambda>x. char_of (unat x)) b)])) \<rparr>"

lemma subsys_orders_spec_witness:
  "open_dpl_1 (log_net True) [] = Inr (1, [(12, 11, ''open_dpl_1'' @ [NUL])]) \<and>
   open_dpl_1 (log_net False) [] = Inr (1, [])"
proof -
  have m: "(open_dpl_1, 12, ''open_dpl_1'') \<in> set subsys_orders" by (simp add: subsys_orders_def)
  have b: "map (\<lambda>x. char_of (unat x)) (bytes_of (''open_dpl_1'' @ [NUL])) = ''open_dpl_1'' @ [NUL]"
    by code_simp
  show ?thesis
    using bspec [OF subsys_orders_spec m, of "log_net True" "[]"] bspec [OF subsys_orders_spec m, of "log_net False" "[]"] b
    by (simp add: log_net_def)
qed

end
