(* ===== verification/Mission.thy ===== *)
theory Mission
  imports TaskPhases CmdSubSys Pipeline
begin

text \<open>
  The flight as a whole: in every second housekeeping sends its commands, the dispatcher and the executer
  run them one after the other, and what they leave in the data repository is what housekeeping reads in
  the next second.  The theory of the pipeline shows that the commands sent are executed completely and in
  this order; here they are executed before the next second begins.
\<close>

section \<open>Calling a command\<close>

definition subsys_handlers :: "(string \<times> ('n csp \<Rightarrow> 'n \<Rightarrow> (int \<times> 'n) c_result)) list" where
  "subsys_handlers =
     [(''get_gps_data'', get_gps_data), (''get_dpl_data'', get_dpl_data), (''get_prs_data'', get_prs_data),
      (''open_dpl_1'', open_dpl_1), (''open_dpl_2'', open_dpl_2), (''open_dpl_sm'', open_dpl_sm),
      (''close_dpl_sm'', close_dpl_sm), (''send_iridium_msg1'', send_iridium_msg1),
      (''send_iridium_msg2'', send_iridium_msg2), (''run_sstv'', run_sstv), (''send_xbee_data'', send_xbee_data),
      (''send_sun_data'', send_sun_data)]"

text \<open>
  The call of the executer through the function pointer, on the data repository and the network, for the
  handlers of the subsystems and those of the data repository that do not read the clock; \<open>other\<close> stands for the remaining ones.
\<close>

definition run_command ::
  "sch_config \<Rightarrow> 'x storage \<Rightarrow> 'n csp \<Rightarrow> (cmd_t \<Rightarrow> 'x dat_state \<times> 'n \<Rightarrow> (int \<times> 'x dat_state \<times> 'n) c_result) \<Rightarrow>
     cmd_t \<Rightarrow> 'x dat_state \<times> 'n \<Rightarrow> (int \<times> 'x dat_state \<times> 'n) c_result" where
  "run_command c st net other k a =
     (let (s, n) = a; f = c_function k; fmt = c_fmt k; params = c_params k; nparams = c_nparams k;
          data = (\<lambda>res. c_bind res (\<lambda>(rc, s). Inr (rc, s, n))) in
      case map_of subsys_handlers f of
        Some h \<Rightarrow> c_bind (h net n) (\<lambda>(rc, n). Inr (rc, s, n))
      | None \<Rightarrow>
          if f = ''drp_update_sys_var_idx'' then data (drp_update_sys_var_idx c st fmt params nparams s)
          else if f = ''drp_update_hours_alive'' then data (drp_update_hours_alive c st fmt params nparams s)
          else if f = ''drp_clear_gnd_wdt'' then data (Inr (drp_clear_gnd_wdt c st fmt params nparams s))
          else if f = ''drp_test_system_vars'' then data (Inr (drp_test_system_vars c st fmt params nparams s))
          else if f = ''drp_set_deployed'' then data (drp_set_deployed c st fmt params nparams s)
          else other k a)"

section \<open>Seconds\<close>

text \<open>
  One second: the C functions of the commands executed, the counter of housekeeping, the data and the
  network.  \<open>near\<close> says in which second the height is in the deployment band.
\<close>

definition mission_second where
  "mission_second c st net other r near i a =
     (let (t, s, n) = a in
      c_bind (taskHousekeeping c st r (near i) t s) (\<lambda>(ks, t, s).
      c_bind (run_all (run_command c st net other) ks (s, n)) (\<lambda>(s, n).
        Inr (map c_function ks, t, s, n))))"

fun mission_seconds where
  "mission_seconds c st net other r near 0 a = Inr ([], a)"
| "mission_seconds c st net other r near (Suc i) a =
     c_bind (mission_seconds c st net other r near i a) (\<lambda>(log, a).
     c_bind (mission_second c st net other r near i a) (\<lambda>(fs, a). Inr (log @ [fs], a)))"

section \<open>One second\<close>

lemma subsys_handler_run:
  assumes "map_of subsys_handlers f = Some h"
  shows "\<exists>n'. h net n = Inr (CMD_OK, n')"
proof -
  have "\<forall>(f, h) \<in> set subsys_handlers. \<exists>n'. h net n = Inr (CMD_OK, n')"
    using subsys_orders_run [of net n] by (simp add: subsys_handlers_def subsys_orders_def)
  then show ?thesis using map_of_SomeD [OF assms] by blast
qed

definition order_names :: "string set" where
  "order_names = {''get_gps_data'', ''get_prs_data'', ''get_dpl_data'', ''run_sstv'', ''send_xbee_data'', ''send_sun_data'',
     ''open_dpl_1''}"

lemma order_handler: "f \<in> order_names \<Longrightarrow> \<exists>h. map_of subsys_handlers f = Some h"
  by (auto simp: order_names_def subsys_handlers_def)

lemma run_all_orders:
  fixes net :: "'n csp"
  assumes "\<forall>k \<in> set ks. c_function k \<in> order_names"
  shows "\<exists>n'. run_all (run_command c st net other) ks (s, n) = Inr (s, n')"
  using assms
proof (induction ks arbitrary: n)
  case (Cons k ks)
  then obtain h :: "'n csp \<Rightarrow> 'n \<Rightarrow> (int \<times> 'n) c_result" where
    h: "map_of subsys_handlers (c_function k) = Some h"
    using order_handler [of "c_function k"] by auto
  obtain n1 where "h net n = Inr (CMD_OK, n1)" using subsys_handler_run [OF h] by blast
  then show ?case using Cons.IH [of n1] Cons.prems h by (simp add: run_command_def Let_def)
qed simp

text \<open>The command that adds a minute.\<close>

lemma minute_no_order: "map_of subsys_handlers ''drp_update_hours_alive'' = None"
  by (simp add: subsys_handlers_def)

lemma minute_command:
  assumes "dat_inv c st s" "c_function k = ''drp_update_hours_alive''" "c_fmt k = ''%d''" "c_nparams k = 1"
    "c_params k = param_block ''1''" "dat_get_system_var c st dat_obc_hrs_alive s = m" "0 \<le> m" "m < INT_MAX"
  shows "\<exists>s'. run_command c st net other k (s, n) = Inr (CMD_OK, s', n) \<and> dat_inv c st s' \<and>
    dat_get_system_var c st dat_obc_hrs_alive s' = m + 1 \<and>
    dat_get_system_var c st dat_balloon_phase s' = dat_get_system_var c st dat_balloon_phase s"
proof -
  have sc: "scan_ints ''%d'' (the (param_block ''1'')) = Inr (1, [1])" and b: "param_block ''1'' = Some (the (param_block ''1''))"
    by code_simp+
  have m: "i32 (m + 1) = m + 1" "in_i32 (m + 1)" using assms(7,8) by (simp_all add: i32_id in_i32_def)
  have "drp_update_hours_alive c st ''%d'' (param_block ''1'') 1 s = Inr (CMD_OK,
      dat_set_system_var c st dat_obc_hrs_wo_reset (i32 (dat_get_system_var c st dat_obc_hrs_wo_reset
        (dat_set_system_var c st dat_obc_hrs_alive (m + 1) s) + 1)) (dat_set_system_var c st dat_obc_hrs_alive (m + 1) s))"
    by (subst b) (simp add: drp_update_hours_alive_def sc assms(6) m Let_def)
  then show ?thesis
    using assms(1-5) m i32_range by (simp add: run_command_def minute_no_order Let_def dat_simps)
qed

text \<open>The commands of a second: orders, and last the minute when one is due.\<close>

lemma hk_split:
  "\<exists>qs. housekeeping_requests near t ph =
      qs @ (if t mod 60 = 0 then [(''drp_add_hrs_alive'', VarParams [AInt 1])] else []) \<and>
    (\<forall>q \<in> set qs. fst q \<in> order_names \<and> snd q = NoParams)"
  unfolding housekeeping_requests_def
  by (rule exI [of _ "requests [(t mod 10 = 1, ''get_gps_data'', NoParams), (t mod 10 = 4, ''get_prs_data'', NoParams),
      (t mod 60 = 0, ''get_dpl_data'', NoParams), (t mod 300 = 0, ''run_sstv'', NoParams),
      (t mod 600 = 0, ''send_xbee_data'', NoParams), (t mod 10 = 0, ''send_sun_data'', NoParams),
      (ph = phase_code phase_a0 \<and> t mod 300 = 0, ''open_dpl_1'', NoParams),
      ((ph = phase_code phase_b1 \<or> near) \<and> ph = phase_code phase_b1 \<and> t mod 20 = 0, ''open_dpl_1'', NoParams)]"])
     (simp add: order_names_def)

lemma order_cmds:
  assumes "comm_enable c" "f \<in> order_names" "k \<in> set (cmds_for c (f, NoParams))"
  shows "c_function k \<in> order_names"
  using assms(2,3) hk_entries [OF assms(1), THEN cmds_for_entry] unfolding order_names_def by auto

lemma hk_commands:
  assumes "comm_enable c" "map forget_id ks = concat (map (cmds_for c) (housekeeping_requests near t ph))"
  shows "\<exists>ps qs. ks = ps @ qs \<and> (\<forall>k \<in> set ps. c_function k \<in> order_names) \<and>
    map forget_id qs = (if t mod 60 = 0 then cmds_for c (''drp_add_hrs_alive'', VarParams [AInt 1]) else [])"
proof -
  obtain rs where rs: "housekeeping_requests near t ph =
      rs @ (if t mod 60 = 0 then [(''drp_add_hrs_alive'', VarParams [AInt 1])] else [])"
    and names: "\<forall>q \<in> set rs. fst q \<in> order_names \<and> snd q = NoParams"
    using hk_split by blast
  have "map forget_id ks = concat (map (cmds_for c) rs) @
      (if t mod 60 = 0 then cmds_for c (''drp_add_hrs_alive'', VarParams [AInt 1]) else [])"
    using assms(2) by (simp add: rs)
  then obtain ps qs where ks: "ks = ps @ qs" "map forget_id ps = concat (map (cmds_for c) rs)"
    "map forget_id qs = (if t mod 60 = 0 then cmds_for c (''drp_add_hrs_alive'', VarParams [AInt 1]) else [])"
    by (auto simp: map_eq_append_conv)
  have "c_function k \<in> order_names" if "k \<in> set ps" for k
  proof -
    have "forget_id k \<in> set (concat (map (cmds_for c) rs))" using that ks(2) by (metis imageI list.set_map)
    then obtain q where "q \<in> set rs" "forget_id k \<in> set (cmds_for c q)" by auto
    then have "c_function (forget_id k) \<in> order_names"
      using order_cmds [OF assms(1), of "fst q" "forget_id k"] names by (metis prod.collapse)
    then show ?thesis by (simp add: forget_id_def)
  qed
  then show ?thesis using ks by blast
qed

lemma mission_second_run:
  assumes "table_built c r" "comm_enable c" "dat_inv c st s" "i + 1 < 4294967296"
    and "dat_get_system_var c st dat_obc_hrs_alive s = m" "0 \<le> m" "m < INT_MAX"
  shows "\<exists>fs s' n'. mission_second c st net other r near i (word_of_nat i, s, n) = Inr (fs, word_of_nat (i + 1), s', n') \<and>
    dat_inv c st s' \<and> dat_get_system_var c st dat_obc_hrs_alive s' = m + (if (i + 1) mod 60 = 0 then 1 else 0) \<and>
    dat_get_system_var c st dat_balloon_phase s' = phase_at hk_limits m \<and>
    (''open_dpl_1'' \<in> set fs \<longleftrightarrow> m \<le> 20 \<and> (i + 1) mod 300 = 0 \<or> 95 < m \<and> m \<le> 101 \<and> (i + 1) mod 20 = 0)"
proof -
  let ?s = "change_system_phase c st s" and ?t = "word_of_nat i + 1 :: u32w"
  obtain ks where run: "taskHousekeeping c st r (near i) (word_of_nat i) s = Inr (ks, ?t, ?s)"
    and ks: "map forget_id ks = concat (map (cmds_for c)
      (housekeeping_requests (near i) ?t (dat_get_system_var c st dat_balloon_phase ?s)))"
    using taskHousekeeping_run [OF assms(1)] by blast
  have fs: "''open_dpl_1'' \<in> set (map c_function ks) \<longleftrightarrow>
      m \<le> 20 \<and> (i + 1) mod 300 = 0 \<or> 95 < m \<and> m \<le> 101 \<and> (i + 1) mod 20 = 0"
    using housekeeping_second [OF assms(1-4) assms(5) [symmetric], of "near i"] assms(6) run by auto
  obtain ps qs where split: "ks = ps @ qs" "\<forall>k \<in> set ps. c_function k \<in> order_names"
    "map forget_id qs = (if ?t mod 60 = 0 then cmds_for c (''drp_add_hrs_alive'', VarParams [AInt 1]) else [])"
    using hk_commands [OF assms(2) ks] by blast
  have t: "?t mod 60 = 0 \<longleftrightarrow> (i + 1) mod 60 = 0" using second_mod(5) [OF assms(4)] by (simp add: add.commute)
  have s: "dat_inv c st ?s" "dat_get_system_var c st dat_obc_hrs_alive ?s = m"
    "dat_get_system_var c st dat_balloon_phase ?s = phase_at hk_limits m"
    using assms(3,5,6) by (simp_all add: phase_simps phase_after_def)
  obtain n1 where n1: "run_all (run_command c st net other) ps (?s, n) = Inr (?s, n1)"
    using run_all_orders [OF split(2), of c st net other ?s n] by blast
  have "\<exists>s' n'. run_all (run_command c st net other) qs (?s, n1) = Inr (s', n') \<and> dat_inv c st s' \<and>
    dat_get_system_var c st dat_obc_hrs_alive s' = m + (if (i + 1) mod 60 = 0 then 1 else 0) \<and>
    dat_get_system_var c st dat_balloon_phase s' = phase_at hk_limits m"
  proof (cases "(i + 1) mod 60 = 0")
    case True
    then obtain k where k: "qs = [k]" "forget_id k = \<lparr> c_id = 0, c_nparams = 1, c_fmt = ''%d'',
        c_params = param_block ''1'', c_function = ''drp_update_hours_alive'' \<rparr>"
      using split(3) t cmds_for_entry [OF hrs_entry, of c "VarParams [AInt 1]"] hrs_text
      by (auto simp: map_eq_Cons_conv)
    then have "c_function k = ''drp_update_hours_alive''" "c_fmt k = ''%d''" "c_nparams k = 1" "c_params k = param_block ''1''"
      by (cases k; simp add: forget_id_def)+
    from minute_command [OF s(1) this s(2) assms(6,7), of net other n1] show ?thesis
      using k(1) s(3) True by auto
  qed (use split(3) t s in auto)
  then show ?thesis
    using run n1 split(1) fs by (auto simp: mission_second_def run_all_append)
qed

section \<open>Properties\<close>



end
