(* ===== verification/FlashStorage.thy ===== *)
theory FlashStorage
  imports FlightPlan
begin

text \<open>
  The storage driver of the Nanomind (\<^verbatim>\<open>drivers/nanomind/data_storage.c\<close>).  Status variables live in the
  FRAM of the clock chip, four bytes each; payload samples and the flight plan live in sections of the
  NOR flash.  The two chip drivers are not part of the repository: they are parameters, and what the
  theorems need of them is the locale \<open>chips\<close>.
\<close>

unbundle bit_operations_syntax

section \<open>The chips\<close>

record 'm chip_drivers =
  fm33256b_init :: "'m \<Rightarrow> 'm"
  fm33256b_read_data :: "u16 \<Rightarrow> nat \<Rightarrow> 'm \<Rightarrow> u8 list"
  fm33256b_write_data :: "u16 \<Rightarrow> u8 list \<Rightarrow> 'm \<Rightarrow> 'm"
  spn_fl512s_init :: "'m \<Rightarrow> 'm"
  spn_fl512s_read_data :: "u32w \<Rightarrow> nat \<Rightarrow> 'm \<Rightarrow> u8 list"
  spn_fl512s_write_data :: "u32w \<Rightarrow> u8 list \<Rightarrow> 'm \<Rightarrow> int \<times> 'm"
  spn_fl512s_erase_block :: "u32w \<Rightarrow> 'm \<Rightarrow> int \<times> 'm"

text \<open>The bytes of a 32-bit number in the memory of the big-endian processor.\<close>

definition word_bytes :: "u32w \<Rightarrow> u8 list" where
  "word_bytes w = rev (le_bytes 4 (unat w))"

definition bytes_word :: "u8 list \<Rightarrow> u32w" where
  "bytes_word b = word_of_nat (le_nat (rev b))"

section \<open>Addresses\<close>

abbreviation (input) SCH_SECTIONS_PER_PAYLOAD :: int where "SCH_SECTIONS_PER_PAYLOAD \<equiv> 2"
abbreviation (input) max_command_size :: nat where "max_command_size \<equiv> 148"

text \<open>
  \<^verbatim>\<open>SCH_SIZE_PER_SECTION\<close> is \<^verbatim>\<open>256*1024\<close> without parentheses.  As the left operand of a division it is the
  size of a section; as the right operand it divides by 256 and multiplies by 1024, so that the array of
  addresses for the flight plan gets 14337 entries in the place of one.
\<close>

definition SIZE_PER_SECTION :: int where
  "SIZE_PER_SECTION = 256 * 1024"

definition sections_for_fp :: int where
  "sections_for_fp = (int SCH_FP_MAX_ENTRIES * int max_command_size) sdiv 256 * 1024 + 1"

definition payload_tables_amount :: int where
  "payload_tables_amount = SCH_SECTIONS_PER_PAYLOAD * int last_sensor"

text \<open>
  The arrays \<^verbatim>\<open>storage_init\<close> fills; \<open>junk\<close> is what memory holds outside of them.
\<close>

definition storage_addresses_payloads :: "(int \<Rightarrow> u32w) \<Rightarrow> int \<Rightarrow> u32w" where
  "storage_addresses_payloads junk i =
     (if 0 \<le> i \<and> i < payload_tables_amount then word_of_int (i * SIZE_PER_SECTION) else junk i)"

definition storage_addresses_flight_plan :: "(int \<Rightarrow> u32w) \<Rightarrow> int \<Rightarrow> u32w" where
  "storage_addresses_flight_plan junk i =
     (if 0 \<le> i \<and> i < sections_for_fp then word_of_int ((payload_tables_amount + i) * SIZE_PER_SECTION) else junk i)"

definition storage_init :: "'m chip_drivers \<Rightarrow> 'm \<Rightarrow> int \<times> 'm" where
  "storage_init ch m = (0, spn_fl512s_init ch (fm33256b_init ch m))"

definition storage_close :: "'m \<Rightarrow> int \<times> 'm" where
  "storage_close m = (0, m)"

section \<open>Status variables\<close>

definition storage_table_repo_init :: "int \<Rightarrow> 'm \<Rightarrow> int \<times> 'm" where
  "storage_table_repo_init drop_it m = (0, m)"

definition storage_repo_get_value_idx :: "'m chip_drivers \<Rightarrow> int \<Rightarrow> 'm \<Rightarrow> int" where
  "storage_repo_get_value_idx ch index m =
     (let add = (word_of_int (index * 4) :: u16) in
      i32 (uint (bytes_word (fm33256b_read_data ch add 4 m))))"

definition storage_repo_set_value_idx :: "'m chip_drivers \<Rightarrow> int \<Rightarrow> int \<Rightarrow> 'm \<Rightarrow> int \<times> 'm" where
  "storage_repo_set_value_idx ch index value m =
     (let add = (word_of_int (index * 4) :: u16) in
      (0, fm33256b_write_data ch add (word_bytes (word_of_int value)) m))"

definition storage_repo_get_value_str :: "string \<Rightarrow> 'm \<Rightarrow> int" where
  "storage_repo_get_value_str name m = 0"

definition storage_repo_set_value_str :: "string \<Rightarrow> int \<Rightarrow> 'm \<Rightarrow> int \<times> 'm" where
  "storage_repo_set_value_str name value m = (0, m)"

section \<open>Payload samples\<close>

text \<open>
  The section of the sample and its address.  The entry of the address table is read before the section
  is checked, but its value is not used when the section is out of range.
\<close>

definition payload_section :: "payload_id \<Rightarrow> int \<Rightarrow> int" where
  "payload_section payload index = index sdiv (SIZE_PER_SECTION sdiv int (dm_size (data_map payload)))"

definition payload_address :: "(int \<Rightarrow> u32w) \<Rightarrow> payload_id \<Rightarrow> int \<Rightarrow> u32w" where
  "payload_address junk payload index =
     (let size = int (dm_size (data_map payload));
          payloads_per_section = SIZE_PER_SECTION sdiv size;
          index_in_section = index smod payloads_per_section;
          section_index = int (payload_idx payload) * SCH_SECTIONS_PER_PAYLOAD + payload_section payload index
      in storage_addresses_payloads junk section_index + word_of_int (index_in_section * size))"

definition storage_set_payload_data ::
  "'m chip_drivers \<Rightarrow> (int \<Rightarrow> u32w) \<Rightarrow> int \<Rightarrow> u8 list \<Rightarrow> payload_id \<Rightarrow> 'm \<Rightarrow> int \<times> 'm" where
  "storage_set_payload_data ch junk index data payload m =
     (if payload_section payload index \<ge> SCH_SECTIONS_PER_PAYLOAD then (-1, m)
      else let (ret, m) = spn_fl512s_write_data ch (payload_address junk payload index)
                            (take (dm_size (data_map payload)) data) m
           in (if ret \<noteq> 0 then -1 else 0, m))"

definition storage_get_payload_data ::
  "'m chip_drivers \<Rightarrow> (int \<Rightarrow> u32w) \<Rightarrow> int \<Rightarrow> payload_id \<Rightarrow> 'm \<Rightarrow> int \<times> u8 list" where
  "storage_get_payload_data ch junk index payload m =
     (if payload_section payload index \<ge> SCH_SECTIONS_PER_PAYLOAD then (-1, [])
      else (0, spn_fl512s_read_data ch (payload_address junk payload index) (dm_size (data_map payload)) m))"

text \<open>Erasing sections one after the other until one fails.\<close>

fun erase_sections :: "'m chip_drivers \<Rightarrow> u32w list \<Rightarrow> 'm \<Rightarrow> int \<times> 'm" where
  "erase_sections ch [] m = (0, m)"
| "erase_sections ch (add # adds) m =
     (let (rc, m) = spn_fl512s_erase_block ch add m in
      if rc \<noteq> 0 then (-1, m) else erase_sections ch adds m)"

definition storage_delete_memory_sections :: "'m chip_drivers \<Rightarrow> (int \<Rightarrow> u32w) \<Rightarrow> 'm \<Rightarrow> int \<times> 'm" where
  "storage_delete_memory_sections ch junk m =
     erase_sections ch (map (storage_addresses_payloads junk) [0..payload_tables_amount - 1]) m"

text \<open>
  The functions of the driver the data repository calls, in the record of a storage.  The Nanomind has
  no \<^verbatim>\<open>storage_table_payload_init\<close>; that field and the flight plan are those of \<open>base\<close>.
\<close>

definition nanomind_storage :: "'m chip_drivers \<Rightarrow> (int \<Rightarrow> u32w) \<Rightarrow> 'm storage \<Rightarrow> 'm storage" where
  "nanomind_storage ch junk base = base\<lparr>
     st_init := storage_init ch, st_table_repo_init := storage_table_repo_init,
     st_repo_get_value_idx := storage_repo_get_value_idx ch, st_repo_set_value_idx := storage_repo_set_value_idx ch,
     st_set_payload_data := storage_set_payload_data ch junk, st_get_payload_data := storage_get_payload_data ch junk,
     st_delete_memory_sections := storage_delete_memory_sections ch junk, st_close := storage_close \<rparr>"

section \<open>The flight plan\<close>

text \<open>
  The number of entries is the status variable \<^verbatim>\<open>dat_fpl_queue\<close>; \<open>st\<close> is the storage behind the status
  variables.  An entry is 148 bytes: the time, the four numbers of \<^verbatim>\<open>numbers_container_t\<close>, 64 bytes for
  the name and 64 for the arguments.
\<close>

definition commands_per_section :: int where
  "commands_per_section = SIZE_PER_SECTION sdiv int max_command_size"

definition entry_address :: "(int \<Rightarrow> u32w) \<Rightarrow> int \<Rightarrow> u32w" where
  "entry_address junk index =
     storage_addresses_flight_plan junk (index sdiv commands_per_section) +
     word_of_int (index smod commands_per_section * int max_command_size)"

text \<open>The loop of \<^verbatim>\<open>flight_plan_find_index\<close> from entry \<open>i\<close> on, with \<open>n\<close> entries to go.\<close>

fun find_entry :: "'m chip_drivers \<Rightarrow> (int \<Rightarrow> u32w) \<Rightarrow> int \<Rightarrow> nat \<Rightarrow> int \<Rightarrow> 'm \<Rightarrow> int" where
  "find_entry ch junk timetodo 0 i m = -1"
| "find_entry ch junk timetodo (Suc n) i m =
     (if bytes_word (spn_fl512s_read_data ch (entry_address junk i) 4 m) = word_of_int timetodo then i
      else find_entry ch junk timetodo n (i + 1) m)"

definition flight_plan_find_index ::
  "sch_config \<Rightarrow> 'm storage \<Rightarrow> 'm chip_drivers \<Rightarrow> (int \<Rightarrow> u32w) \<Rightarrow> int \<Rightarrow> 'm dat_state \<Rightarrow> int" where
  "flight_plan_find_index c st ch junk timetodo s =
     find_entry ch junk timetodo (nat (dat_get_system_var c st dat_fpl_queue s)) 0 (ext s)"

text \<open>
  The loop that writes back the entries of the section but one and those without a time: the result, the
  number of entries written, and the memory.
\<close>

fun rewrite_entries ::
  "'m chip_drivers \<Rightarrow> nat \<Rightarrow> u32w \<Rightarrow> (nat \<times> u8 list) list \<Rightarrow> int \<Rightarrow> 'm \<Rightarrow> int \<times> int \<times> 'm" where
  "rewrite_entries ch skip add [] written m = (0, written, m)"
| "rewrite_entries ch skip add ((i, b) # bs) written m =
     (if i \<noteq> skip \<and> bytes_word (take 4 b) \<noteq> 0 then
        let (rc, m) = spn_fl512s_write_data ch add b m in
        if rc \<noteq> 0 then (-1, written, m)
        else rewrite_entries ch skip (add + word_of_nat max_command_size) bs (written + 1) m
      else rewrite_entries ch skip add bs written m)"

definition entry_blocks :: "nat \<Rightarrow> u8 list \<Rightarrow> (nat \<times> u8 list) list" where
  "entry_blocks n data = map (\<lambda>i. (i, take max_command_size (drop (i * max_command_size) data))) [0..<n]"

text \<open>
  The length of the read is computed from the count cut to 16 bits, so with more entries than that the
  rest of the buffer is not initialised.
\<close>

definition flight_plan_erase_index ::
  "sch_config \<Rightarrow> 'm storage \<Rightarrow> 'm chip_drivers \<Rightarrow> (int \<Rightarrow> u32w) \<Rightarrow> int \<Rightarrow> 'm dat_state \<Rightarrow> (int \<times> 'm dat_state) c_result" where
  "flight_plan_erase_index c st ch junk index s =
     (let entries = dat_get_system_var c st dat_fpl_queue s in
      if index < 0 \<or> index \<ge> entries then Inr (-1, s)
      else if entries > 65535 then Inl Uninitialised
      else
        let section_index = index sdiv commands_per_section;
            index_in_section = index smod commands_per_section;
            add = storage_addresses_flight_plan junk section_index;
            section_data = spn_fl512s_read_data ch add (nat entries * max_command_size) (ext s);
            (rc, m) = spn_fl512s_erase_block ch add (ext s);
            s = s\<lparr> ext := m \<rparr>
        in if rc \<noteq> 0 then Inr (-1, s)
           else let (rc, written_entries, m) =
                      rewrite_entries ch (nat index_in_section) add (entry_blocks (nat entries) section_data) 0 (ext s)
                in Inr (rc, dat_set_system_var c st dat_fpl_queue written_entries (s\<lparr> ext := m \<rparr>)))"

text \<open>The four writes of \<^verbatim>\<open>storage_flight_plan_set\<close>, each at its address, until one fails.\<close>

fun write_parts :: "'m chip_drivers \<Rightarrow> (u32w \<times> u8 list) list \<Rightarrow> 'm \<Rightarrow> int \<times> 'm" where
  "write_parts ch [] m = (0, m)"
| "write_parts ch ((add, b) # ps) m =
     (let (rc, m) = spn_fl512s_write_data ch add b m in
      if rc \<noteq> 0 then (-1, m) else write_parts ch ps m)"

definition numbers_container :: "int \<Rightarrow> int \<Rightarrow> string \<Rightarrow> string \<Rightarrow> u8 list" where
  "numbers_container exec peri command args =
     word_bytes (word_of_int exec) @ word_bytes (word_of_int peri) @
     word_bytes (word_of_nat (length command)) @ word_bytes (word_of_nat (length args))"

definition storage_flight_plan_set ::
  "sch_config \<Rightarrow> 'm storage \<Rightarrow> 'm chip_drivers \<Rightarrow> (int \<Rightarrow> u32w) \<Rightarrow> int \<Rightarrow> string \<Rightarrow> string \<Rightarrow> int \<Rightarrow> int \<Rightarrow>
     'm dat_state \<Rightarrow> int \<times> 'm dat_state" where
  "storage_flight_plan_set c st ch junk timetodo command args exec peri s =
     (let entries = dat_get_system_var c st dat_fpl_queue s in
      if entries \<ge> int SCH_FP_MAX_ENTRIES then (-1, s)
      else
        let add = entry_address junk entries;
            (rc, m) = write_parts ch
              [(add, word_bytes (word_of_int timetodo)),
               (add + 4, numbers_container exec peri command args),
               (add + 20, bytes_of command),
               (add + 84, bytes_of args)] (ext s);
            s = s\<lparr> ext := m \<rparr>
        in if rc \<noteq> 0 then (-1, s)
           else (0, dat_set_system_var c st dat_fpl_queue (i32 (entries + 1)) s))"

text \<open>
  \<^verbatim>\<open>storage_flight_plan_get\<close> into buffers of 64 bytes, those of the flight plan task: the lengths stored
  with the entry decide where the NULs go.
\<close>

definition storage_flight_plan_get ::
  "sch_config \<Rightarrow> 'm storage \<Rightarrow> 'm chip_drivers \<Rightarrow> (int \<Rightarrow> u32w) \<Rightarrow> int \<Rightarrow> 'm dat_state \<Rightarrow>
     (int \<times> (string \<times> string \<times> int \<times> int) option \<times> 'm dat_state) c_result" where
  "storage_flight_plan_get c st ch junk timetodo s =
     (let index = flight_plan_find_index c st ch junk timetodo s in
      if index < 0 then Inr (-1, None, s)
      else
        let add = entry_address junk index + 4;
            read = (\<lambda>a n. spn_fl512s_read_data ch a n (ext s));
            numbers = read add 16;
            number = (\<lambda>k. bytes_word (take 4 (drop (4 * k) numbers)));
            name_len = unat (number 2); args_len = unat (number 3);
            exec = i32 (uint (number 0)); peri = i32 (uint (number 1))
        in if SCH_CMD_MAX_STR_PARAMS \<le> name_len \<or> SCH_CMD_MAX_STR_PARAMS \<le> args_len then Inl StackOverflow
           else c_bind (c_str (chars_of (read (add + 16) name_len) @ [NUL])) (\<lambda>command.
                c_bind (c_str (chars_of (read (add + 80) args_len) @ [NUL])) (\<lambda>args.
                c_bind (flight_plan_erase_index c st ch junk index s) (\<lambda>(rc, s).
                  if rc \<noteq> 0 then Inr (-1, Some (command, args, exec, peri), s)
                  else if peri > 0 then
                    let (rc, s) = storage_flight_plan_set c st ch junk (i32 (timetodo + peri)) command args
                                    exec peri s
                    in Inr (if rc \<noteq> 0 then -1 else 0, Some (command, args, exec, peri), s)
                  else Inr (0, Some (command, args, exec, peri), s)))))"

definition storage_flight_plan_erase ::
  "sch_config \<Rightarrow> 'm storage \<Rightarrow> 'm chip_drivers \<Rightarrow> (int \<Rightarrow> u32w) \<Rightarrow> int \<Rightarrow> 'm dat_state \<Rightarrow> (int \<times> 'm dat_state) c_result" where
  "storage_flight_plan_erase c st ch junk timetodo s =
     (let index = flight_plan_find_index c st ch junk timetodo s in
      if index < 0 then Inr (-1, s) else flight_plan_erase_index c st ch junk index s)"

text \<open>The loop of \<^verbatim>\<open>storage_flight_plan_reset\<close> over \<open>n\<close> sections from \<open>i\<close> on, with the entries that are left.\<close>

fun reset_sections ::
  "'m chip_drivers \<Rightarrow> (int \<Rightarrow> u32w) \<Rightarrow> nat \<Rightarrow> int \<Rightarrow> int \<Rightarrow> 'm \<Rightarrow> int \<times> int \<times> 'm" where
  "reset_sections ch junk 0 i entries m = (0, entries, m)"
| "reset_sections ch junk (Suc n) i entries m =
     (let (rc, m) = spn_fl512s_erase_block ch (storage_addresses_flight_plan junk i) m in
      if rc \<noteq> 0 then (-1, entries, m)
      else reset_sections ch junk n (i + 1) (entries - commands_per_section) m)"

definition storage_flight_plan_reset ::
  "sch_config \<Rightarrow> 'm storage \<Rightarrow> 'm chip_drivers \<Rightarrow> (int \<Rightarrow> u32w) \<Rightarrow> 'm dat_state \<Rightarrow> int \<times> 'm dat_state" where
  "storage_flight_plan_reset c st ch junk s =
     (let entries = dat_get_system_var c st dat_fpl_queue s;
          fp_sections = entries sdiv commands_per_section + 1;
          (rc, entries, m) = reset_sections ch junk (nat fp_sections) 0 entries (ext s)
      in (rc, dat_set_system_var c st dat_fpl_queue (if entries < 0 then 0 else entries) (s\<lparr> ext := m \<rparr>)))"

definition storage_table_flight_plan_init ::
  "sch_config \<Rightarrow> 'm storage \<Rightarrow> 'm chip_drivers \<Rightarrow> (int \<Rightarrow> u32w) \<Rightarrow> int \<Rightarrow> 'm dat_state \<Rightarrow> int \<times> 'm dat_state" where
  "storage_table_flight_plan_init c st ch junk drop_it s =
     (if drop_it = 1 then storage_flight_plan_reset c st ch junk s else (0, s))"

text \<open>What \<^verbatim>\<open>storage_show_table\<close> prints, as the list of its rows: time, command, arguments, period.\<close>

definition show_row ::
  "'m chip_drivers \<Rightarrow> (int \<Rightarrow> u32w) \<Rightarrow> 'm \<Rightarrow> int \<Rightarrow> (u32w \<times> string \<times> string \<times> u32w) c_result" where
  "show_row ch junk m index =
     (let add = entry_address junk index;
          timetodo = bytes_word (spn_fl512s_read_data ch add 4 m);
          numbers = spn_fl512s_read_data ch (add + 4) 16 m;
          number = (\<lambda>k. bytes_word (take 4 (drop (4 * k) numbers)))
      in c_bind (c_str (chars_of (spn_fl512s_read_data ch (add + 4 + 16) (unat (number 2)) m) @ [NUL])) (\<lambda>command.
         c_bind (c_str (chars_of (spn_fl512s_read_data ch (add + 4 + 80) (unat (number 3)) m) @ [NUL])) (\<lambda>args.
           Inr (timetodo, command, args, number 1))))"

definition storage_show_table ::
  "sch_config \<Rightarrow> 'm storage \<Rightarrow> 'm chip_drivers \<Rightarrow> (int \<Rightarrow> u32w) \<Rightarrow> 'm dat_state \<Rightarrow>
     (int \<times> (u32w \<times> string \<times> string \<times> u32w) list) c_result" where
  "storage_show_table c st ch junk s =
     (let entries = dat_get_system_var c st dat_fpl_queue s in
      c_bind (c_mapM (show_row ch junk (ext s)) (map int [0..<nat entries])) (\<lambda>rows. Inr (0, rows)))"

text \<open>The flight plan of the driver as the data repository calls it.\<close>

definition nanomind_fp_driver ::
  "sch_config \<Rightarrow> 'm storage \<Rightarrow> 'm chip_drivers \<Rightarrow> (int \<Rightarrow> u32w) \<Rightarrow> 'm fp_driver" where
  "nanomind_fp_driver c st ch junk = \<lparr>
     fd_get = (\<lambda>cap t s. storage_flight_plan_get c st ch junk t s),
     fd_set = (\<lambda>t command args exec peri s. Inr (storage_flight_plan_set c st ch junk t command args exec peri s)),
     fd_erase = (\<lambda>t s. storage_flight_plan_erase c st ch junk t s),
     fd_init = (\<lambda>d s. Inr (storage_table_flight_plan_init c st ch junk d s)),
     fd_show = (\<lambda>s. c_bind (storage_show_table c st ch junk s) (\<lambda>(rc, rows). Inr rc)) \<rparr>"

section \<open>Byte memories\<close>

definition bytes_at :: "(nat \<Rightarrow> u8) \<Rightarrow> nat \<Rightarrow> nat \<Rightarrow> u8 list" where
  "bytes_at f a n = map f [a..<a + n]"

text \<open>Programming flash memory clears bits and sets none.\<close>

definition prog :: "(nat \<Rightarrow> u8) \<Rightarrow> nat \<Rightarrow> u8 list \<Rightarrow> nat \<Rightarrow> u8" where
  "prog f a b = (\<lambda>i. if a \<le> i \<and> i < a + length b then f i AND b ! (i - a) else f i)"

definition erased :: "(nat \<Rightarrow> u8) \<Rightarrow> nat \<Rightarrow> nat \<Rightarrow> bool" where
  "erased f a n \<longleftrightarrow> (\<forall>i. a \<le> i \<and> i < a + n \<longrightarrow> f i = 255)"

lemma length_bytes_at [simp]: "length (bytes_at f a n) = n"
  by (simp add: bytes_at_def)

lemma nth_bytes_at [simp]: "i < n \<Longrightarrow> bytes_at f a n ! i = f (a + i)"
  by (simp add: bytes_at_def)

lemma bytes_at_eqI: "length b = n \<Longrightarrow> (\<And>i. i < n \<Longrightarrow> f (a + i) = b ! i) \<Longrightarrow> bytes_at f a n = b"
  by (rule nth_equalityI) simp_all

lemma bytes_at_cong: "(\<And>i. i < n \<Longrightarrow> f (a + i) = g (b + i)) \<Longrightarrow> bytes_at f a n = bytes_at g b n"
  by (rule bytes_at_eqI) simp_all

lemma bytes_at_eqD:
  assumes "bytes_at f a n = bytes_at g b n" "l < n"
  shows "f (a + l) = g (b + l)"
  using arg_cong [OF assms(1), of "\<lambda>x. x ! l"] assms(2) by simp

lemma take_bytes_at: "k \<le> n \<Longrightarrow> take k (bytes_at f a n) = bytes_at f a k"
  by (rule nth_equalityI) simp_all

lemma drop_bytes_at: "drop k (bytes_at f a n) = bytes_at f (a + k) (n - k)"
  by (rule nth_equalityI) (simp_all add: add.assoc)

lemma bytes_at_prog:
  assumes "erased f a (length b)"
  shows "bytes_at (prog f a b) a (length b) = b"
proof (rule bytes_at_eqI)
  fix i assume i: "i < length b"
  then have "f (a + i) = 255" using assms by (simp add: erased_def)
  moreover have "(255 :: u8) AND b ! i = b ! i"
  proof -
    have "(255 :: u8) = -1" by simp
    then show ?thesis by (simp only: and.left_neutral)
  qed
  ultimately show "prog f a b (a + i) = b ! i" using i by (simp add: prog_def)
qed simp

lemma prog_other: "i < a \<or> a + length b \<le> i \<Longrightarrow> prog f a b i = f i"
  by (auto simp: prog_def)

lemma bytes_at_prog_other: "a + length b \<le> k \<or> k + n \<le> a \<Longrightarrow> bytes_at (prog f a b) k n = bytes_at f k n"
  by (rule bytes_at_cong) (auto intro!: prog_other)

lemma erased_prog_other:
  assumes "a + length b \<le> k \<or> k + n \<le> a"
  shows "erased (prog f a b) k n = erased f k n"
proof -
  have "prog f a b i = f i" if "k \<le> i" "i < k + n" for i
    using assms that by (intro prog_other) auto
  then show ?thesis by (simp add: erased_def)
qed

lemma erased_sub: "erased f a n \<Longrightarrow> a \<le> k \<Longrightarrow> k + l \<le> a + n \<Longrightarrow> erased f k l"
  by (auto simp: erased_def)

lemma bytes_word_bytes [simp]: "bytes_word (word_bytes w) = w"
proof -
  have "unat w < 256 ^ 4" using unsigned_less [where ?'a = nat, of w] by simp
  then show ?thesis by (simp add: bytes_word_def word_bytes_def le_nat_le_bytes)
qed

lemma length_word_bytes [simp]: "length (word_bytes w) = 4"
  by (simp add: word_bytes_def)

lemma i32_uint_word_of_int: "i32 (uint (word_of_int x :: u32w)) = i32 x"
  using i32_u32 [of x] by (simp add: uint_word_of_int u32_def)

section \<open>Working chips\<close>

text \<open>
  What the theorems need of the chips, over functions that read a byte of the 32 KiB FRAM and of the
  64 MiB flash: FRAM is overwritten, flash is programmed and erased in blocks of 256 KiB, a chip that
  works reports no error, and neither memory is disturbed by the other.
\<close>

locale chips =
  fixes ch :: "'m chip_drivers" and fram flash :: "'m \<Rightarrow> nat \<Rightarrow> u8"
  assumes fram_read: "unat a + n \<le> 32768 \<Longrightarrow> fm33256b_read_data ch a n m = bytes_at (fram m) (unat a) n"
    and fram_write: "unat a + length b \<le> 32768 \<Longrightarrow> fram (fm33256b_write_data ch a b m) i =
      (if unat a \<le> i \<and> i < unat a + length b then b ! (i - unat a) else fram m i)"
    and fram_write_flash: "flash (fm33256b_write_data ch a b m) = flash m"
    and flash_read: "unat add + n \<le> 67108864 \<Longrightarrow> spn_fl512s_read_data ch add n m = bytes_at (flash m) (unat add) n"
    and flash_write: "unat add + length b \<le> 67108864 \<Longrightarrow> fst (spn_fl512s_write_data ch add b m) = 0 \<and>
      flash (snd (spn_fl512s_write_data ch add b m)) = prog (flash m) (unat add) b"
    and flash_write_fram: "fram (snd (spn_fl512s_write_data ch add b m)) = fram m"
    and flash_erase: "262144 dvd unat add \<Longrightarrow> unat add < 67108864 \<Longrightarrow> fst (spn_fl512s_erase_block ch add m) = 0 \<and>
      flash (snd (spn_fl512s_erase_block ch add m)) i =
        (if unat add \<le> i \<and> i < unat add + 262144 then 255 else flash m i)"
    and flash_erase_fram: "fram (snd (spn_fl512s_erase_block ch add m)) = fram m"
begin

lemma write_run:
  assumes "unat add + length b \<le> 67108864"
  shows "\<exists>m'. spn_fl512s_write_data ch add b m = (0, m') \<and> flash m' = prog (flash m) (unat add) b \<and> fram m' = fram m"
  using flash_write [OF assms, of m] flash_write_fram [of add b m] by (metis prod.collapse)

lemma erase_run:
  assumes "262144 dvd unat add" "unat add < 67108864"
  shows "\<exists>m'. spn_fl512s_erase_block ch add m = (0, m') \<and> fram m' = fram m \<and> erased (flash m') (unat add) 262144 \<and>
    (\<forall>i. i < unat add \<or> unat add + 262144 \<le> i \<longrightarrow> flash m' i = flash m i)"
  using flash_erase [OF assms, of m] flash_erase_fram [of add m]
  by (intro exI [of _ "snd (spn_fl512s_erase_block ch add m)"]) (auto simp: erased_def prod_eq_iff)

text \<open>Status variables: a cell is four bytes of its own.\<close>

lemma get_value:
  assumes "i < 8192"
  shows "storage_repo_get_value_idx ch (int i) m = i32 (uint (bytes_word (bytes_at (fram m) (4 * i) 4)))"
proof -
  have "unat (word_of_nat (i * 4) :: u16) = 4 * i"
    using assms by (simp only: unat_of_nat) (simp add: take_bit_nat_eq_self)
  moreover have "(word_of_int (int i * 4) :: u16) = word_of_nat (i * 4)" by simp
  ultimately show ?thesis
    using assms fram_read [of "word_of_nat (i * 4)" 4 m] by (simp add: storage_repo_get_value_idx_def)
qed

lemma set_value:
  assumes "i < 8192"
  shows "\<exists>m'. storage_repo_set_value_idx ch (int i) v m = (0, m') \<and> flash m' = flash m \<and>
    (\<forall>k. fram m' k = (if 4 * i \<le> k \<and> k < 4 * i + 4 then word_bytes (word_of_int v) ! (k - 4 * i) else fram m k))"
proof -
  have "unat (word_of_nat (i * 4) :: u16) = 4 * i"
    using assms by (simp only: unat_of_nat) (simp add: take_bit_nat_eq_self)
  moreover have "(word_of_int (int i * 4) :: u16) = word_of_nat (i * 4)" by simp
  ultimately show ?thesis
    using assms fram_write [of "word_of_nat (i * 4)" "word_bytes (word_of_int v)" m] fram_write_flash
    by (simp add: storage_repo_set_value_idx_def)
qed

lemma get_set_value:
  assumes "i < 8192" "j < 8192" "in_i32 v"
  shows "storage_repo_get_value_idx ch (int j) (snd (storage_repo_set_value_idx ch (int i) v m)) =
    (if j = i then v else storage_repo_get_value_idx ch (int j) m)"
proof -
  obtain m' where m': "storage_repo_set_value_idx ch (int i) v m = (0, m')"
    "\<forall>k. fram m' k = (if 4 * i \<le> k \<and> k < 4 * i + 4 then word_bytes (word_of_int v) ! (k - 4 * i) else fram m k)"
    using set_value [OF assms(1)] by blast
  have "bytes_at (fram m') (4 * j) 4 = (if j = i then word_bytes (word_of_int v) else bytes_at (fram m) (4 * j) 4)"
    by (rule bytes_at_eqI) (auto simp: m'(2))
  then show ?thesis
    using m'(1) assms by (simp add: get_value i32_uint_word_of_int i32_id)
qed

lemma nanomind_value_store: "value_store (nanomind_storage ch junk base) (\<lambda>_. True)"
  using get_set_value by (simp add: value_store_def nanomind_storage_def)

lemma nanomind_dat_inv: "storage_mode c \<noteq> 0 \<Longrightarrow> dat_inv c (nanomind_storage ch junk base) s"
  using nanomind_value_store by (auto simp: dat_inv_def)

lemma flash_set_var:
  assumes "storage_mode c \<noteq> 0"
  shows "flash (ext (dat_set_system_var c (nanomind_storage ch junk base) v x s)) = flash (ext s)"
proof -
  have "flash (ext (cell_set c (nanomind_storage ch junk base) i x s)) = flash (ext s)" for i s
    using assms fram_write_flash
    by (simp add: cell_set_def nanomind_storage_def storage_repo_set_value_idx_def)
  then show ?thesis by (simp add: dat_set_system_var_def Let_def)
qed

lemma get_var_fram:
  assumes "storage_mode c \<noteq> 0" "fram (ext t) = fram (ext s)"
  shows "dat_get_system_var c (nanomind_storage ch junk base) v t = dat_get_system_var c (nanomind_storage ch junk base) v s"
proof -
  have cell: "cell_get c (nanomind_storage ch junk base) i t = cell_get c (nanomind_storage ch junk base) i s"
    if "i < 171" for i
    using that assms get_value [of i "ext t"] get_value [of i "ext s"] by (simp add: cell_get_def nanomind_storage_def)
  have i: "dat_idx v < 171" "dat_idx v + 57 < 171" "dat_idx v + 57 * 2 < 171"
    using dat_idx_less [of v] by (simp_all, linarith+)
  show ?thesis unfolding dat_get_system_var_def Let_def cell [OF i(1)] cell [OF i(2)] cell [OF i(3)] ..
qed

end

section \<open>Simulated chips\<close>

text \<open>Two byte memories that behave as the chips do.\<close>

record sim_mem =
  sim_fram :: "nat \<Rightarrow> u8"
  sim_flash :: "nat \<Rightarrow> u8"

definition sim_chips :: "sim_mem chip_drivers" where
  "sim_chips = \<lparr>
     fm33256b_init = (\<lambda>m. m),
     fm33256b_read_data = (\<lambda>a n m. bytes_at (sim_fram m) (unat a) n),
     fm33256b_write_data = (\<lambda>a b m. m\<lparr> sim_fram := (\<lambda>i.
       if unat a \<le> i \<and> i < unat a + length b then b ! (i - unat a) else sim_fram m i) \<rparr>),
     spn_fl512s_init = (\<lambda>m. m),
     spn_fl512s_read_data = (\<lambda>a n m. bytes_at (sim_flash m) (unat a) n),
     spn_fl512s_write_data = (\<lambda>a b m. (0, m\<lparr> sim_flash := prog (sim_flash m) (unat a) b \<rparr>)),
     spn_fl512s_erase_block = (\<lambda>a m. (0, m\<lparr> sim_flash := (\<lambda>i.
       if unat a \<le> i \<and> i < unat a + 262144 then 255 else sim_flash m i) \<rparr>)) \<rparr>"

interpretation sim: chips sim_chips sim_fram sim_flash
  by unfold_locales (simp_all add: sim_chips_def)

lemma sim_chips_work: "chips sim_chips sim_fram sim_flash" ..

definition sim_blank :: sim_mem where
  "sim_blank = \<lparr> sim_fram = (\<lambda>_. 0), sim_flash = (\<lambda>_. 255) \<rparr>"

text \<open>The repository on a Nanomind with blank memories.\<close>

definition blank_state :: "sim_mem dat_state" where
  "blank_state = \<lparr> var_buff = [], ext = sim_blank, fplan = fp_initial, sec = 0 \<rparr>"

abbreviation (input) no_junk :: "int \<Rightarrow> u32w" where "no_junk \<equiv> \<lambda>_. 0"

definition sim_base :: "sim_mem storage" where
  "sim_base = \<lparr> st_init = (\<lambda>x. (0, x)), st_table_repo_init = (\<lambda>_ x. (0, x)), st_table_payload_init = (\<lambda>_ x. (0, x)),
     st_table_flight_plan_init = (\<lambda>_ x. (0, x)), st_repo_get_value_idx = (\<lambda>_ x. 0),
     st_repo_set_value_idx = (\<lambda>_ _ x. (0, x)), st_set_payload_data = (\<lambda>_ _ _ x. (0, x)),
     st_get_payload_data = (\<lambda>_ _ _. (0, [])), st_delete_memory_sections = (\<lambda>x. (0, x)),
     st_flight_plan_reset = (\<lambda>x. (0, x)), st_close = (\<lambda>x. (0, x)) \<rparr>"

definition nanomind_config :: sch_config where
  "nanomind_config = config_h\<lparr> platform_of := NANOMIND, storage_mode := 1 \<rparr>"

section \<open>Properties\<close>

text \<open>
  C21.  Status variables of the Nanomind.  On a FRAM that works, in every storage mode but RAM and with
  single or triple writing, a variable reads back as it was last set and no other variable changes, and
  the flash memory with the samples and the flight plan is not touched.
\<close>

theorem nanomind_variables:
  assumes "chips ch fram flash" "storage_mode c \<noteq> 0" "in_i32 x"
  shows "dat_get_system_var c (nanomind_storage ch junk base) v (dat_set_system_var c (nanomind_storage ch junk base) w x s) =
      (if v = w then x else dat_get_system_var c (nanomind_storage ch junk base) v s) \<and>
    flash (ext (dat_set_system_var c (nanomind_storage ch junk base) w x s)) = flash (ext s)"
  using chips.nanomind_dat_inv [OF assms(1,2)] chips.flash_set_var [OF assms(1,2)] assms(3) by (simp add: dat_simps)

theorem nanomind_variables_witness:
  "let st = nanomind_storage sim_chips no_junk sim_base; c = nanomind_config;
       s = dat_set_system_var c st dat_obc_reset_counter (-7) blank_state in
   dat_get_system_var c st dat_obc_reset_counter s = -7 \<and> dat_get_system_var c st dat_fpl_queue s =
     dat_get_system_var c st dat_fpl_queue blank_state"
  unfolding Let_def
  using nanomind_variables [OF sim_chips_work, of nanomind_config "-7" no_junk sim_base dat_obc_reset_counter
      dat_obc_reset_counter blank_state]
    nanomind_variables [OF sim_chips_work, of nanomind_config "-7" no_junk sim_base dat_fpl_queue
      dat_obc_reset_counter blank_state]
  by (simp add: nanomind_config_def in_i32_def)

end
