(* ===== verification/FlashPlan.thy ===== *)
theory FlashPlan
  imports FlashStorage
begin

text \<open>
  The flight plan in the flash memory of the Nanomind is a list of entries: the operations of the driver
  append to it, take entries out of it and empty it.
\<close>

section \<open>The flight plan as a list\<close>

text \<open>An entry of the plan: time, command, arguments, executions, period.\<close>

type_synonym fp_item = "u32w \<times> string \<times> string \<times> int \<times> int"

fun item_ok :: "fp_item \<Rightarrow> bool" where
  "item_ok (t, command, args, exec, peri) \<longleftrightarrow> t \<noteq> 0 \<and> c_string command \<and> c_string args \<and>
     length command < SCH_CMD_MAX_STR_PARAMS \<and> length args < SCH_CMD_MAX_STR_PARAMS \<and> in_i32 exec \<and> in_i32 peri"

fun item_at :: "(nat \<Rightarrow> u8) \<Rightarrow> nat \<Rightarrow> fp_item \<Rightarrow> bool" where
  "item_at f a (t, command, args, exec, peri) \<longleftrightarrow>
     bytes_at f a 4 = word_bytes t \<and> bytes_at f (a + 4) 16 = numbers_container exec peri command args \<and>
     bytes_at f (a + 20) (length command) = bytes_of command \<and> bytes_at f (a + 84) (length args) = bytes_of args"

abbreviation (input) fp_base :: nat where "fp_base \<equiv> 4194304"

definition plan_in :: "(nat \<Rightarrow> u8) \<Rightarrow> fp_item list \<Rightarrow> bool" where
  "plan_in f es \<longleftrightarrow> length es \<le> SCH_FP_MAX_ENTRIES \<and> (\<forall>e \<in> set es. item_ok e) \<and>
     (\<forall>i < length es. item_at f (fp_base + 148 * i) (es ! i)) \<and>
     erased f (fp_base + 148 * length es) (148 * (SCH_FP_MAX_ENTRIES - length es))"

text \<open>The plan the driver keeps: the entries in flash and their number in FRAM.\<close>

definition plan_stored ::
  "sch_config \<Rightarrow> 'm storage \<Rightarrow> ('m \<Rightarrow> nat \<Rightarrow> u8) \<Rightarrow> 'm dat_state \<Rightarrow> fp_item list \<Rightarrow> bool" where
  "plan_stored c st flash s es \<longleftrightarrow>
     dat_get_system_var c st dat_fpl_queue s = int (length es) \<and> plan_in (flash (ext s)) es"

lemma item_at_moved:
  assumes "item_at f a e" "item_ok e" "\<And>i. i < 148 \<Longrightarrow> g (b + i) = f (a + i)"
  shows "item_at g b e"
proof -
  obtain t command args exec peri where e: "e = (t, command, args, exec, peri)" by (cases e)
  have "bytes_at g (b + k) n = bytes_at f (a + k) n" if "k + n \<le> 148" for k n
    using that assms(3) by (intro bytes_at_cong) (simp add: add.assoc)
  from this [of 0 4] this [of 4 16] this [of 20 "length command"] this [of 84 "length args"] show ?thesis
    using assms(1,2) by (simp add: e)
qed

lemma item_at_prog:
  assumes "item_at f a e" "item_ok e" "a + 148 \<le> k \<or> k + length b \<le> a"
  shows "item_at (prog f k b) a e"
  using assms(3) by (intro item_at_moved [OF assms(1,2)] prog_other) auto

lemma entry_address_small:
  assumes "i < 25"
  shows "unat (entry_address junk (int i)) = fp_base + 148 * i"
proof -
  have "entry_address junk (int i) = word_of_nat (fp_base + 148 * i)"
    using assms by (simp add: entry_address_def commands_per_section_def SIZE_PER_SECTION_def sdiv_nonneg smod_nonneg
        storage_addresses_flight_plan_def sections_for_fp_def payload_tables_amount_def mult.commute)
  then show ?thesis
    using assms by (simp only: unat_of_nat) (simp add: take_bit_nat_eq_self)
qed

lemma section_zero:
  assumes "0 \<le> i" "i < 25"
  shows "i sdiv commands_per_section = 0" "i smod commands_per_section = i"
  using assms by (simp_all add: commands_per_section_def SIZE_PER_SECTION_def sdiv_nonneg smod_nonneg)

lemma fp_section_address: "unat (storage_addresses_flight_plan junk 0) = fp_base"
  by (simp add: SIZE_PER_SECTION_def storage_addresses_flight_plan_def sections_for_fp_def payload_tables_amount_def
      sdiv_nonneg)

text \<open>A list without its element number \<open>k\<close>.\<close>

definition drop_nth :: "nat \<Rightarrow> 'a list \<Rightarrow> 'a list" where
  "drop_nth k es = take k es @ drop (Suc k) es"

lemma length_drop_nth: "k < length es \<Longrightarrow> length (drop_nth k es) = length es - 1"
  by (simp add: drop_nth_def)

lemma set_drop_nth: "set (drop_nth k es) \<subseteq> set es"
  by (auto simp: drop_nth_def dest: in_set_takeD in_set_dropD)

lemma filter_not_eq_upt: "k < n \<Longrightarrow> filter (\<lambda>i. i \<noteq> k) [0..<n] = [0..<k] @ [Suc k..<n]"
proof -
  assume "k < n"
  then have "[0..<n] = [0..<k] @ k # [Suc k..<n]" using upt_split [of 0 k n] by (simp add: upt_conv_Cons)
  then show ?thesis by (simp add: filter_id_conv)
qed

lemma length_numbers [simp]: "length (numbers_container exec peri command args) = 16"
  by (simp add: numbers_container_def)

lemma numbers_parts:
  "bytes_word (take 4 (drop (4 * 0) (numbers_container exec peri command args))) = word_of_int exec"
  "bytes_word (take 4 (drop (4 * 1) (numbers_container exec peri command args))) = word_of_int peri"
  "bytes_word (take 4 (drop (4 * 2) (numbers_container exec peri command args))) = word_of_nat (length command)"
  "bytes_word (take 4 (drop (4 * 3) (numbers_container exec peri command args))) = word_of_nat (length args)"
  by (simp_all add: numbers_container_def)

text \<open>What a fetch at time \<open>t\<close> leaves of the plan when entry \<open>k\<close> is due.\<close>

definition plan_after :: "int \<Rightarrow> nat \<Rightarrow> fp_item list \<Rightarrow> fp_item list" where
  "plan_after t k es =
     (let (u, command, args, exec, peri) = es ! k in
      drop_nth k es @ (if peri > 0 then [(word_of_int (t + peri), command, args, exec, peri)] else []))"

context chips
begin

lemma write_parts_run:
  assumes "\<forall>(add, b) \<in> set ps. unat add + length b \<le> 67108864"
  shows "\<exists>m'. write_parts ch ps m = (0, m') \<and> fram m' = fram m \<and>
    flash m' = fold (\<lambda>(add, b) f. prog f (unat add) b) ps (flash m)"
  using assms
proof (induction ps arbitrary: m)
  case (Cons p ps)
  obtain add b where p: "p = (add, b)" by (cases p)
  obtain m1 where "spn_fl512s_write_data ch add b m = (0, m1)" "flash m1 = prog (flash m) (unat add) b" "fram m1 = fram m"
    using write_run [of add b m] Cons.prems by (auto simp: p)
  then show ?case using Cons.IH [of m1] Cons.prems by (simp add: p)
qed simp

lemma item_written:
  assumes "erased f a 148" "item_ok (t, command, args, exec, peri)"
  shows "item_at (prog (prog (prog (prog f a (word_bytes t)) (a + 4) (numbers_container exec peri command args))
    (a + 20) (bytes_of command)) (a + 84) (bytes_of args)) a (t, command, args, exec, peri)"
proof -
  have len: "length command < 64" "length args < 64" using assms(2) by simp_all
  let ?f1 = "prog f a (word_bytes t)"
  let ?f2 = "prog ?f1 (a + 4) (numbers_container exec peri command args)"
  let ?f3 = "prog ?f2 (a + 20) (bytes_of command)"
  have e1: "erased f a 4" "erased f (a + 4) 16" "erased f (a + 20) (length command)" "erased f (a + 84) (length args)"
    using len by (auto intro: erased_sub [OF assms(1)])
  have s1: "bytes_at ?f1 a 4 = word_bytes t" using bytes_at_prog [of f a "word_bytes t"] e1(1) by simp
  have s2: "bytes_at ?f2 (a + 4) 16 = numbers_container exec peri command args"
    using bytes_at_prog [of ?f1 "a + 4" "numbers_container exec peri command args"] e1(2) by (simp add: erased_prog_other)
  have s3: "bytes_at ?f3 (a + 20) (length command) = bytes_of command"
    using bytes_at_prog [of ?f2 "a + 20" "bytes_of command"] e1(3) by (simp add: erased_prog_other)
  have s4: "bytes_at (prog ?f3 (a + 84) (bytes_of args)) (a + 84) (length args) = bytes_of args"
    using bytes_at_prog [of ?f3 "a + 84" "bytes_of args"] e1(4) len by (simp add: erased_prog_other)
  show ?thesis using s1 s2 s3 s4 len by (simp add: bytes_at_prog_other)
qed

lemma set_refines:
  assumes "storage_mode c \<noteq> 0" "plan_stored c (nanomind_storage ch junk base) flash s es" "length es < 25"
    and "item_ok (word_of_int t, command, args, exec, peri)"
  shows "\<exists>s'. storage_flight_plan_set c (nanomind_storage ch junk base) ch junk t command args exec peri s = (0, s') \<and>
    plan_stored c (nanomind_storage ch junk base) flash s' (es @ [(word_of_int t, command, args, exec, peri)])"
proof -
  let ?st = "nanomind_storage ch junk base" and ?e = "(word_of_int t :: u32w, command, args, exec, peri)"
  let ?a = "fp_base + 148 * length es" and ?f = "flash (ext s)"
  let ?add = "entry_address junk (int (length es))"
  have len: "length command < 64" "length args < 64" using assms(4) by simp_all
  have q: "dat_get_system_var c ?st dat_fpl_queue s = int (length es)" and plan: "plan_in ?f es"
    using assms(2) by (simp_all add: plan_stored_def)
  have a: "unat ?add = ?a" using entry_address_small [OF assms(3)] .
  have off: "unat (?add + word_of_nat k) = ?a + k" if "k < 148" for k
    using that a assms(3) by (subst unat_add_lem [THEN iffD1]) (simp_all add: unat_of_nat take_bit_nat_eq_self)
  have parts: "\<forall>(add, b) \<in> set [(?add, word_bytes (word_of_int t)), (?add + 4, numbers_container exec peri command args),
      (?add + 20, bytes_of command), (?add + 84, bytes_of args)]. unat add + length b \<le> 67108864"
    using off [of 4] off [of 20] off [of 84] a len assms(3) by simp
  let ?g = "prog (prog (prog (prog ?f ?a (word_bytes (word_of_int t))) (?a + 4) (numbers_container exec peri command args))
    (?a + 20) (bytes_of command)) (?a + 84) (bytes_of args)"
  obtain m where m: "write_parts ch [(?add, word_bytes (word_of_int t)), (?add + 4, numbers_container exec peri command args),
      (?add + 20, bytes_of command), (?add + 84, bytes_of args)] (ext s) = (0, m)" "fram m = fram (ext s)" "flash m = ?g"
    using write_parts_run [OF parts, of "ext s"] off [of 4] off [of 20] off [of 84] a by auto
  let ?s = "dat_set_system_var c ?st dat_fpl_queue (int (length es) + 1) (s\<lparr> ext := m \<rparr>)"
  have i: "i32 (int (length es) + 1) = int (length es) + 1" "in_i32 (int (length es) + 1)"
    using assms(3) by (simp_all add: i32_id in_i32_def)
  have run: "storage_flight_plan_set c ?st ch junk t command args exec peri s = (0, ?s)"
    using q m(1) assms(3) i(1) by (simp add: storage_flight_plan_set_def Let_def)
  have erd: "erased ?f ?a (148 * (25 - length es))" using plan by (simp add: plan_in_def)
  have new: "item_at ?g ?a ?e"
    using assms(3) by (intro item_written [OF erased_sub [OF erd] assms(4)]) auto
  have old: "item_at ?g (fp_base + 148 * k) (es ! k)" if "k < length es" for k
  proof -
    have "item_at ?f (fp_base + 148 * k) (es ! k)" "item_ok (es ! k)" using plan that by (simp_all add: plan_in_def)
    then show ?thesis using that by (intro item_at_prog) simp_all
  qed
  have "erased ?g (?a + 148) (148 * (25 - (length es + 1)))"
    using erased_sub [OF erd, of "?a + 148" "148 * (25 - (length es + 1))"] len assms(3)
    by (simp add: erased_prog_other)
  then have "plan_in ?g (es @ [?e])"
    using plan new old assms(3,4) by (auto simp: plan_in_def nth_append less_Suc_eq algebra_simps)
  moreover have "dat_get_system_var c ?st dat_fpl_queue ?s = int (length es) + 1"
    using nanomind_dat_inv [OF assms(1)] i(2) by (simp add: dat_simps)
  ultimately show ?thesis
    using run m(3) flash_set_var [OF assms(1)] by (simp add: plan_stored_def)
qed

text \<open>Writing back: the blocks kept stand one after the other from the start of the section.\<close>

lemma rewrite_run:
  assumes "\<forall>(i, b) \<in> set bs. length b = 148"
    and "kept = map snd (filter (\<lambda>(i, b). i \<noteq> skip \<and> bytes_word (take 4 b) \<noteq> 0) bs)"
    and "unat add + 148 * length kept < 67108864" "erased (flash m) (unat add) (148 * length kept)"
  shows "\<exists>m'. rewrite_entries ch skip add bs w m = (0, w + int (length kept), m') \<and> fram m' = fram m \<and>
    (\<forall>k < length kept. bytes_at (flash m') (unat add + 148 * k) 148 = kept ! k) \<and>
    (\<forall>j. j < unat add \<or> unat add + 148 * length kept \<le> j \<longrightarrow> flash m' j = flash m j)"
  using assms
proof (induction bs arbitrary: kept add w m)
  case Nil
  then show ?case by simp
next
  case (Cons p bs)
  obtain i b where p: "p = (i, b)" by (cases p)
  have b: "length b = 148" using Cons.prems(1) by (simp add: p)
  let ?rest = "map snd (filter (\<lambda>(i, b). i \<noteq> skip \<and> bytes_word (take 4 b) \<noteq> 0) bs)"
  show ?case
  proof (cases "i \<noteq> skip \<and> bytes_word (take 4 b) \<noteq> 0")
    case False
    then show ?thesis using Cons.IH [of kept add m w] Cons.prems by (auto simp: p)
  next
    case True
    then have kept: "kept = b # ?rest" using Cons.prems(2) by (simp add: p)
    obtain m1 where m1: "spn_fl512s_write_data ch add b m = (0, m1)" "flash m1 = prog (flash m) (unat add) b" "fram m1 = fram m"
      using write_run [of add b m] Cons.prems(3) by (auto simp: b kept)
    have add: "unat (add + 148) = unat add + 148"
      using Cons.prems(3) by (subst unat_add_lem [THEN iffD1]) (simp_all add: kept)
    have "erased (flash m1) (unat (add + 148)) (148 * length ?rest)"
      using Cons.prems(4) unfolding m1(2) add
      by (subst erased_prog_other) (auto simp: b kept intro: erased_sub)
    then obtain m' where m': "rewrite_entries ch skip (add + 148) bs (w + 1) m1 = (0, w + 1 + int (length ?rest), m')"
      "fram m' = fram m1" "\<forall>k < length ?rest. bytes_at (flash m') (unat add + 148 + 148 * k) 148 = ?rest ! k"
      "\<forall>j. j < unat add + 148 \<or> unat add + 148 + 148 * length ?rest \<le> j \<longrightarrow> flash m' j = flash m1 j"
      using Cons.IH [of ?rest "add + 148" m1 "w + 1"] Cons.prems(1,3) add by (auto simp: kept)
    have "bytes_at (flash m') (unat add) 148 = bytes_at (flash m1) (unat add) 148"
      using m'(4) by (intro bytes_at_cong) simp
    moreover have "erased (flash m) (unat add) 148" using Cons.prems(4) by (auto simp: kept intro: erased_sub)
    then have "bytes_at (flash m1) (unat add) 148 = b"
      using bytes_at_prog [of "flash m" "unat add" b] unfolding m1(2) by (simp add: b)
    ultimately have first: "bytes_at (flash m') (unat add) 148 = b" by simp
    have "bytes_at (flash m') (unat add + 148 * k) 148 = kept ! k" if "k < length kept" for k
      using that first m'(3) by (cases k) (auto simp: kept algebra_simps)
    moreover have "flash m' j = flash m j" if "j < unat add \<or> unat add + 148 * length kept \<le> j" for j
      using that m'(4) prog_other [of j "unat add" b "flash m"] by (auto simp: kept m1(2) b)
    ultimately show ?thesis
      using m' m1 True by (simp add: p kept add.commute add.left_commute)
  qed
qed

lemma erase_refines:
  assumes "storage_mode c \<noteq> 0" "plan_stored c (nanomind_storage ch junk base) flash s es" "k < length es"
  shows "\<exists>s'. flight_plan_erase_index c (nanomind_storage ch junk base) ch junk (int k) s = Inr (0, s') \<and>
    plan_stored c (nanomind_storage ch junk base) flash s' (drop_nth k es)"
proof -
  let ?st = "nanomind_storage ch junk base" and ?f = "flash (ext s)" and ?n = "length es"
  let ?add = "storage_addresses_flight_plan junk 0"
  let ?blk = "\<lambda>i. bytes_at ?f (fp_base + 148 * i) 148"
  have q: "dat_get_system_var c ?st dat_fpl_queue s = int ?n" and plan: "plan_in ?f es"
    using assms(2) by (simp_all add: plan_stored_def)
  have n: "?n \<le> 25" "\<forall>e \<in> set es. item_ok e" "\<forall>i < ?n. item_at ?f (fp_base + 148 * i) (es ! i)"
    using plan by (simp_all add: plan_in_def)
  have k: "int k sdiv commands_per_section = 0" "int k smod commands_per_section = int k" "unat ?add = fp_base"
    using section_zero [of "int k"] fp_section_address assms(3) n(1) by simp_all
  have data: "spn_fl512s_read_data ch ?add (?n * 148) (ext s) = bytes_at ?f fp_base (?n * 148)"
    using flash_read [of ?add "?n * 148" "ext s"] k(3) n(1) by simp
  have blocks: "entry_blocks ?n (bytes_at ?f fp_base (?n * 148)) = map (\<lambda>i. (i, ?blk i)) [0..<?n]"
    unfolding entry_blocks_def by (auto simp: drop_bytes_at take_bytes_at mult.commute diff_mult_distrib)
  have time: "bytes_word (take 4 (?blk i)) \<noteq> 0" if "i < ?n" for i
  proof -
    obtain t command args exec peri where e: "es ! i = (t, command, args, exec, peri)" by (cases "es ! i")
    have "item_at ?f (fp_base + 148 * i) (es ! i)" "item_ok (es ! i)" using n(2,3) that by simp_all
    then show ?thesis by (simp add: e take_bytes_at)
  qed
  let ?kept = "map ?blk ([0..<k] @ [Suc k..<?n])"
  have "filter (\<lambda>(i, b). i \<noteq> k \<and> bytes_word (take 4 b) \<noteq> 0) (map (\<lambda>i. (i, ?blk i)) [0..<?n]) =
      map (\<lambda>i. (i, ?blk i)) (filter (\<lambda>i. i \<noteq> k) [0..<?n])"
    unfolding filter_map comp_def by (intro arg_cong [of _ _ "map _"] filter_cong) (auto simp: time)
  then have kept: "?kept = map snd (filter (\<lambda>(i, b). i \<noteq> k \<and> bytes_word (take 4 b) \<noteq> 0) (map (\<lambda>i. (i, ?blk i)) [0..<?n]))"
    unfolding filter_not_eq_upt [OF assms(3)] by simp
  have len: "length ?kept = ?n - 1" using assms(3) by simp
  obtain m where m: "spn_fl512s_erase_block ch ?add (ext s) = (0, m)" "fram m = fram (ext s)" "erased (flash m) fp_base 262144"
    using erase_run [of ?add "ext s"] k(3) by auto
  have pre: "\<forall>(i, b) \<in> set (map (\<lambda>i. (i, ?blk i)) [0..<?n]). length b = 148"
    "unat ?add + 148 * length ?kept < 67108864" "erased (flash m) (unat ?add) (148 * length ?kept)"
    unfolding len k(3) using n(1) by (auto intro: erased_sub [OF m(3)])
  obtain m' where m': "rewrite_entries ch k ?add (map (\<lambda>i. (i, ?blk i)) [0..<?n]) 0 m = (0, int (?n - 1), m')"
    "fram m' = fram m" "\<forall>j < ?n - 1. bytes_at (flash m') (fp_base + 148 * j) 148 = ?kept ! j"
    "\<forall>j. j < fp_base \<or> fp_base + 148 * (?n - 1) \<le> j \<longrightarrow> flash m' j = flash m j"
    using rewrite_run [OF pre(1) kept pre(2,3), of 0, unfolded len k(3)] unfolding add_0 by blast
  let ?s = "dat_set_system_var c ?st dat_fpl_queue (int (?n - 1)) (s\<lparr> ext := m' \<rparr>)"
  have run: "flight_plan_erase_index c ?st ch junk (int k) s = Inr (0, ?s)"
    using q k assms(3) n(1) m(1) m'(1) by (simp add: flight_plan_erase_index_def Let_def data blocks)
  have item: "item_at (flash m') (fp_base + 148 * j) (drop_nth k es ! j)" if "j < ?n - 1" for j
  proof -
    obtain i where i: "i < ?n" "drop_nth k es ! j = es ! i" "?kept ! j = ?blk i"
    proof (rule that [of "if j < k then j else Suc j"])
      show "?kept ! j = ?blk (if j < k then j else Suc j)"
        using \<open>j < ?n - 1\<close> assms(3) by (auto simp: nth_append)
    qed (use \<open>j < ?n - 1\<close> assms(3) in \<open>auto simp: drop_nth_def nth_append min_def\<close>)
    have eq: "bytes_at (flash m') (fp_base + 148 * j) 148 = ?blk i"
      using m'(3) [rule_format, OF that] unfolding i(3) .
    have "item_at ?f (fp_base + 148 * i) (es ! i)" "item_ok (es ! i)" using n(2,3) i(1) by simp_all
    from item_at_moved [OF this bytes_at_eqD [OF eq]] show ?thesis unfolding i(2) .
  qed
  have "erased (flash m') (fp_base + 148 * (?n - 1)) (148 * (25 - (?n - 1)))"
    using m(3) m'(4) n(1) by (auto simp: erased_def)
  then have "plan_in (flash m') (drop_nth k es)"
    using item n(1,2) length_drop_nth [OF assms(3)] set_drop_nth [of k es] by (auto simp: plan_in_def)
  moreover have "dat_get_system_var c ?st dat_fpl_queue ?s = int (length (drop_nth k es))"
    using nanomind_dat_inv [OF assms(1)] length_drop_nth [OF assms(3)] n(1) by (simp add: dat_simps in_i32_def)
  ultimately show ?thesis using run flash_set_var [OF assms(1)] by (simp add: plan_stored_def)
qed

lemma read_time:
  assumes "plan_in (flash m) es" "i < length es"
  shows "bytes_word (spn_fl512s_read_data ch (entry_address junk (int i)) 4 m) = fst (es ! i)"
proof -
  obtain t command args exec peri where e: "es ! i = (t, command, args, exec, peri)" by (cases "es ! i")
  have "item_at (flash m) (fp_base + 148 * i) (es ! i)" "length es \<le> 25" using assms by (simp_all add: plan_in_def)
  then show ?thesis
    using flash_read [of "entry_address junk (int i)" 4 m] entry_address_small [of i junk] assms(2) by (simp add: e)
qed

lemma find_entry_none:
  assumes "plan_in (flash m) es" "\<forall>e \<in> set es. fst e \<noteq> word_of_int t" "i + n = length es"
  shows "find_entry ch junk t n (int i) m = -1"
  using assms(3)
proof (induction n arbitrary: i)
  case (Suc n)
  then have "fst (es ! i) \<noteq> word_of_int t" using assms(2) by simp
  then show ?case
    using Suc.IH [of "i + 1"] Suc.prems read_time [OF assms(1), of i junk] by (simp add: add.commute)
qed simp

lemma find_entry_some:
  assumes "plan_in (flash m) es" "k < length es" "fst (es ! k) = word_of_int t" "\<forall>j < k. fst (es ! j) \<noteq> word_of_int t"
    "i + n = length es" "i \<le> k"
  shows "find_entry ch junk t n (int i) m = int k"
  using assms(5,6)
proof (induction n arbitrary: i)
  case 0
  then show ?case using assms(2) by simp
next
  case (Suc n)
  show ?case
  proof (cases "i = k")
    case True
    then show ?thesis using read_time [OF assms(1,2), of junk] assms(3) by simp
  next
    case False
    then have "i < k" using Suc.prems by simp
    then show ?thesis
      using Suc.IH [of "i + 1"] Suc.prems read_time [OF assms(1), of i junk] assms(2,4) by (simp add: add.commute)
  qed
qed

lemma get_refines_none:
  assumes "plan_stored c (nanomind_storage ch junk base) flash s es" "\<forall>e \<in> set es. fst e \<noteq> word_of_int t"
  shows "storage_flight_plan_get c (nanomind_storage ch junk base) ch junk t s = Inr (-1, None, s)"
  using assms find_entry_none [of "ext s" es t 0 "length es" junk]
  by (simp add: storage_flight_plan_get_def flight_plan_find_index_def plan_stored_def)

lemma read_item:
  assumes "plan_in (flash m) es" "k < length es" "es ! k = (u, command, args, exec, peri)"
  shows "spn_fl512s_read_data ch (entry_address junk (int k) + 4) 16 m = numbers_container exec peri command args"
    "spn_fl512s_read_data ch (entry_address junk (int k) + 4 + 16) (length command) m = bytes_of command"
    "spn_fl512s_read_data ch (entry_address junk (int k) + 4 + 80) (length args) m = bytes_of args"
proof -
  let ?add = "entry_address junk (int k)" and ?a = "fp_base + 148 * k"
  have ok: "item_ok (es ! k)" "item_at (flash m) ?a (es ! k)" "length es \<le> 25"
    using assms(1,2) by (simp_all add: plan_in_def)
  have len: "length command < 64" "length args < 64" using ok(1) by (simp_all add: assms(3))
  have a: "unat ?add = ?a" using entry_address_small [of k junk] assms(2) ok(3) by simp
  have off: "unat (?add + word_of_nat j) = ?a + j" if "j < 148" for j
    using that a assms(2) ok(3) by (subst unat_add_lem [THEN iffD1]) (simp_all add: unat_of_nat take_bit_nat_eq_self)
  have read: "spn_fl512s_read_data ch (?add + word_of_nat j) n m = bytes_at (flash m) (?a + j) n"
    if "j + n \<le> 148" "j < 148" for j n
    using flash_read [of "?add + word_of_nat j" n m] off [of j] that assms(2) ok(3) by simp
  show "spn_fl512s_read_data ch (?add + 4) 16 m = numbers_container exec peri command args"
    "spn_fl512s_read_data ch (?add + 4 + 16) (length command) m = bytes_of command"
    "spn_fl512s_read_data ch (?add + 4 + 80) (length args) m = bytes_of args"
    using read [of 4 16] read [of 20 "length command"] read [of 84 "length args"] ok(2) len
    by (simp_all add: assms(3) add.assoc)
qed

lemma get_refines_some:
  assumes "storage_mode c \<noteq> 0" "plan_stored c (nanomind_storage ch junk base) flash s es" "k < length es"
    and "fst (es ! k) = word_of_int t" "\<forall>j < k. fst (es ! j) \<noteq> word_of_int t"
    and e: "es ! k = (u, command, args, exec, peri)" and t: "0 < t" "t + peri \<le> INT_MAX"
  shows "\<exists>s'. storage_flight_plan_get c (nanomind_storage ch junk base) ch junk t s =
      Inr (0, Some (command, args, exec, peri), s') \<and>
    plan_stored c (nanomind_storage ch junk base) flash s' (plan_after t k es)"
proof -
  let ?st = "nanomind_storage ch junk base" and ?add = "entry_address junk (int k)"
  have plan: "plan_in (flash (ext s)) es" using assms(2) by (simp add: plan_stored_def)
  have ok: "item_ok (es ! k)" "length es \<le> 25"
    using plan assms(3) by (simp_all add: plan_in_def)
  have len: "length command < 64" "length args < 64" "c_string command" "c_string args" "in_i32 exec" "in_i32 peri"
    using ok(1) by (simp_all add: e)
  have find: "flight_plan_find_index c ?st ch junk t s = int k"
    using find_entry_some [OF plan assms(3-5), of 0 "length es" junk] assms(2)
    by (simp add: flight_plan_find_index_def plan_stored_def)
  note r = read_item [OF plan assms(3) e, of junk]
  have lens: "unat (word_of_nat (length command) :: u32w) = length command" "unat (word_of_nat (length args) :: u32w) = length args"
    using len by (simp_all add: unat_of_nat take_bit_nat_eq_self)
  obtain s1 where s1: "flight_plan_erase_index c ?st ch junk (int k) s = Inr (0, s1)" "plan_stored c ?st flash s1 (drop_nth k es)"
    using erase_refines [OF assms(1-3)] by blast
  have texts: "c_str (chars_of (bytes_of command) @ [NUL]) = Inr command" "c_str (chars_of (bytes_of args) @ [NUL]) = Inr args"
    using len by (simp_all add: char_of_bytes)
  let ?set = "storage_flight_plan_set c ?st ch junk (i32 (t + peri)) command args exec peri s1"
  have run: "storage_flight_plan_get c ?st ch junk t s =
      (if peri > 0 then Inr (if fst ?set \<noteq> 0 then -1 else 0, Some (command, args, exec, peri), snd ?set)
       else Inr (0, Some (command, args, exec, peri), s1))"
    using len s1(1) unfolding storage_flight_plan_get_def Let_def find r numbers_parts lens
    by (simp add: r texts i32_uint_word_of_int i32_id split_def)
  show ?thesis
  proof (cases "peri > 0")
    case True
    have "item_ok (word_of_int (t + peri), command, args, exec, peri)"
    proof -
      have "uint (word_of_int (t + peri) :: u32w) = t + peri"
        using t True by (subst uint_word_of_int) simp
      then have "(word_of_int (t + peri) :: u32w) \<noteq> 0" using t True by auto
      then show ?thesis using ok(1) by (simp add: e)
    qed
    then obtain s2 where "?set = (0, s2)" "plan_stored c ?st flash s2 (plan_after t k es)"
      using set_refines [OF assms(1) s1(2)] length_drop_nth [OF assms(3)] ok(2) assms(3) t True
      by (fastforce simp: i32_id in_i32_def plan_after_def e)
    then show ?thesis using run True by simp
  next
    case False
    then show ?thesis using run s1(2) by (simp add: plan_after_def e)
  qed
qed

lemma show_refines:
  assumes "plan_stored c (nanomind_storage ch junk base) flash s es"
  shows "storage_show_table c (nanomind_storage ch junk base) ch junk s =
    Inr (0, map (\<lambda>(t, command, args, exec, peri). (t, command, args, word_of_int peri)) es)"
proof -
  have plan: "plan_in (flash (ext s)) es" using assms by (simp add: plan_stored_def)
  have row: "show_row ch junk (ext s) (int k) =
      Inr ((\<lambda>(t, command, args, exec, peri). (t, command, args, word_of_int peri)) (es ! k))" if "k < length es" for k
  proof -
    obtain t command args exec peri where e: "es ! k = (t, command, args, exec, peri)" by (cases "es ! k")
    have "item_ok (es ! k)" using plan that by (simp add: plan_in_def)
    then have len: "length command < 64" "length args < 64" "c_string command" "c_string args" by (simp_all add: e)
    then have lens: "unat (word_of_nat (length command) :: u32w) = length command" "unat (word_of_nat (length args) :: u32w) = length args"
      by (simp_all add: unat_of_nat take_bit_nat_eq_self)
    have texts: "c_str (chars_of (bytes_of command) @ [NUL]) = Inr command" "c_str (chars_of (bytes_of args) @ [NUL]) = Inr args"
      using len by (simp_all add: char_of_bytes)
    show ?thesis
      unfolding show_row_def Let_def read_item [OF plan that e] numbers_parts lens
      using read_time [OF plan that, of junk] by (simp add: read_item [OF plan that e] texts e)
  qed
  have "c_mapM (show_row ch junk (ext s)) (map int [0..<length es]) =
      Inr (map (\<lambda>(t, command, args, exec, peri). (t, command, args, word_of_int peri)) es)"
  proof -
    have "c_mapM (show_row ch junk (ext s)) (map int [0..<length es]) =
        Inr (map (\<lambda>i. projr (show_row ch junk (ext s) i)) (map int [0..<length es]))"
      by (rule c_mapM_Inr) (auto simp: row)
    moreover have "map (\<lambda>i. projr (show_row ch junk (ext s) i)) (map int [0..<length es]) =
        map (\<lambda>(t, command, args, exec, peri). (t, command, args, word_of_int peri)) es"
      by (rule nth_equalityI) (simp_all add: row)
    ultimately show ?thesis by simp
  qed
  then show ?thesis using assms by (simp add: storage_show_table_def plan_stored_def)
qed

lemma reset_refines:
  assumes "storage_mode c \<noteq> 0" "plan_stored c (nanomind_storage ch junk base) flash s es"
  shows "\<exists>s'. storage_flight_plan_reset c (nanomind_storage ch junk base) ch junk s = (0, s') \<and>
    plan_stored c (nanomind_storage ch junk base) flash s' []"
proof -
  let ?st = "nanomind_storage ch junk base" and ?add = "storage_addresses_flight_plan junk 0"
  have n: "dat_get_system_var c ?st dat_fpl_queue s = int (length es)" "length es \<le> 25"
    using assms(2) by (simp_all add: plan_stored_def plan_in_def)
  have sec: "int (length es) sdiv commands_per_section = 0" "int (length es) - commands_per_section < 0"
    using n(2) by (simp_all add: commands_per_section_def SIZE_PER_SECTION_def sdiv_nonneg)
  obtain m where m: "spn_fl512s_erase_block ch ?add (ext s) = (0, m)" "erased (flash m) fp_base 262144"
    using erase_run [of ?add "ext s"] fp_section_address [of junk] by auto
  let ?s = "dat_set_system_var c ?st dat_fpl_queue 0 (s\<lparr> ext := m \<rparr>)"
  have "storage_flight_plan_reset c ?st ch junk s = (0, ?s)"
    using n sec m(1) by (simp add: storage_flight_plan_reset_def Let_def)
  moreover have "plan_in (flash m) []" using m(2) by (auto simp: plan_in_def intro: erased_sub)
  ultimately show ?thesis
    using flash_set_var [OF assms(1)] nanomind_dat_inv [OF assms(1)]
    by (simp add: plan_stored_def dat_simps in_i32_def)
qed

lemma erase_time_refines:
  assumes "storage_mode c \<noteq> 0" "plan_stored c (nanomind_storage ch junk base) flash s es" "k < length es"
    and "fst (es ! k) = word_of_int t" "\<forall>j < k. fst (es ! j) \<noteq> word_of_int t"
  shows "\<exists>s'. storage_flight_plan_erase c (nanomind_storage ch junk base) ch junk t s = Inr (0, s') \<and>
    plan_stored c (nanomind_storage ch junk base) flash s' (drop_nth k es)"
  using erase_refines [OF assms(1-3)] assms(2) find_entry_some [OF _ assms(3-5), of "ext s" 0 "length es" junk]
  by (simp add: storage_flight_plan_erase_def flight_plan_find_index_def plan_stored_def)

end

section \<open>Properties\<close>

text \<open>
  C19.  The flight plan of the Nanomind, on chips that work.  The driver keeps a list of at most 25 entries:
  setting an entry appends it, or is refused when the list is full; fetching at time \<open>t\<close> returns the
  command, the arguments and the numbers of the first entry of that time and takes it out, and when it
  is periodic appends it again a period later; erasing takes it out; fetching or erasing a time nobody
  set fails and changes nothing; resetting empties the list.
\<close>

theorem flash_plan_refines:
  assumes "chips ch fram flash" "storage_mode c \<noteq> 0" "st = nanomind_storage ch junk base" "plan_stored c st flash s es"
  shows "(length es < 25 \<and> item_ok (word_of_int t, command, args, exec, peri) \<longrightarrow>
      (\<exists>s'. storage_flight_plan_set c st ch junk t command args exec peri s = (0, s') \<and>
        plan_stored c st flash s' (es @ [(word_of_int t, command, args, exec, peri)]))) \<and>
    (length es = 25 \<longrightarrow> storage_flight_plan_set c st ch junk t command args exec peri s = (-1, s)) \<and>
    ((\<forall>e \<in> set es. fst e \<noteq> word_of_int t) \<longrightarrow> storage_flight_plan_get c st ch junk t s = Inr (-1, None, s) \<and>
      storage_flight_plan_erase c st ch junk t s = Inr (-1, s)) \<and>
    (k < length es \<and> es ! k = (word_of_int t, command, args, exec, peri) \<and> (\<forall>j < k. fst (es ! j) \<noteq> word_of_int t) \<longrightarrow>
      (0 < t \<and> t + peri \<le> INT_MAX \<longrightarrow> (\<exists>s'. storage_flight_plan_get c st ch junk t s =
        Inr (0, Some (command, args, exec, peri), s') \<and> plan_stored c st flash s' (plan_after t k es))) \<and>
      (\<exists>s'. storage_flight_plan_erase c st ch junk t s = Inr (0, s') \<and> plan_stored c st flash s' (drop_nth k es))) \<and>
    (\<exists>s'. storage_flight_plan_reset c st ch junk s = (0, s') \<and> plan_stored c st flash s' [])"
proof -
  note p = assms(4) [unfolded assms(3)]
  have "storage_flight_plan_set c st ch junk t command args exec peri s = (-1, s)" if "length es = 25"
    using that assms(4) by (simp add: storage_flight_plan_set_def plan_stored_def)
  moreover have "storage_flight_plan_erase c st ch junk t s = Inr (-1, s)" if "\<forall>e \<in> set es. fst e \<noteq> word_of_int t"
    using chips.find_entry_none [OF assms(1) _ that, of "ext s" 0 "length es" junk] assms(4)
    by (simp add: storage_flight_plan_erase_def flight_plan_find_index_def plan_stored_def)
  ultimately show ?thesis
    unfolding assms(3)
    using chips.set_refines [OF assms(1,2) p] chips.get_refines_none [OF assms(1) p]
      chips.get_refines_some [OF assms(1,2) p] chips.erase_time_refines [OF assms(1,2) p]
      chips.reset_refines [OF assms(1,2) p]
    by simp
qed

lemma blank_plan: "plan_stored nanomind_config (nanomind_storage sim_chips no_junk sim_base) sim_flash blank_state []"
proof -
  have "bytes_word (bytes_at (\<lambda>_. 0) a 4) = 0" for a
  proof -
    have "bytes_at (\<lambda>_. 0) a 4 = [0, 0, 0, 0]"
      by (rule bytes_at_eqI) (auto simp: less_Suc_eq numeral_eq_Suc)
    then show ?thesis by (simp add: bytes_word_def le_nat_def)
  qed
  then have cell: "storage_repo_get_value_idx sim_chips (int i) sim_blank = 0" if "i < 8192" for i
    using that sim.get_value [OF that, of sim_blank] by (simp add: sim_blank_def i32_def)
  have "cell_get nanomind_config (nanomind_storage sim_chips no_junk sim_base) i blank_state = 0" if "i < 8192" for i
    using cell [OF that] by (simp add: cell_get_def nanomind_config_def nanomind_storage_def blank_state_def)
  then have "dat_get_system_var nanomind_config (nanomind_storage sim_chips no_junk sim_base) dat_fpl_queue blank_state = 0"
    by (simp add: dat_get_system_var_def nanomind_config_def Let_def)
  then show ?thesis
    by (simp add: plan_stored_def plan_in_def erased_def blank_state_def sim_blank_def)
qed

theorem flash_plan_refines_witness:
  "let c = nanomind_config; st = nanomind_storage sim_chips no_junk sim_base in
   \<exists>s1 s2. storage_flight_plan_set c st sim_chips no_junk 100 ''help'' ''a'' 1 60 blank_state = (0, s1) \<and>
     storage_flight_plan_get c st sim_chips no_junk 100 s1 = Inr (0, Some (''help'', ''a'', 1, 60), s2) \<and>
     plan_stored c st sim_flash s2 [(160, ''help'', ''a'', 1, 60)]"
proof -
  let ?c = nanomind_config and ?st = "nanomind_storage sim_chips no_junk sim_base"
  have mode: "storage_mode ?c \<noteq> 0" by (simp add: nanomind_config_def)
  have ok: "item_ok (word_of_int 100, ''help'', ''a'', 1, 60)" by (simp add: c_string_def in_i32_def)
  note step = flash_plan_refines [OF sim_chips_work mode refl]
  obtain s1 where s1: "storage_flight_plan_set ?c ?st sim_chips no_junk 100 ''help'' ''a'' 1 60 blank_state = (0, s1)"
    "plan_stored ?c ?st sim_flash s1 [(word_of_int 100, ''help'', ''a'', 1, 60)]"
    using step [OF blank_plan, of 100 "''help''" "''a''" 1 60 0] ok by auto
  have "plan_after 100 0 [(word_of_int 100, ''help'', ''a'', 1, 60)] = [(160, ''help'', ''a'', 1, 60)]"
    by (simp add: plan_after_def drop_nth_def)
  then obtain s2 where "storage_flight_plan_get ?c ?st sim_chips no_junk 100 s1 = Inr (0, Some (''help'', ''a'', 1, 60), s2)"
    "plan_stored ?c ?st sim_flash s2 [(160, ''help'', ''a'', 1, 60)]"
    using step [OF s1(2), of 100 "''help''" "''a''" 1 60 0] by auto
  then show ?thesis using s1(1) unfolding Let_def by blast
qed

end
