(* ===== verification/FlashFlight.thy ===== *)
theory FlashFlight
  imports FlashPlan TaskFlightPlan
begin

text \<open>
  The flight plan task on the Nanomind, where the plan is kept in flash memory: the task, the data
  repository and the storage driver together.
\<close>

section \<open>The plan in flash as a source of entries\<close>

text \<open>The first entry of a time, and the plan after it was fetched.\<close>

definition due_at :: "int \<Rightarrow> fp_item list \<Rightarrow> nat" where
  "due_at t es = length (takeWhile (\<lambda>e. fst e \<noteq> word_of_int t) es)"

definition flash_due :: "fp_item list \<Rightarrow> int \<Rightarrow> plan_entry option" where
  "flash_due es t = (if due_at t es < length es then Some (snd (es ! due_at t es)) else None)"

definition flash_after :: "fp_item list \<Rightarrow> int \<Rightarrow> fp_item list" where
  "flash_after es t = plan_after t (due_at t es) es"

lemma due_at_first:
  assumes "due_at t es < length es"
  shows "fst (es ! due_at t es) = word_of_int t" "j < due_at t es \<Longrightarrow> fst (es ! j) \<noteq> word_of_int t"
proof -
  show "fst (es ! due_at t es) = word_of_int t"
    using assms nth_length_takeWhile [of "\<lambda>e. fst e \<noteq> word_of_int t" es] by (simp add: due_at_def)
  assume "j < due_at t es"
  then show "fst (es ! j) \<noteq> word_of_int t"
    using nth_mem [of j "takeWhile (\<lambda>e. fst e \<noteq> word_of_int t) es"] set_takeWhileD [of _ _ es] takeWhile_nth
    by (fastforce simp: due_at_def)
qed

lemma due_at_none: "\<not> due_at t es < length es \<Longrightarrow> \<forall>e \<in> set es. fst e \<noteq> word_of_int t"
  by (induction es) (auto simp: due_at_def split: if_splits)

text \<open>A Nanomind build that keeps its data in the chips.\<close>

locale flash_system = chips ch fram flash
  for ch :: "'m chip_drivers" and fram flash :: "'m \<Rightarrow> nat \<Rightarrow> u8" +
  fixes c :: sch_config and junk :: "int \<Rightarrow> u32w" and base :: "'m storage"
  assumes external: "storage_mode c \<noteq> 0" "platform_of c \<noteq> AVR32"
begin

lemma plan_stored_set_last:
  assumes "plan_stored c (nanomind_storage ch junk base) flash s es" "in_i32 x"
  shows "plan_stored c (nanomind_storage ch junk base) flash
    (dat_set_system_var c (nanomind_storage ch junk base) dat_fpl_last x s) es"
  using assms nanomind_dat_inv [OF external(1)] flash_set_var [OF external(1)]
  by (simp add: plan_stored_def dat_simps)

lemma flash_get_due:
  assumes "plan_stored c (nanomind_storage ch junk base) flash s es" "0 < t"
    "flash_due es t = Some (command, args, exec, peri)" "t + peri \<le> INT_MAX"
  shows "\<exists>s'. storage_flight_plan_get c (nanomind_storage ch junk base) ch junk t s =
      Inr (0, Some (command, args, exec, peri), s') \<and>
    plan_stored c (nanomind_storage ch junk base) flash s' (flash_after es t)"
proof -
  have k: "due_at t es < length es" "es ! due_at t es = (word_of_int t, command, args, exec, peri)"
    using assms(3) due_at_first(1) [of t es] by (auto simp: flash_due_def prod_eq_iff split: if_splits)
  show ?thesis
    unfolding flash_after_def
    using get_refines_some [OF external(1) assms(1) k(1) due_at_first(1) [OF k(1)] _ k(2) assms(2,4)] due_at_first(2) [OF k(1)]
    by blast
qed

end

sublocale flash_system \<subseteq> flash_source: plan_source c "nanomind_storage ch junk base"
  "nanomind_fp_driver c (nanomind_storage ch junk base) ch junk" "plan_stored c (nanomind_storage ch junk base) flash"
  flash_due flash_after
proof
  show "storage_mode c \<noteq> 0" "platform_of c \<noteq> AVR32" by (fact external)+
next
  fix s es t
  assume "plan_stored c (nanomind_storage ch junk base) flash s es" "flash_due es t = None"
  then show "\<exists>s'. fd_get (nanomind_fp_driver c (nanomind_storage ch junk base) ch junk) 64 t s = Inr (-1, None, s') \<and>
      plan_stored c (nanomind_storage ch junk base) flash s' es"
    using get_refines_none [of c junk base s es t] due_at_none [of t es]
    by (auto simp: nanomind_fp_driver_def flash_due_def split: if_splits)
next
  fix s es t command args exec peri
  assume "plan_stored c (nanomind_storage ch junk base) flash s es" "0 < t"
    "flash_due es t = Some (command, args, exec, peri)" "t + peri \<le> INT_MAX"
  then show "\<exists>s'. fd_get (nanomind_fp_driver c (nanomind_storage ch junk base) ch junk) 64 t s =
      Inr (0, Some (command, args, exec, peri), s') \<and> plan_stored c (nanomind_storage ch junk base) flash s' (flash_after es t)"
    using flash_get_due by (simp add: nanomind_fp_driver_def)
qed (rule plan_stored_set_last)

context flash_system
begin

lemmas flash_seconds_run = flash_source.seconds_run

end

text \<open>One command, on a Nanomind with the memories blank.\<close>

definition nanomind_small :: sch_config where
  "nanomind_small = nanomind_config\<lparr> cmd_max_entries := 1 \<rparr>"

lemma blank_plan_small: "plan_stored nanomind_small (nanomind_storage sim_chips no_junk sim_base) sim_flash blank_state []"
proof -
  have "dat_get_system_var nanomind_small st v s = dat_get_system_var nanomind_config st v s" for v s and st :: "sim_mem storage"
    by (simp add: nanomind_small_def nanomind_config_def dat_get_system_var_def cell_get_def Let_def)
  then show ?thesis using blank_plan by (simp add: plan_stored_def)
qed

interpretation flash_small: flash_system sim_chips sim_fram sim_flash nanomind_small no_junk sim_base
  by unfold_locales (simp_all add: nanomind_small_def nanomind_config_def)

section \<open>Properties\<close>



end
