(* ===== verification/FlashSamples.thy ===== *)
theory FlashSamples
  imports FlashStorage
begin

text \<open>
  The payload samples in the flash memory of the Nanomind: every payload has two sections, in which its
  samples stand one after the other.
\<close>

abbreviation (input) fp_base :: nat where "fp_base \<equiv> 4194304"

section \<open>Payload samples as lists\<close>

definition sample_size :: "payload_id \<Rightarrow> nat" where
  "sample_size p = dm_size (data_map p)"

definition per_section :: "payload_id \<Rightarrow> nat" where
  "per_section p = 262144 div sample_size p"

definition sample_addr :: "payload_id \<Rightarrow> nat \<Rightarrow> nat" where
  "sample_addr p i = (2 * payload_idx p + i div per_section p) * 262144 + i mod per_section p * sample_size p"

text \<open>The samples of every payload, oldest first, and the rest of its sections erased.\<close>

definition samples_stored :: "(nat \<Rightarrow> u8) \<Rightarrow> (payload_id \<Rightarrow> u8 list list) \<Rightarrow> bool" where
  "samples_stored f xss \<longleftrightarrow> (\<forall>p. length (xss p) \<le> 2 * per_section p \<and>
     (\<forall>i < length (xss p). bytes_at f (sample_addr p i) (sample_size p) = xss p ! i) \<and>
     (\<forall>i. length (xss p) \<le> i \<and> i < 2 * per_section p \<longrightarrow> erased f (sample_addr p i) (sample_size p)))"

lemma sample_size_pos: "0 < sample_size p" "0 < per_section p"
  by (cases p; simp add: per_section_def sample_size_def)+

lemma payload_idx_8: "payload_idx p < 8"
  by (cases p) simp_all

lemma in_section: "i mod per_section p * sample_size p + sample_size p \<le> 262144"
proof -
  have "i mod per_section p + 1 \<le> per_section p" using sample_size_pos(2) [of p] by (simp add: Suc_leI)
  then have "(i mod per_section p + 1) * sample_size p \<le> per_section p * sample_size p" by (rule mult_le_mono1)
  also have "\<dots> \<le> 262144" by (simp add: per_section_def)
  finally show ?thesis by simp
qed

lemma section_less: "i < 2 * per_section p \<Longrightarrow> i div per_section p < 2"
  by (simp add: less_mult_imp_div_less)

text \<open>Two samples share no byte.\<close>

lemma sections_apart:
  fixes a b k l x y :: nat
  assumes "a < b" "x + k \<le> 262144"
  shows "a * 262144 + x + k \<le> b * 262144 + y"
proof -
  have "(a + 1) * 262144 \<le> b * 262144" using assms(1) by (intro mult_le_mono1) simp
  then show ?thesis using assms(2) by simp
qed

lemma samples_apart:
  assumes "i < 2 * per_section p" "j < 2 * per_section q" "p \<noteq> q \<or> i \<noteq> j"
  shows "sample_addr p i + sample_size p \<le> sample_addr q j \<or> sample_addr q j + sample_size q \<le> sample_addr p i"
proof -
  let ?a = "2 * payload_idx p + i div per_section p" and ?b = "2 * payload_idx q + j div per_section q"
  consider "?a < ?b" | "?b < ?a" | "?a = ?b" by linarith
  then show ?thesis
  proof cases
    case 1
    then show ?thesis using sections_apart [OF 1 in_section] by (simp add: sample_addr_def)
  next
    case 2
    then show ?thesis using sections_apart [OF 2 in_section] by (simp add: sample_addr_def)
  next
    case 3
    have "i div per_section p < 2" "j div per_section q < 2" using assms(1,2) section_less by simp_all
    then have "payload_idx p = payload_idx q" using 3 by linarith
    then have pq: "p = q" by (cases p; cases q; simp)
    then have "i div per_section p = j div per_section p" using 3 by simp
    then have "i mod per_section p \<noteq> j mod per_section p" using assms(3) pq by (metis div_mult_mod_eq)
    then consider "i mod per_section p + 1 \<le> j mod per_section p" | "j mod per_section p + 1 \<le> i mod per_section p"
      by linarith
    then show ?thesis
    proof cases
      case 1
      then show ?thesis using mult_le_mono1 [OF 1, of "sample_size p"] 3 pq by (simp add: sample_addr_def)
    next
      case 2
      then show ?thesis using mult_le_mono1 [OF 2, of "sample_size p"] 3 pq by (simp add: sample_addr_def)
    qed
  qed
qed

lemma sample_addr_bound:
  assumes "i < 2 * per_section p"
  shows "sample_addr p i + sample_size p \<le> fp_base"
proof -
  have "2 * payload_idx p + i div per_section p < 16" using payload_idx_8 [of p] section_less [OF assms] by simp
  from sections_apart [OF this in_section [of i p], where y = 0] show ?thesis by (simp add: sample_addr_def)
qed

lemma payload_section_full: "payload_section p (int (2 * per_section p)) = 2"
proof -
  have "262144 sdiv int (dm_size (data_map p)) = int (per_section p)"
    using sample_size_pos(1) [of p] by (simp add: sdiv_nonneg per_section_def sample_size_def zdiv_int)
  then show ?thesis
    using sample_size_pos(2) [of p] by (simp add: payload_section_def SIZE_PER_SECTION_def sdiv_nonneg)
qed

lemma payload_address_small:
  assumes "i < 2 * per_section p"
  shows "payload_section p (int i) < 2" "unat (payload_address junk p (int i)) = sample_addr p i"
proof -
  have n: "262144 sdiv int (dm_size (data_map p)) = int (per_section p)"
    using sample_size_pos(1) [of p]
    by (simp add: sdiv_nonneg per_section_def sample_size_def zdiv_int)
  have sec: "payload_section p (int i) = int (i div per_section p)"
    using sample_size_pos(2) [of p] by (simp add: payload_section_def SIZE_PER_SECTION_def n sdiv_nonneg zdiv_int)
  then show "payload_section p (int i) < 2" using section_less [OF assms] by simp
  have "payload_address junk p (int i) = word_of_nat (sample_addr p i)"
    using section_less [OF assms] payload_idx_8 [of p] sample_size_pos(2) [of p]
    by (simp add: payload_address_def Let_def n sec storage_addresses_payloads_def payload_tables_amount_def
        SIZE_PER_SECTION_def smod_nonneg sample_addr_def sample_size_def flip: zmod_int)
  then show "unat (payload_address junk p (int i)) = sample_addr p i"
    using sample_addr_bound [OF assms] by (simp only: unat_of_nat) (simp add: take_bit_nat_eq_self)
qed

context chips
begin

lemma store_sample:
  assumes "samples_stored (flash m) xss" "length d = sample_size p" "length (xss p) < 2 * per_section p"
  shows "\<exists>m'. storage_set_payload_data ch junk (int (length (xss p))) d p m = (0, m') \<and> fram m' = fram m \<and>
    samples_stored (flash m') (xss(p := xss p @ [d]))"
proof -
  let ?n = "length (xss p)" and ?a = "sample_addr p (length (xss p))"
  note small = payload_address_small [OF assms(3)]
  have "unat (payload_address junk p (int ?n)) + length d \<le> 67108864"
    using small(2) sample_addr_bound [OF assms(3)] assms(2) by simp
  from write_run [OF this, of m] obtain m' where
    m': "spn_fl512s_write_data ch (payload_address junk p (int ?n)) d m = (0, m')" "fram m' = fram m"
    "flash m' = prog (flash m) ?a d"
    using small(2) by auto
  have other: "bytes_at (flash m') (sample_addr q i) (sample_size q) = bytes_at (flash m) (sample_addr q i) (sample_size q)"
    "erased (flash m') (sample_addr q i) (sample_size q) = erased (flash m) (sample_addr q i) (sample_size q)"
    if "i < 2 * per_section q" "q \<noteq> p \<or> i \<noteq> ?n" for q i
  proof -
    have "sample_addr p ?n + length d \<le> sample_addr q i \<or> sample_addr q i + sample_size q \<le> sample_addr p ?n"
      using samples_apart [OF assms(3) that(1)] that(2) assms(2) by auto
    then show "bytes_at (flash m') (sample_addr q i) (sample_size q) = bytes_at (flash m) (sample_addr q i) (sample_size q)"
      "erased (flash m') (sample_addr q i) (sample_size q) = erased (flash m) (sample_addr q i) (sample_size q)"
      unfolding m'(3) by (rule bytes_at_prog_other, rule erased_prog_other)
  qed
  have "erased (flash m) ?a (length d)" using assms by (simp add: samples_stored_def)
  then have new: "bytes_at (flash m') ?a (sample_size p) = d"
    using bytes_at_prog [of "flash m" ?a d] assms(2) by (simp add: m'(3))
  have "samples_stored (flash m') (xss(p := xss p @ [d]))"
    unfolding samples_stored_def
  proof (intro allI conjI impI)
    fix q i
    show "length ((xss(p := xss p @ [d])) q) \<le> 2 * per_section q"
      using assms(1,3) by (auto simp: samples_stored_def)
    show "bytes_at (flash m') (sample_addr q i) (sample_size q) = (xss(p := xss p @ [d])) q ! i"
      if "i < length ((xss(p := xss p @ [d])) q)"
    proof (cases "q = p \<and> i = ?n")
      case False
      have "length (xss q) \<le> 2 * per_section q" using assms(1) by (simp add: samples_stored_def)
      then have "i < length (xss q)" "i < 2 * per_section q" using that False by (auto split: if_splits)
      then show ?thesis using other(1) [of i q] False assms(1) by (auto simp: samples_stored_def nth_append)
    qed (simp add: new)
    show "erased (flash m') (sample_addr q i) (sample_size q)"
      if "length ((xss(p := xss p @ [d])) q) \<le> i \<and> i < 2 * per_section q"
      using that other(2) [of i q] assms(1) by (auto simp: samples_stored_def split: if_splits)
  qed
  then show ?thesis using m' small(1) assms(2) by (simp add: storage_set_payload_data_def sample_size_def)
qed

lemma read_sample:
  assumes "samples_stored (flash m) xss" "i < length (xss p)"
  shows "storage_get_payload_data ch junk (int i) p m = (0, xss p ! i)"
proof -
  have i: "i < 2 * per_section p" using assms by (auto simp: samples_stored_def intro: less_le_trans)
  note small = payload_address_small [OF i]
  have "spn_fl512s_read_data ch (payload_address junk p (int i)) (sample_size p) m = xss p ! i"
    using flash_read [of "payload_address junk p (int i)" "sample_size p" m] small(2) sample_addr_bound [OF i] assms
    by (simp add: samples_stored_def)
  then show ?thesis using small(1) by (simp add: storage_get_payload_data_def sample_size_def)
qed

lemma erase_sections_run:
  assumes "\<forall>a \<in> set adds. 262144 dvd unat a \<and> unat a < 67108864"
  shows "\<exists>m'. erase_sections ch adds m = (0, m') \<and> fram m' = fram m \<and>
    (\<forall>i. flash m' i = (if \<exists>a \<in> set adds. unat a \<le> i \<and> i < unat a + 262144 then 255 else flash m i))"
  using assms
proof (induction adds arbitrary: m)
  case (Cons a adds)
  obtain m1 where m1: "spn_fl512s_erase_block ch a m = (0, m1)" "fram m1 = fram m" "erased (flash m1) (unat a) 262144"
    "\<forall>i. i < unat a \<or> unat a + 262144 \<le> i \<longrightarrow> flash m1 i = flash m i"
    using erase_run [of a m] Cons.prems by auto
  obtain m' where m': "erase_sections ch adds m1 = (0, m')" "fram m' = fram m1"
    "\<forall>i. flash m' i = (if \<exists>a \<in> set adds. unat a \<le> i \<and> i < unat a + 262144 then 255 else flash m1 i)"
    using Cons.IH [of m1] Cons.prems by auto
  have "flash m1 i = (if unat a \<le> i \<and> i < unat a + 262144 then 255 else flash m i)" for i
    using m1(3,4) by (auto simp: erased_def)
  then show ?case using m1(1,2) m' by auto
qed simp

lemma delete_sections:
  "\<exists>m'. storage_delete_memory_sections ch junk m = (0, m') \<and> fram m' = fram m \<and>
    samples_stored (flash m') (\<lambda>_. []) \<and> (\<forall>i \<ge> fp_base. flash m' i = flash m i)"
proof -
  let ?adds = "map (storage_addresses_payloads junk) [0..payload_tables_amount - 1]"
  have u: "unat (storage_addresses_payloads junk (int k)) = k * 262144" if "k < 16" for k
  proof -
    have "storage_addresses_payloads junk (int k) = word_of_nat (k * 262144)"
      using that by (simp add: storage_addresses_payloads_def payload_tables_amount_def SIZE_PER_SECTION_def)
    then show ?thesis using that by (simp only: unat_of_nat) (simp add: take_bit_nat_eq_self)
  qed
  have adds: "set ?adds = (\<lambda>k. storage_addresses_payloads junk (int k)) ` {..<16}"
  proof -
    have "{0..15 :: int} = int ` {..<16}"
    proof (rule set_eqI)
      fix x :: int
      show "x \<in> {0..15} \<longleftrightarrow> x \<in> int ` {..<16}"
        by (cases x) auto
    qed
    then show ?thesis by (simp add: payload_tables_amount_def image_image)
  qed
  obtain m' where m': "erase_sections ch ?adds m = (0, m')" "fram m' = fram m"
    "\<forall>i. flash m' i = (if \<exists>a \<in> set ?adds. unat a \<le> i \<and> i < unat a + 262144 then 255 else flash m i)"
    using erase_sections_run [of ?adds m] u unfolding adds by auto
  have sec: "(\<exists>a \<in> set ?adds. unat a \<le> i \<and> i < unat a + 262144) \<longleftrightarrow> i < fp_base" for i
  proof
    assume "i < fp_base"
    then have "i div 262144 < 16" by (simp add: less_mult_imp_div_less)
    moreover have "i div 262144 * 262144 \<le> i" "i < i div 262144 * 262144 + 262144"
      using div_mult_mod_eq [of i 262144] by (simp_all add: dividend_less_div_times add.commute)
    ultimately show "\<exists>a \<in> set ?adds. unat a \<le> i \<and> i < unat a + 262144"
      unfolding adds
      by (intro bexI [of _ "storage_addresses_payloads junk (int (i div 262144))"]) (auto simp: u)
  qed (unfold adds, use u in auto)
  have "erased (flash m') (sample_addr p i) (sample_size p)" if "i < 2 * per_section p" for p i
    using m'(3) sample_addr_bound [OF that] unfolding sec by (auto simp: erased_def)
  then show ?thesis using m' sec by (auto simp: storage_delete_memory_sections_def samples_stored_def)
qed

end

section \<open>Properties\<close>



end
