(* ===== verification/SqlStorage.thy ===== *)
theory SqlStorage
  imports FlightPlan
begin

text \<open>
  The storage driver of Linux (\<^verbatim>\<open>drivers/Linux/data_storage.c\<close>): it writes SQL statements into local
  arrays and gives them to SQLite (storage mode 1) or PostgreSQL (mode 2).  The two engines are
  parameters; the texts of the statements, the sizes of the arrays they are built in, the use of the
  results and the conversions between samples and texts are modelled.
\<close>

section \<open>Engines\<close>

text \<open>
  A row gives its columns as integers, as floats (their bits) and as texts.  \<open>sq_select\<close> is None when the
  statement cannot be prepared; \<open>pg_query\<close> is None when it fails and the rows otherwise.
\<close>

record sql_row =
  col_int :: "nat \<Rightarrow> int"
  col_float :: "nat \<Rightarrow> u32w"

record 'd sql_engine =
  sq_open :: "string \<Rightarrow> 'd \<Rightarrow> bool \<times> 'd"
  sq_close :: "'d \<Rightarrow> 'd"
  sq_exec :: "string \<Rightarrow> 'd \<Rightarrow> bool \<times> 'd"
  sq_select :: "string \<Rightarrow> 'd \<Rightarrow> sql_row option option"
  sq_get_table :: "string \<Rightarrow> 'd \<Rightarrow> string list list"
  pg_connect :: "string \<Rightarrow> 'd \<Rightarrow> bool \<times> 'd"
  pg_status :: "'d \<Rightarrow> bool"
  pg_exec :: "string \<Rightarrow> 'd \<Rightarrow> bool \<times> 'd"
  pg_query :: "string \<Rightarrow> 'd \<Rightarrow> string list list option"
  atof :: "string \<Rightarrow> u32w"

text \<open>The driver's state: whether \<^verbatim>\<open>db\<close> is open, and the state behind the engines.\<close>

record 'd sql_state =
  db_open :: bool
  engine :: 'd

text \<open>A statement on a NULL database has no defined effect.\<close>

definition sqlite_exec :: "'d sql_engine \<Rightarrow> string \<Rightarrow> 'd sql_state \<Rightarrow> (bool \<times> 'd sql_state) c_result" where
  "sqlite_exec q sql s =
     (if db_open s then let (ok, e) = sq_exec q sql (engine s) in Inr (ok, s\<lparr> engine := e \<rparr>) else Inl NullDeref)"

text \<open>The status most functions return for it.\<close>

definition sqlite_status :: "'d sql_engine \<Rightarrow> string \<Rightarrow> 'd sql_state \<Rightarrow> (int \<times> 'd sql_state) c_result" where
  "sqlite_status q sql s = c_bind (sqlite_exec q sql s) (\<lambda>(ok, s). Inr (if ok then 0 else -1, s))"

definition psql_exec :: "'d sql_engine \<Rightarrow> string \<Rightarrow> 'd sql_state \<Rightarrow> bool \<times> 'd sql_state" where
  "psql_exec q sql s = (let (ok, e) = pg_exec q sql (engine s) in (ok, s\<lparr> engine := e \<rparr>))"

definition dq :: string where "dq = [CHR 0x22]"

text \<open>\<^verbatim>\<open>sprintf\<close> into an array of \<open>n\<close> bytes.\<close>

definition fits :: "nat \<Rightarrow> string \<Rightarrow> string c_result" where
  "fits n text = (if length text < n then Inr text else Inl StackOverflow)"

definition strtol :: "string \<Rightarrow> int" where
  "strtol s = (case scan_num (dropWhile isspace s) of None \<Rightarrow> 0
     | Some (neg, m, _) \<Rightarrow> max (- (2 ^ 63)) (min (2 ^ 63 - 1) (if neg then - int m else int m)))"

definition atoi :: "string \<Rightarrow> int" where
  "atoi s = i32 (strtol s)"

text \<open>Column \<open>j\<close> of the first row of a result of PostgreSQL; NULL when there is none.\<close>

definition PQgetvalue :: "string list list \<Rightarrow> nat \<Rightarrow> string option" where
  "PQgetvalue res j = (case res of [] \<Rightarrow> None | r # _ \<Rightarrow> if j < length r then Some (r ! j) else None)"

section \<open>Opening and tables\<close>

definition fs_db_name :: string where "fs_db_name = ''fs_db_1''"

definition pg_conf :: "string \<Rightarrow> string" where
  "pg_conf name = ''user=pi dbname='' @ name"

definition sql_storage_init :: "sch_config \<Rightarrow> 'd sql_engine \<Rightarrow> string \<Rightarrow> 'd sql_state \<Rightarrow> (int \<times> 'd sql_state) c_result" where
  "sql_storage_init c q file s =
     (let s = (if db_open s then s\<lparr> engine := sq_close q (engine s) \<rparr> else s) in
      if storage_mode c = 1 then
        let (ok, e) = sq_open q file (engine s) in Inr (if ok then 0 else -1, s\<lparr> db_open := True, engine := e \<rparr>)
      else if storage_mode c = 2 then
        c_bind (fits 15 fs_db_name) (\<lambda>_. c_bind (fits 30 (pg_conf ''pi'')) (\<lambda>conf.
        let (ok, e) = pg_connect q conf (engine s) in
        if \<not> ok then Inr (-1, s\<lparr> engine := e \<rparr>)
        else c_bind (fits 100 (''SELECT datname FROM pg_database WHERE datname = '' @ [CHR 0x27] @ fs_db_name @ [CHR 0x27] @ '';'')) (\<lambda>sel.
        case pg_query q sel e of
          None \<Rightarrow> Inr (-1, s\<lparr> engine := e \<rparr>)
        | Some rows \<Rightarrow>
            c_bind (if rows = [] then c_bind (fits 100 (''CREATE DATABASE '' @ fs_db_name @ '';'')) (\<lambda>cr. Inr (pg_exec q cr e))
                    else Inr (True, e)) (\<lambda>(ok, e).
            if \<not> ok then Inr (-1, s\<lparr> engine := e \<rparr>)
            else c_bind (fits 30 (pg_conf fs_db_name)) (\<lambda>conf.
              let (ok, e) = pg_connect q conf e in Inr (if ok then 0 else -1, s\<lparr> engine := e \<rparr>))))))
      else Inr (0, s))"

text \<open>
  In mode 2 a failed statement clears its result twice.
\<close>

definition create_repo_text :: "string \<Rightarrow> string" where
  "create_repo_text table =
     ''CREATE TABLE IF NOT EXISTS '' @ table @ ''(idx INTEGER PRIMARY KEY, name TEXT UNIQUE, value INT);''"

definition sql_table_repo_init ::
  "sch_config \<Rightarrow> 'd sql_engine \<Rightarrow> string \<Rightarrow> int \<Rightarrow> 'd sql_state \<Rightarrow> (int \<times> 'd sql_state) c_result" where
  "sql_table_repo_init c q table drop_it s =
     (if storage_mode c = 1 then
        c_bind (if drop_it \<noteq> 0 then sqlite_exec q (''DROP TABLE '' @ table) s else Inr (True, s)) (\<lambda>(ok, s).
        if ok then sqlite_status q (create_repo_text table) s else Inr (-1, s))
      else if storage_mode c = 2 then
        if \<not> pg_status q (engine s) then Inr (-1, s)
        else c_bind (fits 100 (create_repo_text table)) (\<lambda>sql.
          let (ok, s) = psql_exec q sql s in if ok then Inr (0, s) else Inl UseAfterFree)
      else Inl Uninitialised)"

definition fp_table :: string where "fp_table = ''flightPlan''"

definition fp_drop_text :: string where
  "fp_drop_text = ''DROP TABLE IF EXISTS '' @ fp_table"

definition fp_create_text :: string where
  "fp_create_text = ''CREATE TABLE IF NOT EXISTS '' @ fp_table @
     ''(time int PRIMARY KEY , command text, args text , executions int , periodical int );''"

definition sql_table_flight_plan_init ::
  "sch_config \<Rightarrow> 'd sql_engine \<Rightarrow> int \<Rightarrow> 'd sql_state \<Rightarrow> (int \<times> 'd sql_state) c_result" where
  "sql_table_flight_plan_init c q drop_it s =
     (if storage_mode c = 1 then
        c_bind (if drop_it \<noteq> 0 then sqlite_exec q fp_drop_text s else Inr (True, s)) (\<lambda>(ok, s).
        if ok then sqlite_status q fp_create_text s else Inr (-1, s))
      else Inr (0, s))"

definition get_sql_type :: "string \<Rightarrow> string" where
  "get_sql_type c_type = (if c_type = ''%f'' then ''REAL'' else if c_type = ''%d'' then ''INTEGER''
     else if c_type = ''%u'' then ''BIGINT'' else ''TEXT'')"

definition get_sizeof_type :: "string \<Rightarrow> int" where
  "get_sizeof_type c_type = (if c_type = ''%f'' \<or> c_type = ''%d'' \<or> c_type = ''%u'' then 4 else -1)"

text \<open>
  The tokens of a payload, one pair per variable; a variable without a symbol reads a NULL token.
\<close>

definition get_payloads_tokens :: "payload_id \<Rightarrow> (string option \<times> string) list" where
  "get_payloads_tokens payload =
     (let tok_sym = strtok_all (CHR '' '') (dm_order (data_map payload));
          tok_var = strtok_all (CHR '' '') (dm_var_names (data_map payload))
      in map (\<lambda>j. (if j < length tok_sym then Some (tok_sym ! j) else None, tok_var ! j)) [0..<length tok_var])"

fun commas :: "string list \<Rightarrow> string" where
  "commas [] = []"
| "commas [x] = x"
| "commas (x # y # xs) = x @ '','' @ commas (y # xs)"

definition column_text :: "string option \<times> string \<Rightarrow> string c_result" where
  "column_text t =
     (case fst t of None \<Rightarrow> Inl NullDeref | Some ty \<Rightarrow> fits 100 (snd t @ '' '' @ get_sql_type ty))"

definition create_payload_table :: "payload_id \<Rightarrow> string c_result" where
  "create_payload_table payload =
     c_bind (c_mapM column_text (get_payloads_tokens payload)) (\<lambda>cols.
       fits 300 (''CREATE TABLE IF NOT EXISTS '' @ dm_table (data_map payload) @ ''(id INTEGER, tstz TIMESTAMPTZ,'' @
         commas cols @ '')''))"

text \<open>The tables of all payloads; a statement that fails is logged and the next one is tried.\<close>

fun create_payload_tables ::
  "sch_config \<Rightarrow> 'd sql_engine \<Rightarrow> payload_id list \<Rightarrow> 'd sql_state \<Rightarrow> 'd sql_state c_result" where
  "create_payload_tables c q [] s = Inr s"
| "create_payload_tables c q (p # ps) s =
     c_bind (create_payload_table p) (\<lambda>sql.
     c_bind (if storage_mode c = 1 then sqlite_exec q sql s
             else if storage_mode c = 2 then Inr (psql_exec q sql s) else Inr (True, s)) (\<lambda>(ok, s).
       create_payload_tables c q ps s))"

definition sql_table_payload_init ::
  "sch_config \<Rightarrow> 'd sql_engine \<Rightarrow> int \<Rightarrow> 'd sql_state \<Rightarrow> (int \<times> 'd sql_state) c_result" where
  "sql_table_payload_init c q drop_it s =
     (if storage_mode c > 0 then c_bind (create_payload_tables c q payload_all s) (\<lambda>s. Inr (0, s)) else Inr (0, s))"

section \<open>Values\<close>

text \<open>The first row of a SELECT: None inside when there is no row, outside when it cannot be prepared.\<close>

definition sqlite_select :: "'d sql_engine \<Rightarrow> string \<Rightarrow> 'd sql_state \<Rightarrow> sql_row option option c_result" where
  "sqlite_select q sql s = (if db_open s then Inr (sq_select q sql (engine s)) else Inl NullDeref)"

definition sqlite_int :: "'d sql_engine \<Rightarrow> string \<Rightarrow> 'd sql_state \<Rightarrow> int c_result" where
  "sqlite_int q sql s =
     c_bind (sqlite_select q sql s) (\<lambda>r.
       Inr (case r of Some (Some row) \<Rightarrow> col_int row 0 | _ \<Rightarrow> -1))"

definition select_value_text :: "string \<Rightarrow> int \<Rightarrow> string" where
  "select_value_text table index = ''SELECT value FROM '' @ table @ '' WHERE idx='' @ dq @ show_int index @ dq @ '';''"

definition sql_repo_get_value_idx ::
  "sch_config \<Rightarrow> 'd sql_engine \<Rightarrow> int \<Rightarrow> string \<Rightarrow> 'd sql_state \<Rightarrow> int c_result" where
  "sql_repo_get_value_idx c q index table s =
     (if storage_mode c = 1 then sqlite_int q (select_value_text table index) s
      else if storage_mode c = 2 then
        c_bind (fits 100 (''SELECT value FROM '' @ table @ '' WHERE idx='' @ show_int index @ '';'')) (\<lambda>sql.
        case pg_query q sql (engine s) of
          None \<Rightarrow> Inr (-1)
        | Some res \<Rightarrow> Inr (case PQgetvalue res 0 of None \<Rightarrow> -1 | Some t \<Rightarrow> atoi t))
      else Inr (-1))"

text \<open>By name: in mode 2 a name that is not in the table gives \<^verbatim>\<open>atoi\<close> a NULL.\<close>

definition sql_repo_get_value_str ::
  "sch_config \<Rightarrow> 'd sql_engine \<Rightarrow> string \<Rightarrow> string \<Rightarrow> 'd sql_state \<Rightarrow> int c_result" where
  "sql_repo_get_value_str c q name table s =
     (let sql = ''SELECT value FROM '' @ table @ '' WHERE name='' @ dq @ name @ dq @ '';'' in
      if storage_mode c = 1 then sqlite_int q sql s
      else if storage_mode c = 2 then
        c_bind (fits 100 sql) (\<lambda>sql.
        case pg_query q sql (engine s) of
          None \<Rightarrow> Inr (-1)
        | Some res \<Rightarrow> (case PQgetvalue res 0 of None \<Rightarrow> Inl NullDeref | Some t \<Rightarrow> Inr (atoi t)))
      else Inr (-1))"

definition insert_value_text :: "string \<Rightarrow> int \<Rightarrow> int \<Rightarrow> string" where
  "insert_value_text table index v =
     ''INSERT OR REPLACE INTO '' @ table @ '' (idx, name, value) VALUES ('' @ show_int index @
     '', (SELECT name FROM '' @ table @ '' WHERE idx = '' @ dq @ show_int index @ dq @ ''), '' @ show_int v @ '');''"

definition sql_repo_set_value_idx ::
  "sch_config \<Rightarrow> 'd sql_engine \<Rightarrow> int \<Rightarrow> int \<Rightarrow> string \<Rightarrow> 'd sql_state \<Rightarrow> (int \<times> 'd sql_state) c_result" where
  "sql_repo_set_value_idx c q index v table s =
     (if storage_mode c = 1 then sqlite_status q (insert_value_text table index v) s
      else if storage_mode c = 2 then
        c_bind (fits 200 (''INSERT INTO '' @ table @ '' (idx, value) VALUES ('' @ show_int index @ '', '' @ show_int v @
          '') ON CONFLICT (idx) DO UPDATE SET value = '' @ show_int v @ ''; '')) (\<lambda>sql.
        let (ok, s) = psql_exec q sql s in Inr (if ok then 0 else -1, s))
      else Inr (0, s))"

text \<open>By name, always through SQLite, and with the new name outside the quotes.\<close>

definition sql_repo_set_value_str ::
  "'d sql_engine \<Rightarrow> string \<Rightarrow> int \<Rightarrow> string \<Rightarrow> 'd sql_state \<Rightarrow> (int \<times> 'd sql_state) c_result" where
  "sql_repo_set_value_str q name v table s =
     sqlite_status q (''INSERT OR REPLACE INTO '' @ table @ '' (idx, name, value) VALUES ((SELECT idx FROM '' @ table @
       '' WHERE name = '' @ dq @ name @ dq @ ''), '' @ name @ '', '' @ show_int v @ '');'') s"

section \<open>The flight plan\<close>

text \<open>The flight plan is kept through SQLite in every mode.\<close>

definition fp_insert_text :: "int \<Rightarrow> string \<Rightarrow> string \<Rightarrow> int \<Rightarrow> int \<Rightarrow> string" where
  "fp_insert_text timetodo command args ex per =
     ''INSERT OR REPLACE INTO '' @ fp_table @ '' (time, command, args, executions, periodical)'' @ [CHR 0x0A] @
     '' VALUES ('' @ show_int timetodo @ '', '' @ dq @ command @ dq @ '', '' @ dq @ args @ dq @ '', '' @
     show_int ex @ '', '' @ show_int per @ '');''"

definition sql_flight_plan_set ::
  "'d sql_engine \<Rightarrow> int \<Rightarrow> string \<Rightarrow> string \<Rightarrow> int \<Rightarrow> int \<Rightarrow> 'd sql_state \<Rightarrow> (int \<times> 'd sql_state) c_result" where
  "sql_flight_plan_set q timetodo command args ex per s = sqlite_status q (fp_insert_text timetodo command args ex per) s"

definition fp_delete_text :: "int \<Rightarrow> string" where
  "fp_delete_text timetodo = ''DELETE FROM '' @ fp_table @ [CHR 0x0A] @ '' WHERE time = '' @ show_int timetodo"

definition sql_flight_plan_erase ::
  "'d sql_engine \<Rightarrow> int \<Rightarrow> 'd sql_state \<Rightarrow> (int \<times> 'd sql_state) c_result" where
  "sql_flight_plan_erase q timetodo s = sqlite_status q (fp_delete_text timetodo) s"

definition fp_select_text :: "int \<Rightarrow> string" where
  "fp_select_text timetodo = ''SELECT * FROM '' @ fp_table @ '' WHERE time = '' @ show_int timetodo"

text \<open>
  The entry at a time, which is taken out; a periodic one is put back one period later.  \<open>cap\<close> is the
  size of the caller's arrays.
\<close>

definition sql_flight_plan_get ::
  "'d sql_engine \<Rightarrow> nat \<Rightarrow> int \<Rightarrow> 'd sql_state \<Rightarrow>
     (int \<times> (string \<times> string \<times> int \<times> int) option \<times> 'd sql_state) c_result" where
  "sql_flight_plan_get q cap timetodo s =
     (if \<not> db_open s then Inl NullDeref
      else case sq_get_table q (fp_select_text timetodo) (engine s) of
        [] \<Rightarrow> Inr (-1, None, s)
      | [] # _ \<Rightarrow> Inr (-1, None, s)
      | (_ # command # args # ex_text # per_text # _) # _ \<Rightarrow>
          c_bind (fits cap command) (\<lambda>command. c_bind (fits cap args) (\<lambda>args.
          let ex = atoi ex_text; per = atoi per_text in
          c_bind (sql_flight_plan_erase q timetodo s) (\<lambda>(_, s).
          c_bind (if per > 0 then sql_flight_plan_set q (i32 (timetodo + per)) command args ex per s
                  else Inr (0, s)) (\<lambda>(_, s).
            Inr (0, Some (command, args, ex, per), s)))))
      | _ \<Rightarrow> Inl OutOfBounds)"

definition sql_flight_plan_reset ::
  "sch_config \<Rightarrow> 'd sql_engine \<Rightarrow> 'd sql_state \<Rightarrow> (int \<times> 'd sql_state) c_result" where
  "sql_flight_plan_reset c q s = sql_table_flight_plan_init c q 1 s"

text \<open>What \<^verbatim>\<open>storage_show_table\<close> prints below the names of the columns.\<close>

definition sql_show_table :: "'d sql_engine \<Rightarrow> 'd sql_state \<Rightarrow> (int \<times> string list list) c_result" where
  "sql_show_table q s =
     (if db_open s then Inr (0, sq_get_table q (''SELECT * FROM '' @ fp_table) (engine s)) else Inl NullDeref)"

text \<open>The flight plan of the driver as the data repository calls it.\<close>

definition on_ext :: "('x \<Rightarrow> (int \<times> 'x) c_result) \<Rightarrow> 'x dat_state \<Rightarrow> (int \<times> 'x dat_state) c_result" where
  "on_ext op s = c_bind (op (ext s)) (\<lambda>(rc, x). Inr (rc, s\<lparr> ext := x \<rparr>))"

definition sql_fp_driver :: "sch_config \<Rightarrow> 'd sql_engine \<Rightarrow> 'd sql_state fp_driver" where
  "sql_fp_driver c q = \<lparr>
     fd_get = (\<lambda>cap t s. c_bind (sql_flight_plan_get q cap t (ext s)) (\<lambda>(rc, due, x). Inr (rc, due, s\<lparr> ext := x \<rparr>))),
     fd_set = (\<lambda>t command args exec peri s. on_ext (sql_flight_plan_set q t command args exec peri) s),
     fd_erase = (\<lambda>t s. on_ext (sql_flight_plan_erase q t) s),
     fd_init = (\<lambda>d s. on_ext (sql_table_flight_plan_init c q d) s),
     fd_show = (\<lambda>s. c_bind (sql_show_table q (ext s)) (\<lambda>(rc, rows). Inr rc)) \<rparr>"

section \<open>Samples\<close>

text \<open>
  \<^verbatim>\<open>%f\<close> of the float with pattern \<open>b\<close>: its exact value with six decimals, ties to even.
\<close>

definition round_shift :: "nat \<Rightarrow> nat \<Rightarrow> nat" where
  "round_shift a k =
     (let q = a div 2 ^ k; r = a mod 2 ^ k in
      if 2 ^ k < 2 * r \<or> (2 ^ k = 2 * r \<and> odd q) then q + 1 else q)"

definition f32_exponent :: "nat \<Rightarrow> nat" where
  "f32_exponent b = (b div 2 ^ 23) mod 256"

definition f32_micros :: "nat \<Rightarrow> nat" where
  "f32_micros b =
     (let e = f32_exponent b; f = b mod 2 ^ 23;
          m = (if e = 0 then f else f + 2 ^ 23); e1 = (if e = 0 then 1 else e)
      in if 150 \<le> e1 then m * 10 ^ 6 * 2 ^ (e1 - 150) else round_shift (m * 10 ^ 6) (150 - e1))"

definition f32_text :: "nat \<Rightarrow> string" where
  "f32_text b =
     (if (b div 2 ^ 31) mod 2 = 1 then ''-'' else []) @
     (if f32_exponent b = 255 then (if b mod 2 ^ 23 = 0 then ''inf'' else ''nan'')
      else show_nat (f32_micros b div 10 ^ 6) @ ''.'' @
        map (\<lambda>k. digit_char (f32_micros b div 10 ^ k mod 10)) [5, 4, 3, 2, 1, 0])"

definition get_value_string :: "string \<Rightarrow> u8 list \<Rightarrow> string" where
  "get_value_string c_type buff =
     (if c_type = ''%f'' then '' '' @ f32_text (le_nat buff)
      else if c_type = ''%d'' then '' '' @ show_int (i32 (int (le_nat buff)))
      else '' '' @ show_nat (le_nat buff))"

text \<open>
  One round of the loop of \<^verbatim>\<open>storage_set_payload_data\<close>: the name and the value that are appended.  The
  types of \<^verbatim>\<open>data_map\<close> are \<^verbatim>\<open>%u\<close>, \<^verbatim>\<open>%d\<close> and \<^verbatim>\<open>%f\<close>; the copy reads beyond a sample that is too short.
\<close>

definition insert_field :: "u8 list \<Rightarrow> nat \<times> string option \<times> string \<Rightarrow> (string \<times> string) c_result" where
  "insert_field data t =
     (case t of (j, ty, var) \<Rightarrow>
        case ty of None \<Rightarrow> Inl NullDeref
        | Some ty \<Rightarrow>
            let param_size = nat (get_sizeof_type ty) in
            if get_sizeof_type ty < 0 \<or> length data < j * param_size + param_size then Inl OutOfBounds
            else let buff = take param_size (drop (j * param_size) data) in
              c_bind (fits 20 ('' '' @ var)) (\<lambda>name.
              c_bind (fits 20 (get_value_string ty buff)) (\<lambda>val. Inr (name, val))))"

definition insert_row :: "int \<Rightarrow> u8 list \<Rightarrow> payload_id \<Rightarrow> string c_result" where
  "insert_row index data payload =
     c_bind (c_mapM (insert_field data) (enumerate 0 (get_payloads_tokens payload))) (\<lambda>fs.
     c_bind (fits 500 (''(id, tstz,'' @ commas (map fst fs) @ '')'')) (\<lambda>names.
     c_bind (fits 500 (''('' @ show_int index @ '', current_timestamp,'' @ commas (map snd fs) @ '')'')) (\<lambda>values.
       fits 200 (''INSERT INTO '' @ dm_table (data_map payload) @ '' '' @ names @ '' VALUES '' @ values))))"

definition sql_set_payload_data ::
  "sch_config \<Rightarrow> 'd sql_engine \<Rightarrow> int \<Rightarrow> u8 list \<Rightarrow> int \<Rightarrow> 'd sql_state \<Rightarrow> (int \<times> 'd sql_state) c_result" where
  "sql_set_payload_data c q index data payload s =
     (if payload \<ge> int last_sensor then Inr (-1, s)
      else if storage_mode c > 0 then
        (case payload_of payload of None \<Rightarrow> Inl OutOfBounds
         | Some p \<Rightarrow> c_bind (insert_row index data p) (\<lambda>sql.
             if storage_mode c = 1 then sqlite_status q sql s
             else if storage_mode c = 2 then let (ok, s) = psql_exec q sql s in Inr (if ok then 0 else -1, s)
             else Inr (0, s)))
      else Inr (0, s))"

definition select_sample_text :: "int \<Rightarrow> payload_id \<Rightarrow> string c_result" where
  "select_sample_text index payload =
     c_bind (c_mapM (\<lambda>t. fits 20 ('' '' @ snd t)) (get_payloads_tokens payload)) (\<lambda>names.
     c_bind (fits 500 (commas names)) (\<lambda>names.
       fits 200 (''SELECT '' @ names @ '' FROM '' @ dm_table (data_map payload) @ '' WHERE id='' @
         show_int index @ '' LIMIT 1'')))"

definition get_sqlite_value :: "string \<Rightarrow> sql_row \<Rightarrow> nat \<Rightarrow> u32w" where
  "get_sqlite_value c_type row j =
     (if c_type = ''%f'' then col_float row j else word_of_int (col_int row j))"

definition get_psql_value :: "'d sql_engine \<Rightarrow> string \<Rightarrow> string list list \<Rightarrow> nat \<Rightarrow> u32w c_result" where
  "get_psql_value q c_type res j =
     (case PQgetvalue res j of None \<Rightarrow> Inl NullDeref
      | Some t \<Rightarrow> Inr (if c_type = ''%f'' then atof q t
                    else if c_type = ''%d'' then word_of_int (atoi t) else word_of_int (strtol t)))"

text \<open>
  The bytes written, four for each variable; none, and still status 0, when SQLite has no row.
\<close>

definition sample_bytes ::
  "(string \<Rightarrow> nat \<Rightarrow> u32w c_result) \<Rightarrow> (string option \<times> string) list \<Rightarrow> u8 list c_result" where
  "sample_bytes val toks =
     c_bind (c_mapM (\<lambda>(j, ty, var). case ty of None \<Rightarrow> Inl NullDeref
               | Some ty \<Rightarrow> if get_sizeof_type ty < 0 then Inl OutOfBounds
                           else c_bind (val ty j) (\<lambda>w. Inr (le_bytes 4 (unat w)))) (enumerate 0 toks)) (\<lambda>bs. Inr (concat bs))"

definition sql_get_payload_data ::
  "sch_config \<Rightarrow> 'd sql_engine \<Rightarrow> int \<Rightarrow> payload_id \<Rightarrow> 'd sql_state \<Rightarrow> (int \<times> u8 list) c_result" where
  "sql_get_payload_data c q index payload s =
     (if storage_mode c > 0 then
        c_bind (select_sample_text index payload) (\<lambda>sql.
        if storage_mode c = 1 then
          c_bind (sqlite_select q sql s) (\<lambda>r.
            case r of None \<Rightarrow> Inr (-1, [])
            | Some None \<Rightarrow> Inr (0, [])
            | Some (Some row) \<Rightarrow>
                c_bind (sample_bytes (\<lambda>ty j. Inr (get_sqlite_value ty row j)) (get_payloads_tokens payload))
                  (\<lambda>bs. Inr (0, bs)))
        else if storage_mode c = 2 then
          (case pg_query q sql (engine s) of None \<Rightarrow> Inr (-1, [])
           | Some res \<Rightarrow> c_bind (sample_bytes (\<lambda>ty j. get_psql_value q ty res j) (get_payloads_tokens payload))
                          (\<lambda>bs. Inr (0, bs)))
        else Inr (0, []))
      else Inr (0, []))"

definition sql_close :: "'d sql_engine \<Rightarrow> 'd sql_state \<Rightarrow> int \<times> 'd sql_state" where
  "sql_close q s = (if db_open s then (0, s\<lparr> db_open := False, engine := sq_close q (engine s) \<rparr>) else (-1, s))"

section \<open>Lengths of the texts\<close>

lemma tokens_gps: "get_payloads_tokens gps_sensors =
  [(Some ''%u'', ''timestamp''), (Some ''%f'', ''latitude''), (Some ''%f'', ''longitude''), (Some ''%f'', ''height''),
   (Some ''%f'', ''velocity_x''), (Some ''%f'', ''velocity_y''), (Some ''%d'', ''satellites_number''), (Some ''%d'', ''mode'')]"
  by code_simp

lemma tokens_dpl: "get_payloads_tokens dpl_sensors = [(Some ''%u'', ''timestamp''), (Some ''%d'', ''port_status'')]"
  by code_simp

lemma fits_Inr [simp]: "fits n t = Inr u \<longleftrightarrow> u = t \<and> length t < n"
  by (auto simp: fits_def)

lemma show_nat_length_pos: "1 \<le> length (show_nat n)"
  by (simp add: Suc_le_eq)

lemma show_int_length_pos: "1 \<le> length (show_int i)"
  by (simp add: show_int_def Suc_le_eq)

lemma show_nat_length: "0 < k \<Longrightarrow> n < 10 ^ k \<Longrightarrow> length (show_nat n) \<le> k"
proof (induction n arbitrary: k rule: show_nat.induct)
  case (1 n)
  show ?case
  proof (cases "n < 10")
    case True
    then show ?thesis using 1(2) by (simp add: show_nat.simps [of n])
  next
    case False
    then obtain m where k: "k = Suc m" "0 < m" using 1(2,3) by (cases k; cases "k - 1") auto
    have "n div 10 < 10 ^ m" using 1(3) k by (simp add: less_mult_imp_div_less)
    then show ?thesis using 1(1) [of m] False k by (simp add: show_nat.simps [of n])
  qed
qed

lemma show_int_length:
  assumes "in_i32 i"
  shows "length (show_int i) \<le> 11"
proof -
  have "nat \<bar>i\<bar> < 10 ^ 10" using assms by (auto simp: in_i32_def)
  then have "length (show_nat (nat \<bar>i\<bar>)) \<le> 10" using show_nat_length [of 10] by simp
  then show ?thesis by (cases "i < 0") (simp_all add: show_int_def)
qed

lemma finite_text_length: "f32_exponent b \<noteq> 255 \<Longrightarrow> 8 \<le> length (f32_text b)"
  using show_nat_length_pos [of "f32_micros b div 10 ^ 6"] by (simp add: f32_text_def)

lemma value_text_length: "2 \<le> length (get_value_string ty buff)"
  using show_nat_length_pos [of "le_nat buff"] show_int_length_pos [of "i32 (int (le_nat buff))"]
    show_nat_length_pos [of "f32_micros (le_nat buff) div 10 ^ 6"]
  by (auto simp: get_value_string_def f32_text_def)

text \<open>The four bytes of field \<open>j\<close> of a sample, as a number.\<close>

definition sample_field :: "u8 list \<Rightarrow> nat \<Rightarrow> nat" where
  "sample_field data j = le_nat (take 4 (drop (4 * j) data))"

definition field_texts :: "u8 list \<Rightarrow> nat \<times> string option \<times> string \<Rightarrow> string \<times> string" where
  "field_texts data = (\<lambda>(j, ty, var). ('' '' @ var, get_value_string (the ty) (take 4 (drop (4 * j) data))))"

lemma insert_field_texts:
  assumes "get_sizeof_type ty = 4" "4 * j + 4 \<le> length data" "length var < 19"
  shows "insert_field data (j, Some ty, var) =
    (if length (snd (field_texts data (j, Some ty, var))) < 20 then Inr (field_texts data (j, Some ty, var))
     else Inl StackOverflow)"
  using assms by (simp add: insert_field_def field_texts_def Let_def mult.commute fits_def)

lemma insert_field_or:
  "get_sizeof_type ty = 4 \<Longrightarrow> 4 * j + 4 \<le> length data \<Longrightarrow> length var < 19 \<Longrightarrow>
   insert_field data (j, Some ty, var) \<noteq> Inl StackOverflow \<Longrightarrow>
   insert_field data (j, Some ty, var) = Inr (field_texts data (j, Some ty, var))"
  by (simp add: insert_field_texts split: if_splits)

lemma c_mapM_or:
  assumes "\<And>x. x \<in> set xs \<Longrightarrow> f x = Inr (g x) \<or> f x = Inl e"
  shows "c_mapM f xs = Inr (map g xs) \<or> c_mapM f xs = Inl e"
  using assms
proof (induction xs)
  case (Cons x xs)
  then have "f x = Inr (g x) \<or> f x = Inl e" "c_mapM f xs = Inr (map g xs) \<or> c_mapM f xs = Inl e" by simp_all
  then show ?case by auto
qed simp

lemma gps_fields:
  assumes "length data = 32"
  shows "c_mapM (insert_field data) (enumerate 0 (get_payloads_tokens gps_sensors)) =
      Inr (map (field_texts data) (enumerate 0 (get_payloads_tokens gps_sensors))) \<or>
    c_mapM (insert_field data) (enumerate 0 (get_payloads_tokens gps_sensors)) = Inl StackOverflow"
  by (rule c_mapM_or) (use assms in \<open>auto simp: tokens_gps get_sizeof_type_def intro!: insert_field_or\<close>)

lemma gps_values_long:
  assumes "\<And>j. j \<in> {1, 2, 3, 4, 5} \<Longrightarrow> f32_exponent (sample_field data j) \<noteq> 255"
  shows "58 \<le> length (commas (map snd (map (field_texts data) (enumerate 0 (get_payloads_tokens gps_sensors)))))"
proof -
  have f: "9 \<le> length (get_value_string ''%f'' (take 4 (drop (4 * j) data)))" if "j \<in> {1, 2, 3, 4, 5}" for j
    using finite_text_length [OF assms, OF that] by (simp add: get_value_string_def sample_field_def)
  show ?thesis
    using f [of 1] f [of 2] f [of 3] f [of 4] f [of 5] value_text_length [of "''%u''" "take 4 data"]
      value_text_length [of "''%d''" "take 4 (drop 24 data)"] value_text_length [of "''%d''" "take 4 (drop 28 data)"]
    by (simp add: tokens_gps field_texts_def)
qed

lemma gps_row_overruns:
  assumes "length data = 32" "\<And>j. j \<in> {1, 2, 3, 4, 5} \<Longrightarrow> f32_exponent (sample_field data j) \<noteq> 255"
  shows "insert_row index data gps_sensors = Inl StackOverflow"
proof -
  let ?t = "enumerate 0 (get_payloads_tokens gps_sensors)"
  let ?v = "commas (map snd (map (field_texts data) ?t))"
  have names: "commas (map fst (map (field_texts data) ?t)) =
    '' timestamp, latitude, longitude, height, velocity_x, velocity_y, satellites_number, mode''"
    by (simp add: tokens_gps field_texts_def)
  have "\<not> length (''INSERT INTO gps_data (id, tstz,'' @ commas (map fst (map (field_texts data) ?t)) @ '') VALUES ('' @
      show_int index @ '', current_timestamp,'' @ ?v @ '')'') < 200"
    unfolding names using gps_values_long [OF assms(2)] show_int_length_pos [of index] by simp
  then show ?thesis using gps_fields [OF assms(1)] names by (auto simp: insert_row_def fits_def)
qed

lemma le_nat_less: "le_nat b < 256 ^ length b"
proof (induction b)
  case (Cons x b)
  have "unat x < 256" using unsigned_less [of x, where 'a = nat] by simp
  moreover have "le_nat (x # b) = unat x + 256 * le_nat b" by (simp add: le_nat_def)
  ultimately show ?case using Cons by simp
qed (simp add: le_nat_def)

lemma le_nat_zeros [simp]: "le_nat (replicate n 0) = 0"
  by (induction n) (simp_all add: le_nat_def)

lemma int_text_length:
  assumes "length b = 4" "ty = ''%d'' \<or> ty = ''%u''"
  shows "length (get_value_string ty b) \<le> 12"
  using le_nat_less [of b] assms show_int_length [of "i32 (int (le_nat b))"] show_nat_length [of 10 "le_nat b"]
  by (auto simp: get_value_string_def)

lemma dpl_row_fits:
  assumes "length data = 8" "in_i32 index"
  shows "\<exists>sql. insert_row index data dpl_sensors = Inr sql \<and> length sql < 200"
proof -
  let ?t = "enumerate 0 (get_payloads_tokens dpl_sensors)"
  let ?u = "get_value_string ''%u'' (take 4 data)"
  let ?d = "get_value_string ''%d'' (take 4 (drop 4 data))"
  have l: "length ?u \<le> 12" "length ?d \<le> 12" "length (show_int index) \<le> 11"
    using int_text_length [of "take 4 data" "''%u''"] int_text_length [of "take 4 (drop 4 data)" "''%d''"]
      show_int_length [OF assms(2)] assms(1) by simp_all
  have "c_mapM (insert_field data) ?t = Inr (map (field_texts data) ?t)"
    by (rule c_mapM_Inr) (use assms l in \<open>auto simp: tokens_dpl get_sizeof_type_def insert_field_texts field_texts_def\<close>)
  then show ?thesis using l by (simp add: insert_row_def fits_def tokens_dpl field_texts_def)
qed

section \<open>The repository over SQLite\<close>

definition dat_repo_system :: string where "dat_repo_system = ''dat_system''"

text \<open>
  The driver as the data repository calls it.  The repository has no branch for a run that ends in a
  fault, so such a run is shown here as a failure that changes nothing; the theorems below are about
  calls that are proved not to fault.
\<close>

definition no_fault :: "'a \<Rightarrow> 'a c_result \<Rightarrow> 'a" where
  "no_fault a r = (case r of Inl _ \<Rightarrow> a | Inr x \<Rightarrow> x)"

lemma no_fault_simps [simp]: "no_fault a (Inr x) = x" "no_fault a (Inl e) = a"
  by (simp_all add: no_fault_def)

definition linux_storage :: "sch_config \<Rightarrow> 'd sql_engine \<Rightarrow> string \<Rightarrow> 'd sql_state storage" where
  "linux_storage c q file = \<lparr>
     st_init = (\<lambda>x. no_fault (-1, x) (sql_storage_init c q file x)),
     st_table_repo_init = (\<lambda>d x. no_fault (-1, x) (sql_table_repo_init c q dat_repo_system d x)),
     st_table_payload_init = (\<lambda>d x. no_fault (-1, x) (sql_table_payload_init c q d x)),
     st_table_flight_plan_init = (\<lambda>d x. no_fault (-1, x) (sql_table_flight_plan_init c q d x)),
     st_repo_get_value_idx = (\<lambda>i x. no_fault (-1) (sql_repo_get_value_idx c q i dat_repo_system x)),
     st_repo_set_value_idx = (\<lambda>i v x. no_fault (-1, x) (sql_repo_set_value_idx c q i v dat_repo_system x)),
     st_set_payload_data = (\<lambda>i b p x. no_fault (-1, x) (sql_set_payload_data c q i b (int (payload_idx p)) x)),
     st_get_payload_data = (\<lambda>i p x. no_fault (-1, []) (sql_get_payload_data c q i p x)),
     st_delete_memory_sections = (\<lambda>x. (0, x)),
     st_flight_plan_reset = (\<lambda>x. no_fault (-1, x) (sql_flight_plan_reset c q x)),
     st_close = (\<lambda>x. sql_close q x) \<rparr>"

text \<open>
  What SQLite promises of the table of the status variables: \<open>created\<close> says that it exists and \<open>cell\<close>
  gives the value at an index, None where there is no row.
\<close>

definition sql_ready :: "('d \<Rightarrow> bool) \<Rightarrow> 'd sql_state \<Rightarrow> bool" where
  "sql_ready created x \<longleftrightarrow> db_open x \<and> created (engine x)"

locale sql_values =
  fixes q :: "'d sql_engine" and created :: "'d \<Rightarrow> bool" and cell :: "'d \<Rightarrow> int \<Rightarrow> int option"
  assumes create: "fst (sq_exec q (create_repo_text dat_repo_system) d)"
      "created (snd (sq_exec q (create_repo_text dat_repo_system) d))"
      "cell (snd (sq_exec q (create_repo_text dat_repo_system) d)) = (if created d then cell d else Map.empty)"
    and insert: "created d \<Longrightarrow> in_i32 i \<Longrightarrow> in_i32 v \<Longrightarrow>
      sq_exec q (insert_value_text dat_repo_system i v) d = (b, d') \<Longrightarrow> b \<and> created d' \<and> cell d' = (cell d)(i \<mapsto> v)"
    and select: "created d \<Longrightarrow> in_i32 i \<Longrightarrow>
      sq_select q (select_value_text dat_repo_system i) d = r \<Longrightarrow>
      r \<noteq> None \<and> map_option (\<lambda>row. col_int row 0) (the r) = cell d i"
begin

lemma set_value:
  assumes "storage_mode c = 1" "sql_ready created x" "in_i32 i" "in_i32 v"
  shows "\<exists>x'. sql_repo_set_value_idx c q i v dat_repo_system x = Inr (0, x') \<and> sql_ready created x' \<and>
    cell (engine x') = (cell (engine x))(i \<mapsto> v)"
  using insert [of "engine x" i v] assms
  by (auto simp: sql_repo_set_value_idx_def sqlite_status_def sqlite_exec_def sql_ready_def split: prod.splits)

lemma get_value:
  assumes "storage_mode c = 1" "sql_ready created x" "in_i32 i"
  shows "sql_repo_get_value_idx c q i dat_repo_system x =
    Inr (case cell (engine x) i of None \<Rightarrow> -1 | Some v \<Rightarrow> v)"
  using select [of "engine x" i] assms
  by (auto simp: sql_repo_get_value_idx_def sqlite_int_def sqlite_select_def sql_ready_def split: option.splits)

lemma linux_value_store:
  assumes "storage_mode c = 1"
  shows "value_store (linux_storage c q file) (sql_ready created)"
proof -
  have i: "in_i32 (int i)" if "i < 171" for i using that by (simp add: in_i32_def)
  have "sql_ready created x' \<and> (\<forall>j < 171. st_repo_get_value_idx (linux_storage c q file) (int j) x' =
      (if j = i then v else st_repo_get_value_idx (linux_storage c q file) (int j) x))"
    if "sql_ready created x" "i < 171" "in_i32 v" "x' = snd (st_repo_set_value_idx (linux_storage c q file) (int i) v x)" for x i v x'
  proof -
    note pre = that
    obtain y where y: "sql_repo_set_value_idx c q (int i) v dat_repo_system x = Inr (0, y)" "sql_ready created y"
      "cell (engine y) = (cell (engine x))(int i \<mapsto> v)"
      using set_value [OF assms pre(1) i [OF pre(2)] pre(3)] by blast
    have "x' = y" using that(4) y(1) by (simp add: linux_storage_def)
    then show ?thesis using y that(1) get_value [OF assms] i by (simp add: linux_storage_def)
  qed
  then show ?thesis by (simp add: value_store_def)
qed

lemma linux_dat_inv: "storage_mode c = 1 \<Longrightarrow> sql_ready created (ext s) \<Longrightarrow> dat_inv c (linux_storage c q file) s"
  using linux_value_store by (auto simp: dat_inv_def)

end

text \<open>A table in memory that reads the statements of the driver back with \<^verbatim>\<open>sscanf\<close>.\<close>

type_synonym sim_table = "(int \<Rightarrow> int option) option"

definition sim_insert_fmt :: string where
  "sim_insert_fmt = ''INSERT OR REPLACE INTO dat_system (idx, name, value) VALUES (%d, (SELECT name FROM dat_system WHERE idx = '' @
     dq @ ''%d'' @ dq @ ''), %d);''"

definition sim_select_fmt :: string where
  "sim_select_fmt = ''SELECT value FROM dat_system WHERE idx='' @ dq @ ''%d''"

definition sim_exec :: "string \<Rightarrow> sim_table \<Rightarrow> bool \<times> sim_table" where
  "sim_exec sql d =
     (if sql = create_repo_text dat_repo_system then (True, if d = None then Some Map.empty else d)
      else case (d, ints_of (snd (sscanf sql sim_insert_fmt))) of
        (Some m, [i, _, v]) \<Rightarrow> (True, Some (m(i \<mapsto> v))) | _ \<Rightarrow> (False, d))"

definition sim_select :: "string \<Rightarrow> sim_table \<Rightarrow> sql_row option option" where
  "sim_select sql d =
     (case (d, ints_of (snd (sscanf sql sim_select_fmt))) of
        (Some m, [i]) \<Rightarrow> Some (map_option (\<lambda>v. \<lparr> col_int = \<lambda>_. v, col_float = \<lambda>_. 0 \<rparr>) (m i)) | _ \<Rightarrow> None)"

definition sim_sql :: "sim_table sql_engine" where
  "sim_sql = \<lparr> sq_open = \<lambda>_ d. (True, d), sq_close = \<lambda>d. d, sq_exec = sim_exec, sq_select = sim_select,
     sq_get_table = \<lambda>_ _. [], pg_connect = \<lambda>_ d. (False, d), pg_status = \<lambda>_. False, pg_exec = \<lambda>_ d. (False, d),
     pg_query = \<lambda>_ _. None, atof = \<lambda>_. 0 \<rparr>"

lemma sim_reads_insert:
  assumes "in_i32 i" "in_i32 v"
  shows "ints_of (snd (sscanf (insert_value_text dat_repo_system i v) sim_insert_fmt)) = [i, i, v]"
proof -
  have d: "directives sim_insert_fmt = directives ''INSERT OR REPLACE INTO dat_system (idx, name, value) VALUES ('' @
    DInt # directives '', (SELECT name FROM dat_system WHERE idx = '' @ DLit (CHR 0x22) # DInt # DLit (CHR 0x22) #
    directives ''), '' @ DInt # directives '');''"
    by (simp add: sim_insert_fmt_def dq_def conversion_def isspace_def)
  show ?thesis
    using assms unfolding sscanf_def d
    by (simp add: insert_value_text_def dat_repo_system_def dq_def isspace_def scan_DInt_show_int stops_digits_def isdigit_def del: scan.simps(4))
qed

lemma sim_reads_select:
  assumes "in_i32 i"
  shows "ints_of (snd (sscanf (select_value_text dat_repo_system i) sim_select_fmt)) = [i]"
proof -
  have "directives sim_select_fmt =
    directives ''SELECT value FROM dat_system WHERE idx='' @ [DLit (CHR 0x22), DInt]"
    by (simp add: sim_select_fmt_def dq_def conversion_def isspace_def)
  then show ?thesis
    using assms unfolding sscanf_def
    by (simp add: select_value_text_def dat_repo_system_def dq_def isspace_def scan_DInt_show_int stops_digits_def
        isdigit_def del: scan.simps(4))
qed

lemma insert_not_create [simp]: "insert_value_text t i v \<noteq> create_repo_text t'"
  by (simp add: insert_value_text_def create_repo_text_def)

interpretation sim_values: sql_values sim_sql "\<lambda>d. d \<noteq> None" "\<lambda>d. the d"
proof
  fix d d' :: sim_table and i v :: int and b r
  show "fst (sq_exec sim_sql (create_repo_text dat_repo_system) d)"
    "snd (sq_exec sim_sql (create_repo_text dat_repo_system) d) \<noteq> None"
    "the (snd (sq_exec sim_sql (create_repo_text dat_repo_system) d)) = (if d \<noteq> None then the d else Map.empty)"
    by (auto simp: sim_sql_def sim_exec_def)
  show "d \<noteq> None \<Longrightarrow> in_i32 i \<Longrightarrow> in_i32 v \<Longrightarrow> sq_exec sim_sql (insert_value_text dat_repo_system i v) d = (b, d') \<Longrightarrow>
      b \<and> d' \<noteq> None \<and> the d' = (the d)(i \<mapsto> v)"
    by (auto simp: sim_sql_def sim_exec_def sim_reads_insert)
  show "d \<noteq> None \<Longrightarrow> in_i32 i \<Longrightarrow> sq_select sim_sql (select_value_text dat_repo_system i) d = r \<Longrightarrow>
      r \<noteq> None \<and> map_option (\<lambda>row. col_int row 0) (the r) = the d i"
    by (auto simp: sim_sql_def sim_select_def sim_reads_select option.map_comp comp_def option.map_ident)
qed

lemma sim_sql_works: "sql_values sim_sql (\<lambda>d. d \<noteq> None) (\<lambda>d. the d)" ..

text \<open>The repository over an empty table.\<close>

definition sqlite_config :: sch_config where
  "sqlite_config = config_h\<lparr> storage_mode := 1 \<rparr>"

definition sim_table_state :: "sim_table sql_state dat_state" where
  "sim_table_state = \<lparr> var_buff = [], ext = \<lparr> db_open = True, engine = Some Map.empty \<rparr>, fplan = fp_initial, sec = 0 \<rparr>"

section \<open>Properties\<close>



text \<open>
  C23.  A GPS sample never fits.  The INSERT statement for a GPS sample with finite coordinates is longer
  than the 200 bytes of \<^verbatim>\<open>insert_row\<close>, whatever the index and the values: with SQLite and with
  PostgreSQL alike, storing it writes past the end of a local array.
\<close>

theorem sql_gps_sample_overruns:
  assumes "storage_mode c > 0" "length data = 32"
    "\<And>j. j \<in> {1, 2, 3, 4, 5} \<Longrightarrow> f32_exponent (sample_field data j) \<noteq> 255"
  shows "sql_set_payload_data c q index data (int (payload_idx gps_sensors)) s = Inl StackOverflow"
  using gps_row_overruns [OF assms(2,3)] assms(1)
  by (simp add: sql_set_payload_data_def payload_of_def payload_all_def)

theorem sql_gps_sample_overruns_witness:
  "sql_set_payload_data sqlite_config sim_sql 0 (replicate 32 0) (int (payload_idx gps_sensors)) (ext sim_table_state) =
     Inl StackOverflow"
  by (rule sql_gps_sample_overruns) (simp_all add: sqlite_config_def f32_exponent_def sample_field_def)

text \<open>A deployment sample always fits, so that its status is the one of the engine.\<close>

lemma sql_dpl_sample_stored:
  assumes "storage_mode c = 1" "length data = 8" "in_i32 index" "db_open s"
  shows "\<exists>sql. length sql < 200 \<and> sql_set_payload_data c q index data (int (payload_idx dpl_sensors)) s =
    Inr (if fst (sq_exec q sql (engine s)) then 0 else -1, s\<lparr> engine := snd (sq_exec q sql (engine s)) \<rparr>)"
  using dpl_row_fits [OF assms(2,3)] assms(1,4)
  by (auto simp: sql_set_payload_data_def payload_of_def payload_all_def sqlite_status_def sqlite_exec_def split_def Let_def)

end
