(* ===== verification/SqlFlight.thy ===== *)
theory SqlFlight
  imports SqlStorage TaskFlightPlan
begin

text \<open>
  The flight plan in SQLite: the statements of the Linux driver on the table of the plan, against a plan
  that is a map from times to entries, and the flight plan task over them.
\<close>

section \<open>What SQLite promises of the table of the plan\<close>

type_synonym sql_plan = "int \<Rightarrow> plan_entry option"

text \<open>
  The driver pastes the command and its arguments between double quotes: a text with a double quote in it
  ends early.  \<open>planned\<close> says that the table exists, \<open>plan\<close> gives the row at a time.
\<close>

definition sql_text :: "string \<Rightarrow> bool" where
  "sql_text t \<longleftrightarrow> c_string t \<and> CHR 0x22 \<notin> set t"

definition sql_entry :: "plan_entry \<Rightarrow> bool" where
  "sql_entry = (\<lambda>(command, args, ex, per). sql_text command \<and> sql_text args \<and> in_i32 ex \<and> in_i32 per)"

definition row_texts :: "int \<Rightarrow> plan_entry \<Rightarrow> string list" where
  "row_texts t = (\<lambda>(command, args, ex, per). [show_int t, command, args, show_int ex, show_int per])"

definition plan_texts :: "sql_plan \<Rightarrow> bool" where
  "plan_texts p \<longleftrightarrow> (\<forall>t e. p t = Some e \<longrightarrow> sql_entry e)"

lemma plan_texts_simps [simp]:
  "plan_texts Map.empty" "plan_texts p \<Longrightarrow> plan_texts (p(t := None))" "plan_texts p \<Longrightarrow> sql_entry e \<Longrightarrow> plan_texts (p(t \<mapsto> e))"
  by (auto simp: plan_texts_def split: if_splits)

definition sql_planned :: "('d \<Rightarrow> bool) \<Rightarrow> ('d \<Rightarrow> sql_plan) \<Rightarrow> 'd sql_state \<Rightarrow> sql_plan \<Rightarrow> bool" where
  "sql_planned planned plan x p \<longleftrightarrow>
     db_open x \<and> planned (engine x) \<and> plan (engine x) = p \<and> plan_texts p"

text \<open>The plan after the entry at a time was fetched.\<close>

definition sql_after :: "sql_plan \<Rightarrow> int \<Rightarrow> sql_plan" where
  "sql_after p t =
     (case p t of
        None \<Rightarrow> p
      | Some (command, args, ex, per) \<Rightarrow>
          if per > 0 then (p(t := None))(t + per \<mapsto> (command, args, ex, per)) else p(t := None))"

lemma atoi_show_int [simp]: "in_i32 i \<Longrightarrow> atoi (show_int i) = i"
  using scan_num_show_int [of "[]" i] spaces_show_int(1) [of i "[]"]
  by (auto simp: atoi_def strtol_def stops_digits_def in_i32_def i32_id)

text \<open>The rows of the table.\<close>

locale sql_rows =
  fixes q :: "'d sql_engine" and planned :: "'d \<Rightarrow> bool" and plan :: "'d \<Rightarrow> sql_plan"
  assumes plan_insert: "planned d \<Longrightarrow> in_i32 t \<Longrightarrow> sql_entry (command, args, ex, per) \<Longrightarrow>
      sq_exec q (fp_insert_text t command args ex per) d = (b, d') \<Longrightarrow>
      b \<and> planned d' \<and> plan d' = (plan d)(t \<mapsto> (command, args, ex, per))"
    and plan_delete: "planned d \<Longrightarrow> in_i32 t \<Longrightarrow> sq_exec q (fp_delete_text t) d = (b, d') \<Longrightarrow>
      b \<and> planned d' \<and> plan d' = (plan d)(t := None)"
    and plan_select: "planned d \<Longrightarrow> in_i32 t \<Longrightarrow>
      sq_get_table q (fp_select_text t) d = (case plan d t of None \<Rightarrow> [] | Some e \<Rightarrow> [row_texts t e])"
begin

lemma set_plan:
  assumes "sql_planned planned plan x p" "in_i32 t" "sql_entry (command, args, ex, per)"
  shows "\<exists>x'. sql_flight_plan_set q t command args ex per x = Inr (0, x') \<and>
    sql_planned planned plan x' (p(t \<mapsto> (command, args, ex, per)))"
  using plan_insert [of "engine x" t command args ex per] assms
  by (auto simp: sql_flight_plan_set_def sqlite_status_def sqlite_exec_def sql_planned_def split: prod.splits)

lemma erase_plan:
  assumes "sql_planned planned plan x p" "in_i32 t"
  shows "\<exists>x'. sql_flight_plan_erase q t x = Inr (0, x') \<and> sql_planned planned plan x' (p(t := None))"
  using plan_delete [of "engine x" t] assms
  by (auto simp: sql_flight_plan_erase_def sqlite_status_def sqlite_exec_def sql_planned_def split: prod.splits)

lemma get_plan_none:
  assumes "sql_planned planned plan x p" "in_i32 t" "p t = None"
  shows "sql_flight_plan_get q cap t x = Inr (-1, None, x)"
  using plan_select [of "engine x" t] assms by (auto simp: sql_flight_plan_get_def sql_planned_def)

lemma row_read:
  assumes "sql_planned planned plan x p" "in_i32 t" "p t = Some e"
  shows "sq_get_table q (fp_select_text t) (engine x) = [row_texts t e]" "db_open x" "sql_entry e"
  using plan_select [of "engine x" t] assms by (cases e, auto simp: sql_planned_def plan_texts_def)+

lemma get_plan_some:
  assumes "sql_planned planned plan x p" "in_i32 t" "p t = Some (command, args, ex, per)"
    "length command < cap" "length args < cap" "per > 0 \<Longrightarrow> in_i32 (t + per)"
  shows "\<exists>x'. sql_flight_plan_get q cap t x = Inr (0, Some (command, args, ex, per), x') \<and>
    sql_planned planned plan x' (sql_after p t)"
proof -
  note row = row_read [OF assms(1-3)]
  obtain x1 where x1: "sql_flight_plan_erase q t x = Inr (0, x1)" "sql_planned planned plan x1 (p(t := None))"
    using erase_plan [OF assms(1,2)] by blast
  show ?thesis
  proof (cases "per > 0")
    case True
    then show ?thesis
      using set_plan [OF x1(2) assms(6) row(3)] row x1 assms(3-6)
      by (auto simp: sql_flight_plan_get_def row_texts_def fits_def sql_after_def sql_entry_def i32_id)
  next
    case False
    then show ?thesis
      using row x1 assms(3-5) by (auto simp: sql_flight_plan_get_def row_texts_def fits_def sql_after_def sql_entry_def)
  qed
qed

text \<open>A text that is longer than the caller's array is copied past its end.\<close>

lemma get_plan_overruns:
  assumes "sql_planned planned plan x p" "in_i32 t" "p t = Some (command, args, ex, per)"
    "cap \<le> length command \<or> cap \<le> length args"
  shows "sql_flight_plan_get q cap t x = Inl StackOverflow"
  using row_read [OF assms(1-3)] assms(4) by (auto simp: sql_flight_plan_get_def row_texts_def fits_def)

end

text \<open>The table itself.\<close>

locale sql_plans = sql_rows +
  assumes plan_create: "sq_exec q fp_create_text d = (b, d') \<Longrightarrow>
      b \<and> planned d' \<and> plan d' = (if planned d then plan d else Map.empty)"
    and plan_drop: "sq_exec q fp_drop_text d = (b, d') \<Longrightarrow> b \<and> \<not> planned d'"
begin

lemma init_plan:
  assumes "db_open x" "storage_mode c = 1"
  shows "\<exists>x'. sql_table_flight_plan_init c q 1 x = Inr (0, x') \<and> sql_planned planned plan x' Map.empty"
proof -
  obtain b d where d: "sq_exec q fp_drop_text (engine x) = (b, d)" by (cases "sq_exec q fp_drop_text (engine x)")
  obtain b' d' where d': "sq_exec q fp_create_text d = (b', d')" by (cases "sq_exec q fp_create_text d")
  show ?thesis
    using plan_drop [OF d] plan_create [OF d'] d d' assms
    by (simp add: sql_table_flight_plan_init_def sqlite_status_def sqlite_exec_def sql_planned_def)
qed

end

section \<open>The flight plan task over SQLite\<close>

text \<open>
  A database with the tables of the variables and of the plan; a statement on one of them leaves the
  other alone.
\<close>

locale sql_system = sql_values q created cell + sql_plans q planned plan
  for q :: "'d sql_engine" and created :: "'d \<Rightarrow> bool" and cell :: "'d \<Rightarrow> int \<Rightarrow> int option"
    and planned :: "'d \<Rightarrow> bool" and plan :: "'d \<Rightarrow> sql_plan" +
  assumes variables_apart: "in_i32 i \<Longrightarrow> in_i32 v \<Longrightarrow> planned d \<Longrightarrow>
      sq_exec q (insert_value_text dat_repo_system i v) d = (b, d') \<Longrightarrow> planned d' \<and> plan d' = plan d"
    and plans_apart: "created d \<Longrightarrow> planned d \<Longrightarrow> in_i32 t \<Longrightarrow> sql_entry (command, args, ex, per) \<Longrightarrow>
      created (snd (sq_exec q (fp_insert_text t command args ex per) d))"
      "created d \<Longrightarrow> planned d \<Longrightarrow> in_i32 t \<Longrightarrow> created (snd (sq_exec q (fp_delete_text t) d))"

abbreviation both_tables :: "('d \<Rightarrow> bool) \<Rightarrow> ('d \<Rightarrow> bool) \<Rightarrow> 'd \<Rightarrow> bool" where
  "both_tables created planned \<equiv> (\<lambda>d. created d \<and> planned d)"

sublocale sql_system \<subseteq> kept: sql_rows q "both_tables created planned" plan
proof
  fix d d' :: 'd and t command args ex per b
  assume "created d \<and> planned d" "in_i32 t"
  note pre = this
  show "b \<and> (created d' \<and> planned d') \<and> plan d' = (plan d)(t \<mapsto> (command, args, ex, per))"
    if "sql_entry (command, args, ex, per)" "sq_exec q (fp_insert_text t command args ex per) d = (b, d')"
    using plan_insert [of d t] plans_apart(1) [of d t] pre that by (metis snd_conv)
  show "b \<and> (created d' \<and> planned d') \<and> plan d' = (plan d)(t := None)" if "sq_exec q (fp_delete_text t) d = (b, d')"
    using plan_delete [of d t] plans_apart(2) [of d t] pre that by (metis snd_conv)
  show "sq_get_table q (fp_select_text t) d = (case plan d t of None \<Rightarrow> [] | Some e \<Rightarrow> [row_texts t e])"
    using plan_select pre by blast
qed

definition sql_stored ::
  "('d \<Rightarrow> bool) \<Rightarrow> ('d \<Rightarrow> bool) \<Rightarrow> ('d \<Rightarrow> sql_plan) \<Rightarrow> 'd sql_state dat_state \<Rightarrow> sql_plan \<Rightarrow> bool" where
  "sql_stored created planned plan s p \<longleftrightarrow> sql_planned (both_tables created planned) plan (ext s) p"

text \<open>A Linux build that keeps its data in the database.\<close>

locale linux_system = sql_system q created cell planned plan
  for q :: "'d sql_engine" and created :: "'d \<Rightarrow> bool" and cell :: "'d \<Rightarrow> int \<Rightarrow> int option"
    and planned :: "'d \<Rightarrow> bool" and plan :: "'d \<Rightarrow> sql_plan" +
  fixes c :: sch_config and db_file :: string
  assumes sqlite: "storage_mode c = 1" "platform_of c \<noteq> AVR32"
begin

lemma keeps_plan:
  assumes "sql_stored created planned plan s p" "i < 171" "in_i32 v"
  shows "sql_stored created planned plan (cell_set c (linux_storage c q db_file) i v s) p"
proof -
  have "in_i32 (int i)" using assms(2) by (simp add: in_i32_def)
  then show ?thesis
    using assms sqlite insert [of "engine (ext s)" "int i" v] variables_apart [of "int i" v "engine (ext s)"]
    by (cases "sq_exec q (insert_value_text dat_repo_system (int i) v) (engine (ext s))")
      (auto simp: sql_stored_def sql_planned_def cell_set_def linux_storage_def sql_repo_set_value_idx_def sqlite_status_def sqlite_exec_def)
qed

lemma keeps_plan_var:
  assumes "sql_stored created planned plan s p" "in_i32 v"
  shows "sql_stored created planned plan (dat_set_system_var c (linux_storage c q db_file) w v s) p"
proof -
  have i: "dat_idx w < 171" "dat_idx w + 57 < 171" "dat_idx w + 57 * 2 < 171" using dat_idx_less [of w] by (simp_all del: dat_idx_less)
  note k = keeps_plan [OF _ _ assms(2)]
  show ?thesis using k [OF assms(1) i(1)] k [OF k [OF k [OF assms(1) i(1)] i(2)] i(3)] by (simp add: dat_set_system_var_def Let_def)
qed

end

sublocale linux_system \<subseteq> sql_source: plan_source c "linux_storage c q db_file" "sql_fp_driver c q"
  "sql_stored created planned plan" "\<lambda>p. p" sql_after
proof
  show "storage_mode c \<noteq> 0" "platform_of c \<noteq> AVR32" using sqlite by simp_all
next
  fix s p t assume "sql_stored created planned plan s p" "in_i32 t" "p t = None"
  then show "\<exists>s'. fd_get (sql_fp_driver c q) 64 t s = Inr (-1, None, s') \<and> sql_stored created planned plan s' p"
    using kept.get_plan_none [of "ext s" p t 64] by (simp add: sql_stored_def sql_fp_driver_def)
next
  fix s p t command args ex per
  assume "sql_stored created planned plan s p" "in_i32 t" "0 < t" "p t = Some (command, args, ex, per)" "length command < 64" "length args < 63"
    "t + per \<le> INT_MAX"
  then show "\<exists>s'. fd_get (sql_fp_driver c q) 64 t s = Inr (0, Some (command, args, ex, per), s') \<and> sql_stored created planned plan s' (sql_after p t)"
    using kept.get_plan_some [of "ext s" p t command args ex per 64]
    by (fastforce simp: sql_stored_def sql_fp_driver_def in_i32_def)
qed (rule keeps_plan_var)

context linux_system
begin

lemmas sql_seconds_run = sql_source.seconds_run

end

section \<open>A database in memory\<close>

text \<open>
  It reads the statements of the driver back: a statement is cut at its double quotes, the numbers in the
  pieces are scanned.
\<close>

fun pieces :: "char \<Rightarrow> string \<Rightarrow> string list" where
  "pieces q [] = [[]]"
| "pieces q (x # xs) = (if x = q then [] # pieces q xs else (x # hd (pieces q xs)) # tl (pieces q xs))"

lemma pieces_single: "q \<notin> set x \<Longrightarrow> pieces q x = [x]"
  by (induction x) auto

lemma pieces_cut: "q \<notin> set x \<Longrightarrow> pieces q (x @ q # r) = x # pieces q r"
  by (induction x) auto

type_synonym sim_db = "sim_table \<times> sql_plan option"

definition fp_insert_fmt :: string where
  "fp_insert_fmt = ''INSERT OR REPLACE INTO flightPlan (time, command, args, executions, periodical)'' @ [CHR 0x0A] @ '' VALUES (%d''"

definition fp_delete_fmt :: string where
  "fp_delete_fmt = ''DELETE FROM flightPlan'' @ [CHR 0x0A] @ '' WHERE time = %d''"

definition fp_select_fmt :: string where
  "fp_select_fmt = ''SELECT * FROM flightPlan WHERE time = %d''"

definition read_ints :: "string \<Rightarrow> string \<Rightarrow> int list" where
  "read_ints sql fmt = ints_of (snd (sscanf sql fmt))"

definition read_plan :: "string \<Rightarrow> sql_plan \<Rightarrow> sql_plan option" where
  "read_plan sql p =
     (case read_ints sql fp_delete_fmt of
        [t] \<Rightarrow> Some (p(t := None))
      | _ \<Rightarrow> (case pieces (CHR 0x22) sql of
          [head, command, _, args, rest] \<Rightarrow>
            (case (read_ints head fp_insert_fmt, read_ints rest '', %d, %d'') of
               ([t], [ex, per]) \<Rightarrow> Some (p(t \<mapsto> (command, args, ex, per))) | _ \<Rightarrow> None)
        | _ \<Rightarrow> None))"

definition sim_db_exec :: "string \<Rightarrow> sim_db \<Rightarrow> bool \<times> sim_db" where
  "sim_db_exec sql d =
     (if sql = fp_create_text then (True, fst d, Some (case snd d of None \<Rightarrow> Map.empty | Some p \<Rightarrow> p))
      else if sql = fp_drop_text then (True, fst d, None)
      else case Option.bind (snd d) (read_plan sql) of
        Some p \<Rightarrow> (True, fst d, Some p)
      | None \<Rightarrow> (case sim_exec sql (fst d) of (ok, v) \<Rightarrow> (ok, v, snd d)))"

definition sim_db_table :: "string \<Rightarrow> sim_db \<Rightarrow> string list list" where
  "sim_db_table sql d =
     (case (snd d, read_ints sql fp_select_fmt) of
        (Some p, [t]) \<Rightarrow> (case p t of None \<Rightarrow> [] | Some e \<Rightarrow> [row_texts t e]) | _ \<Rightarrow> [])"

definition sim_db :: "sim_db sql_engine" where
  "sim_db = \<lparr> sq_open = \<lambda>_ d. (True, d), sq_close = \<lambda>d. d, sq_exec = sim_db_exec, sq_select = \<lambda>sql d. sim_select sql (fst d),
     sq_get_table = sim_db_table, pg_connect = \<lambda>_ d. (False, d), pg_status = \<lambda>_. False, pg_exec = \<lambda>_ d. (False, d),
     pg_query = \<lambda>_ _. None, atof = \<lambda>_. 0 \<rparr>"

lemma show_int_no_quote: "CHR 0x22 \<notin> set (show_int i)"
proof -
  have "CHR 0x22 \<notin> set (show_nat n)" for n
    using show_nat_digits [of n] by (auto simp: list_all_iff isdigit_def)
  then show ?thesis by (auto simp: show_int_def)
qed

lemma fp_dirs:
  "directives fp_insert_fmt = directives (''INSERT OR REPLACE INTO flightPlan (time, command, args, executions, periodical)'' @
     [CHR 0x0A] @ '' VALUES ('') @ [DInt]"
  "directives fp_delete_fmt = directives (''DELETE FROM flightPlan'' @ [CHR 0x0A] @ '' WHERE time = '') @ [DInt]"
  "directives fp_select_fmt = directives ''SELECT * FROM flightPlan WHERE time = '' @ [DInt]"
  "directives '', %d, %d'' = [DLit (CHR '',''), DSpace (CHR '' ''), DInt, DLit (CHR '',''), DSpace (CHR '' ''), DInt]"
  by (simp_all add: fp_insert_fmt_def fp_delete_fmt_def fp_select_fmt_def conversion_def isspace_def)

lemmas scan_texts = read_ints_def sscanf_def fp_dirs fp_insert_text_def fp_delete_text_def fp_select_text_def fp_table_def dq_def
  isspace_def scan_DInt_show_int stops_digits_def isdigit_def

lemma reads_delete: "in_i32 t \<Longrightarrow> read_ints (fp_delete_text t) fp_delete_fmt = [t]"
  using scan_DInt_show_int [of t "[]" "[]"] spaces_show_int [of t "[]"] by (simp add: scan_texts del: scan.simps(4))

lemma reads_delete_plan: "in_i32 t \<Longrightarrow> read_plan (fp_delete_text t) p = Some (p(t := None))"
  by (simp add: read_plan_def reads_delete)

lemma reads_select: "in_i32 t \<Longrightarrow> read_ints (fp_select_text t) fp_select_fmt = [t]"
  using scan_DInt_show_int [of t "[]" "[]"] spaces_show_int [of t "[]"] by (simp add: scan_texts del: scan.simps(4))

lemma reads_insert:
  assumes "in_i32 t" "sql_entry (command, args, ex, per)"
  shows "read_plan (fp_insert_text t command args ex per) p = Some (p(t \<mapsto> (command, args, ex, per)))"
proof -
  let ?head = "''INSERT OR REPLACE INTO flightPlan (time, command, args, executions, periodical)'' @ [CHR 0x0A] @ '' VALUES ('' @
    show_int t @ '', ''"
  let ?rest = "'', '' @ show_int ex @ '', '' @ show_int per @ '');''"
  have body: "fp_insert_text t command args ex per =
      ?head @ CHR 0x22 # command @ CHR 0x22 # '', '' @ CHR 0x22 # args @ CHR 0x22 # ?rest"
    by (simp add: fp_insert_text_def fp_table_def dq_def)
  have "pieces (CHR 0x22) (fp_insert_text t command args ex per) = [?head, command, '', '', args, ?rest]"
    unfolding body
    using assms(2) by (subst pieces_cut | subst pieces_single | simp add: show_int_no_quote sql_entry_def sql_text_def)+
  moreover have "read_ints ?head fp_insert_fmt = [t]" "read_ints ?rest '', %d, %d'' = [ex, per]"
    using assms by (simp_all add: scan_texts sql_entry_def conversion_def del: scan.simps(4))
  moreover have "read_ints (fp_insert_text t command args ex per) fp_delete_fmt = []"
    by (simp add: scan_texts del: scan.simps(4))
  ultimately show ?thesis by (simp only: read_plan_def list.case prod.case)
qed

lemma fp_texts_differ [simp]:
  "fp_drop_text \<noteq> fp_create_text" "create_repo_text t \<noteq> fp_drop_text"
  "insert_value_text t i v \<noteq> fp_create_text" "insert_value_text t i v \<noteq> fp_drop_text"
  "fp_insert_text u command args ex per \<noteq> fp_create_text" "fp_insert_text u command args ex per \<noteq> fp_drop_text"
  "fp_delete_text u \<noteq> fp_create_text" "fp_delete_text u \<noteq> fp_drop_text"
  by (simp_all add: fp_drop_text_def fp_create_text_def create_repo_text_def insert_value_text_def fp_insert_text_def fp_delete_text_def)

lemma create_repo_apart: "create_repo_text dat_repo_system \<noteq> fp_create_text" "read_plan (create_repo_text dat_repo_system) p = None"
proof -
  show "create_repo_text dat_repo_system \<noteq> fp_create_text" by code_simp
  have "read_ints (create_repo_text dat_repo_system) fp_delete_fmt = []"
    by (simp add: scan_texts create_repo_text_def del: scan.simps(4))
  moreover have "pieces (CHR 0x22) (create_repo_text dat_repo_system) = [create_repo_text dat_repo_system]"
    by (rule pieces_single) (simp add: create_repo_text_def dat_repo_system_def)
  ultimately show "read_plan (create_repo_text dat_repo_system) p = None" by (simp only: read_plan_def list.case)
qed

lemma reads_value: "read_plan (insert_value_text dat_repo_system i v) p = None"
proof -
  let ?head = "''INSERT OR REPLACE INTO dat_system (idx, name, value) VALUES ('' @ show_int i @ '', (SELECT name FROM dat_system WHERE idx = ''"
  let ?rest = "''), '' @ show_int v @ '');''"
  have body: "insert_value_text dat_repo_system i v = ?head @ CHR 0x22 # show_int i @ CHR 0x22 # ?rest"
    by (simp add: insert_value_text_def dat_repo_system_def dq_def)
  have "read_ints (insert_value_text dat_repo_system i v) fp_delete_fmt = []"
    by (simp add: scan_texts insert_value_text_def del: scan.simps(4))
  moreover have "pieces (CHR 0x22) (insert_value_text dat_repo_system i v) = [?head, show_int i, ?rest]"
    unfolding body by (subst pieces_cut | subst pieces_single | simp add: show_int_no_quote)+
  ultimately show ?thesis by (simp only: read_plan_def list.case)
qed

abbreviation has_values :: "sim_db \<Rightarrow> bool" where "has_values d \<equiv> fst d \<noteq> None"
abbreviation has_plan :: "sim_db \<Rightarrow> bool" where "has_plan d \<equiv> snd d \<noteq> None"

lemma sim_db_exec_value:
  "sim_db_exec (insert_value_text dat_repo_system i v) d =
     (let r = sim_exec (insert_value_text dat_repo_system i v) (fst d) in (fst r, snd r, snd d))"
  "sim_db_exec (create_repo_text dat_repo_system) d =
     (let r = sim_exec (create_repo_text dat_repo_system) (fst d) in (fst r, snd r, snd d))"
  by (cases "snd d"; simp add: sim_db_exec_def reads_value create_repo_apart Let_def split_def)+

lemma sim_db_exec_plan:
  "has_plan d \<Longrightarrow> in_i32 t \<Longrightarrow> sql_entry (command, args, ex, per) \<Longrightarrow>
     sim_db_exec (fp_insert_text t command args ex per) d = (True, fst d, Some ((the (snd d))(t \<mapsto> (command, args, ex, per))))"
  "has_plan d \<Longrightarrow> in_i32 t \<Longrightarrow> sim_db_exec (fp_delete_text t) d = (True, fst d, Some ((the (snd d))(t := None)))"
  by (auto simp: sim_db_exec_def reads_insert reads_delete_plan)

interpretation sim_system: linux_system sim_db has_values "\<lambda>d. the (fst d)" has_plan "\<lambda>d. the (snd d)" sqlite_config "''suchai.db''"
proof
  fix d d' :: sim_db and i v t ex per :: int and command args b r
  show "fst (sq_exec sim_db (create_repo_text dat_repo_system) d)" "has_values (snd (sq_exec sim_db (create_repo_text dat_repo_system) d))"
    "the (fst (snd (sq_exec sim_db (create_repo_text dat_repo_system) d))) = (if has_values d then the (fst d) else Map.empty)"
    using sim_values.create [of "fst d"] by (simp_all add: sim_db_def sim_sql_def sim_db_exec_value Let_def)
  show "b \<and> has_values d' \<and> the (fst d') = (the (fst d))(i \<mapsto> v)"
    if "has_values d" "in_i32 i" "in_i32 v" "sq_exec sim_db (insert_value_text dat_repo_system i v) d = (b, d')"
    using sim_values.insert [of "fst d" i v, OF _ _ _ prod.collapse [symmetric]] that
    by (auto simp: sim_db_def sim_sql_def sim_db_exec_value Let_def)
  show "r \<noteq> None \<and> map_option (\<lambda>row. col_int row 0) (the r) = the (fst d) i"
    if "has_values d" "in_i32 i" "sq_select sim_db (select_value_text dat_repo_system i) d = r"
    using sim_values.select [of "fst d" i] that by (simp add: sim_db_def sim_sql_def)
  show "b \<and> has_plan d' \<and> the (snd d') = (the (snd d))(t \<mapsto> (command, args, ex, per))"
    if "has_plan d" "in_i32 t" "sql_entry (command, args, ex, per)" "sq_exec sim_db (fp_insert_text t command args ex per) d = (b, d')"
    using that by (auto simp: sim_db_def sim_db_exec_plan)
  show "b \<and> has_plan d' \<and> the (snd d') = (the (snd d))(t := None)"
    if "has_plan d" "in_i32 t" "sq_exec sim_db (fp_delete_text t) d = (b, d')"
    using that by (auto simp: sim_db_def sim_db_exec_plan)
  show "sq_get_table sim_db (fp_select_text t) d = (case the (snd d) t of None \<Rightarrow> [] | Some e \<Rightarrow> [row_texts t e])"
    if "has_plan d" "in_i32 t"
    using that by (auto simp: sim_db_def sim_db_table_def reads_select)
  show "b \<and> has_plan d' \<and> the (snd d') = (if has_plan d then the (snd d) else Map.empty)"
    if "sq_exec sim_db fp_create_text d = (b, d')"
    using that by (auto simp: sim_db_def sim_db_exec_def split: option.splits)
  show "b \<and> \<not> has_plan d'" if "sq_exec sim_db fp_drop_text d = (b, d')"
    using that by (auto simp: sim_db_def sim_db_exec_def)
  show "has_plan d' \<and> the (snd d') = the (snd d)"
    if "has_plan d" "sq_exec sim_db (insert_value_text dat_repo_system i v) d = (b, d')"
    using that by (auto simp: sim_db_def sim_db_exec_value Let_def)
  show "has_values (snd (sq_exec sim_db (fp_insert_text t command args ex per) d))"
    if "has_values d" "has_plan d" "in_i32 t" "sql_entry (command, args, ex, per)"
    using that by (simp add: sim_db_def sim_db_exec_plan)
  show "has_values (snd (sq_exec sim_db (fp_delete_text t) d))" if "has_values d" "has_plan d" "in_i32 t"
    using that by (simp add: sim_db_def sim_db_exec_plan)
qed (simp_all add: sqlite_config_def config_h_def)

section \<open>Properties\<close>


text \<open>An entry at time 100 with period 60, in the database in memory.\<close>

definition sim_plan :: sql_plan where
  "sim_plan = [100 \<mapsto> (''go'', ''7,8'', 1, 60)]"

definition sim_planned_state :: "sim_db sql_state" where
  "sim_planned_state = \<lparr> db_open = True, engine = (Some Map.empty, Some sim_plan) \<rparr>"

lemma sim_plan_stored:
  "sql_planned has_plan (\<lambda>d. the (snd d)) sim_planned_state sim_plan"
  "sql_planned (both_tables has_values has_plan) (\<lambda>d. the (snd d)) sim_planned_state sim_plan"
  by (auto simp: sql_planned_def sim_planned_state_def sim_plan_def plan_texts_def sql_entry_def sql_text_def c_string_def in_i32_def
      split: if_splits)




end
