(* ===== verification/CmdTM.thy ===== *)
theory CmdTM
  imports CmdCOM
begin

text \<open>
  The telemetry commands (\<^verbatim>\<open>src/system/cmdTM.c\<close>): the status frame, the frames with payload samples,
  and the counters of acknowledged samples.
\<close>

section \<open>The status frame\<close>

abbreviation (input) TM_TYPE_STATUS :: int where "TM_TYPE_STATUS \<equiv> 1"
abbreviation (input) TM_TYPE_PAYLOAD :: int where "TM_TYPE_PAYLOAD \<equiv> 10"

text \<open>\<open>junk\<close> is the last field of the structure, which is never written.\<close>

definition tm_send_status ::
  "sch_config \<Rightarrow> 'x storage \<Rightarrow> 'n csp \<Rightarrow> u32w \<Rightarrow> string \<Rightarrow> char list option \<Rightarrow> int \<Rightarrow> 'x dat_state \<Rightarrow> 'n \<Rightarrow>
     (int \<times> 'n) c_result" where
  "tm_send_status c st net junk fmt params nparams s n =
     (case params of
        None \<Rightarrow> Inr (CMD_ERROR, n)
      | Some b \<Rightarrow> c_bind (scan_ints fmt b) (\<lambda>(k, is).
          if nparams = k then
            case is of
              [dest_node] \<Rightarrow>
                let status = concat (map (\<lambda>w. le_bytes 4 (unat w)) (dat_status_to_struct c st junk s)) in
                if length status < COM_FRAME_MAX_LEN then
                  let data = \<lparr> d_node = word_of_int dest_node, d_frame = \<lparr> f_nframe = 0,
                        f_type = word_of_int TM_TYPE_STATUS, f_ndata = 1,
                        f_data = status @ replicate (COM_FRAME_MAX_LEN - length status) 0 \<rparr> \<rparr>
                  in Inr (com_send_data net (Some data) n)
                else Inl AssertFailed
            | _ \<Rightarrow> Inl Uninitialised
          else Inr (CMD_FAIL, n)))"

text \<open>\<^verbatim>\<open>tm_parse_status\<close> prints its parameter block as a status structure.\<close>

definition tm_parse_status :: "string \<Rightarrow> char list option \<Rightarrow> int \<Rightarrow> int" where
  "tm_parse_status fmt params nparams = (case params of None \<Rightarrow> CMD_ERROR | Some b \<Rightarrow> CMD_OK)"

section \<open>Frames of samples\<close>

definition structs_per_frame :: "payload_id \<Rightarrow> int" where
  "structs_per_frame p = int COM_FRAME_MAX_LEN sdiv int (dm_size (data_map p))"

text \<open>
  One sample into a local buffer of the payload's size, which holds the first bytes of \<open>junk\<close>: the driver writes
  the bytes it returns, and overruns the buffer when there are more of them.
\<close>

definition sample_buff ::
  "sch_config \<Rightarrow> 'x storage \<Rightarrow> u8 list \<Rightarrow> payload_id \<Rightarrow> int \<Rightarrow> 'x dat_state \<Rightarrow> u8 list c_result" where
  "sample_buff c st junk payload delay s =
     (let bytes = snd (dat_get_recent_payload_sample c st payload delay s) in
      if length bytes \<le> dm_size (data_map payload)
      then Inr (bytes @ drop (length bytes) (take (dm_size (data_map payload)) junk)) else Inl StackOverflow)"

text \<open>The inner loop: the samples \<open>j\<close> of frame \<open>i\<close> until the frame is full or the samples are used up.\<close>

function frame_samples ::
  "sch_config \<Rightarrow> 'x storage \<Rightarrow> u8 list \<Rightarrow> payload_id \<Rightarrow> int \<Rightarrow> int \<Rightarrow> int \<Rightarrow> int \<Rightarrow> 'x dat_state \<Rightarrow>
     u8 list list c_result" where
  "frame_samples c st junk payload n_samples last_delay i j s =
     (if j < structs_per_frame payload \<and> i * structs_per_frame payload + j < n_samples then
        c_bind (sample_buff c st junk payload (i32 (last_delay - (i * structs_per_frame payload + j + 1))) s) (\<lambda>buff.
        c_bind (frame_samples c st junk payload n_samples last_delay i (j + 1) s) (\<lambda>rest.
          Inr (buff # rest)))
      else Inr [])"
  by pat_completeness auto
termination
  by (relation "measure (\<lambda>(c, st, junk, p, n, d, i, j, s). nat (structs_per_frame p - j))") auto

declare frame_samples.simps [simp del]

text \<open>
  Frame number \<open>i\<close>.  Sample \<open>j\<close> is copied at offset \<open>j * size\<close>, so the data are the samples one after the
  other and the zeros of the \<^verbatim>\<open>memset\<close> behind them.
\<close>

definition tel_frame ::
  "sch_config \<Rightarrow> 'x storage \<Rightarrow> u8 list \<Rightarrow> payload_id \<Rightarrow> int \<Rightarrow> int \<Rightarrow> int \<Rightarrow> 'x dat_state \<Rightarrow> int \<Rightarrow> com_data c_result" where
  "tel_frame c st junk payload n_samples last_delay dest_node s i =
     c_bind (frame_samples c st junk payload n_samples last_delay i 0 s) (\<lambda>buffs.
       Inr \<lparr> d_node = word_of_int dest_node, d_frame = \<lparr> f_nframe = word_of_int i,
              f_type = word_of_int (TM_TYPE_PAYLOAD + int (payload_idx payload)),
              f_ndata = word_of_nat (length buffs),
              f_data = concat buffs @ replicate (COM_FRAME_MAX_LEN - length (concat buffs)) 0 \<rparr> \<rparr>)"

definition n_frames :: "payload_id \<Rightarrow> int \<Rightarrow> int" where
  "n_frames payload n_samples =
     (let q = n_samples sdiv structs_per_frame payload in
      if n_samples smod structs_per_frame payload \<noteq> 0 then q + 1 else q)"

text \<open>The frames \<^verbatim>\<open>send_tel_from_to\<close> builds, in the order it sends them.\<close>

definition tel_frames ::
  "sch_config \<Rightarrow> 'x storage \<Rightarrow> u8 list \<Rightarrow> int \<Rightarrow> int \<Rightarrow> payload_id \<Rightarrow> int \<Rightarrow> 'x dat_state \<Rightarrow> com_data list c_result" where
  "tel_frames c st junk from des payload dest_node s =
     (let n_samples = i32 (des - from);
          index_pay = dat_get_system_var c st (dm_sys_index (data_map payload)) s
      in c_mapM (tel_frame c st junk payload n_samples (n_samples + (index_pay - des)) dest_node s)
           (map int [0..<nat (n_frames payload n_samples)]))"

definition send_tel_from_to ::
  "sch_config \<Rightarrow> 'x storage \<Rightarrow> 'n csp \<Rightarrow> u8 list \<Rightarrow> int \<Rightarrow> int \<Rightarrow> payload_id \<Rightarrow> int \<Rightarrow> 'x dat_state \<Rightarrow> 'n \<Rightarrow> 'n c_result" where
  "send_tel_from_to c st net junk from des payload dest_node s n =
     c_bind (tel_frames c st junk from des payload dest_node s) (\<lambda>fs.
       Inr (fold (\<lambda>f n. snd (com_send_data net (Some f) n)) fs n))"

section \<open>Handlers\<close>

definition tm_send_last ::
  "sch_config \<Rightarrow> 'x storage \<Rightarrow> 'n csp \<Rightarrow> u8 list \<Rightarrow> string \<Rightarrow> char list option \<Rightarrow> int \<Rightarrow> 'x dat_state \<Rightarrow> 'n \<Rightarrow>
     (int \<times> 'n) c_result" where
  "tm_send_last c st net junk fmt params nparams s n =
     (case params of
        None \<Rightarrow> Inr (CMD_ERROR, n)
      | Some b \<Rightarrow> c_bind (scan_ints fmt b) (\<lambda>(k, is).
          if nparams = k then
            case is of
              [pl, dest_node] \<Rightarrow>
                (case payload_of pl of
                   None \<Rightarrow> Inr (CMD_FAIL, n)
                 | Some payload \<Rightarrow>
                     let index_pay = dat_get_system_var c st (dm_sys_index (data_map payload)) s in
                     if index_pay < 1 then Inr (CMD_FAIL, n)
                     else
                       let m = (if structs_per_frame payload > index_pay then index_pay
                                else structs_per_frame payload) in
                       c_bind (send_tel_from_to c st net junk (index_pay - m) index_pay payload dest_node s n)
                         (\<lambda>n. Inr (CMD_OK, n)))
            | _ \<Rightarrow> Inl Uninitialised
          else Inr (CMD_FAIL, n)))"

definition tm_send_all ::
  "sch_config \<Rightarrow> 'x storage \<Rightarrow> 'n csp \<Rightarrow> u8 list \<Rightarrow> string \<Rightarrow> char list option \<Rightarrow> int \<Rightarrow> 'x dat_state \<Rightarrow> 'n \<Rightarrow>
     (int \<times> 'n) c_result" where
  "tm_send_all c st net junk fmt params nparams s n =
     (case params of
        None \<Rightarrow> Inr (CMD_ERROR, n)
      | Some b \<Rightarrow> c_bind (scan_ints fmt b) (\<lambda>(k, is).
          if nparams = k then
            case is of
              [pl, dest_node] \<Rightarrow>
                (case payload_of pl of
                   None \<Rightarrow> Inr (CMD_FAIL, n)
                 | Some payload \<Rightarrow>
                     let index_pay = dat_get_system_var c st (dm_sys_index (data_map payload)) s;
                         index_ack = dat_get_system_var c st (dm_sys_ack (data_map payload)) s
                     in c_bind (send_tel_from_to c st net junk index_ack index_pay payload dest_node s n)
                          (\<lambda>n. Inr (CMD_OK, n)))
            | _ \<Rightarrow> Inl Uninitialised
          else Inr (CMD_ERROR, n)))"

definition tm_send_from ::
  "sch_config \<Rightarrow> 'x storage \<Rightarrow> 'n csp \<Rightarrow> u8 list \<Rightarrow> string \<Rightarrow> char list option \<Rightarrow> int \<Rightarrow> 'x dat_state \<Rightarrow> 'n \<Rightarrow>
     (int \<times> 'n) c_result" where
  "tm_send_from c st net junk fmt params nparams s n =
     (case params of
        None \<Rightarrow> Inr (CMD_ERROR, n)
      | Some b \<Rightarrow> c_bind (scan_ints fmt b) (\<lambda>(k, is).
          if nparams = k then
            case is of
              [pl, dest_node, samples] \<Rightarrow>
                (case payload_of pl of
                   None \<Rightarrow> Inr (CMD_FAIL, n)
                 | Some payload \<Rightarrow>
                     if samples < 1 then Inr (CMD_FAIL, n)
                     else
                       let index_pay = dat_get_system_var c st (dm_sys_index (data_map payload)) s;
                           index_ack = dat_get_system_var c st (dm_sys_ack (data_map payload)) s;
                           des = i32 (index_ack + samples);
                           des = (if des > index_pay then index_pay else des)
                       in c_bind (send_tel_from_to c st net junk index_ack des payload dest_node s n)
                            (\<lambda>n. Inr (CMD_OK, n)))
            | _ \<Rightarrow> Inl Uninitialised
          else Inr (CMD_ERROR, n)))"

text \<open>\<^verbatim>\<open>ack_pay += k_samples\<close> adds an \<^verbatim>\<open>int\<close> and a \<^verbatim>\<open>uint32_t\<close>: the sum wraps and is converted back.\<close>

definition tm_set_ack ::
  "sch_config \<Rightarrow> 'x storage \<Rightarrow> string \<Rightarrow> char list option \<Rightarrow> int \<Rightarrow> 'x dat_state \<Rightarrow> (int \<times> 'x dat_state) c_result" where
  "tm_set_ack c st fmt params nparams s =
     (case params of
        None \<Rightarrow> Inr (CMD_ERROR, s)
      | Some b \<Rightarrow> c_bind (scan_ints fmt b) (\<lambda>(k, is).
          if nparams = k then
            case is of
              [pl, k_samples] \<Rightarrow>
                (case payload_of pl of
                   None \<Rightarrow> Inr (CMD_FAIL, s)
                 | Some payload \<Rightarrow>
                     if k_samples < 1 then Inr (CMD_FAIL, s)
                     else
                       let ack_pay = dat_get_system_var c st (dm_sys_ack (data_map payload)) s;
                           index_pay = dat_get_system_var c st (dm_sys_index (data_map payload)) s
                       in if ack_pay = -1 \<or> index_pay = -1 then Inr (CMD_FAIL, s)
                          else
                            let ack_pay = i32 (ack_pay + k_samples);
                                ack_pay = (if ack_pay > index_pay then index_pay else ack_pay)
                            in Inr (CMD_OK, dat_set_system_var c st (dm_sys_ack (data_map payload)) ack_pay s))
            | _ \<Rightarrow> Inl Uninitialised
          else Inr (CMD_ERROR, s)))"


section \<open>Frames carry the samples\<close>

lemma structs_per_frame_eq [simp]:
  "structs_per_frame temp_sensors = 12" "structs_per_frame ads_sensors = 6" "structs_per_frame eps_sensors = 4"
  "structs_per_frame lang_sensors = 9" "structs_per_frame gps_sensors = 6" "structs_per_frame prs_sensors = 12"
  "structs_per_frame dpl_sensors = 24" "structs_per_frame fod_sensors = 12"
  by (simp_all add: structs_per_frame_def sdiv_nonneg)

lemma structs_per_frame_bounds:
  "0 < structs_per_frame p" "structs_per_frame p \<le> 24"
  "nat (structs_per_frame p) * dm_size (data_map p) \<le> COM_FRAME_MAX_LEN"
  by (cases p; simp)+

text \<open>Samples numbered from \<open>from\<close> are stored, each with the payload's size.\<close>

definition stored_samples ::
  "'x storage \<Rightarrow> payload_id \<Rightarrow> int \<Rightarrow> nat \<Rightarrow> (nat \<Rightarrow> u8 list) \<Rightarrow> 'x dat_state \<Rightarrow> bool" where
  "stored_samples st p from N g s \<longleftrightarrow>
     (\<forall>k < N. st_get_payload_data st (from + int k) p (ext s) = (0, g k) \<and> length (g k) = dm_size (data_map p))"

lemma sample_buff_stored:
  assumes "has_payload_storage c" "index = dat_get_system_var c st (dm_sys_index (data_map p)) s"
    "stored_samples st p from N g s" "k < N" "0 \<le> from" "from + int N \<le> index" "index \<le> INT_MAX"
  shows "sample_buff c st junk p (i32 (index - from - (int k + 1))) s = Inr (g k)"
    "length (g k) = dm_size (data_map p)"
proof -
  have d: "i32 (index - from - (int k + 1)) = index - from - (int k + 1)"
    using assms by (intro i32_id) (simp add: in_i32_def)
  have e: "i32 (index - 1 - (index - from - (int k + 1))) = from + int k"
    using assms by (simp add: i32_id in_i32_def)
  have g: "st_get_payload_data st (from + int k) p (ext s) = (0, g k)" "length (g k) = dm_size (data_map p)"
    using assms(3,4) by (simp_all add: stored_samples_def)
  show "length (g k) = dm_size (data_map p)" by (rule g(2))
  have "dat_get_recent_payload_sample c st p (index - from - (int k + 1)) s = (0, g k)"
    unfolding dat_get_recent_payload_sample_def Let_def assms(2) [symmetric] e
    using assms(1,5) g(1) by simp
  then show "sample_buff c st junk p (i32 (index - from - (int k + 1))) s = Inr (g k)"
    by (simp add: sample_buff_def d g(2))
qed

lemma frame_samples_stored:
  assumes "has_payload_storage c" "index = dat_get_system_var c st (dm_sys_index (data_map p)) s"
    "stored_samples st p from N g s" "0 \<le> from" "from + int N \<le> index" "index \<le> INT_MAX"
    "length junk = dm_size (data_map p)" "m = nat (structs_per_frame p)" "j \<le> m"
  shows "frame_samples c st junk p (int N) (index - from) (int i) (int j) s =
    Inr (map (\<lambda>j. g (i * m + j)) [j..<min m (N - i * m)])"
  using assms(9)
proof (induction "m - j" arbitrary: j)
  case 0
  then have "\<not> int j < structs_per_frame p" using assms(8) by simp
  then show ?case using 0 by (subst frame_samples.simps) simp
next
  case (Suc d)
  then have j: "int j < structs_per_frame p" "j < m" using assms(8) by simp_all
  have sp: "structs_per_frame p = int m" using assms(8) structs_per_frame_bounds(1) [of p] by simp
  show ?case
  proof (cases "i * m + j < N")
    case True
    have "index - from - (int i * int m + int j + 1) = index - from - (int (i * m + j) + 1)" by simp
    then have "sample_buff c st junk p (i32 (index - from - (int i * int m + int j + 1))) s =
        Inr (g (i * m + j))"
      using sample_buff_stored(1) [OF assms(1-3) True assms(4-6), where junk = junk] by (simp only:)
    moreover have "frame_samples c st junk p (int N) (index - from) (int i) (int j + 1) s =
        Inr (map (\<lambda>j. g (i * m + j)) [Suc j..<min m (N - i * m)])"
      using Suc.hyps(1) [of "Suc j"] Suc.hyps(2) j(2) by (simp add: add.commute)
    moreover have "[j..<min m (N - i * m)] = j # [Suc j..<min m (N - i * m)]"
      using True j(2) by (simp add: upt_conv_Cons)
    moreover have "int i * int m + int j < int N" using True by (simp flip: of_nat_mult of_nat_add)
    ultimately show ?thesis using j sp by (subst frame_samples.simps) (simp add: sp)
  next
    case False
    then have "\<not> int i * int m + int j < int N" by (simp flip: of_nat_mult of_nat_add)
    then show ?thesis using False sp by (subst frame_samples.simps) simp
  qed
qed

lemma chunks:
  "concat (map (\<lambda>i. map (\<lambda>j. g (i * m + j)) [0..<min m (N - i * m)]) [0..<F]) = map g [0..<min (F * m) N]"
proof (induction F)
  case (Suc F)
  have shift: "map (\<lambda>j. g (F * m + j)) [0..<k] = map g [F * m..<F * m + k]" for k
    by (simp add: map_add_upt [symmetric] add.commute [of "F * m"] comp_def)
  show ?case
  proof (cases "F * m \<le> N")
    case True
    then have "[0..<min (Suc F * m) N] = [0..<F * m] @ [F * m..<F * m + min m (N - F * m)]"
      using upt_split [of 0 "F * m" "min (Suc F * m) N"] by (simp add: min_def add.commute)
    then show ?thesis using Suc True shift [of "min m (N - F * m)"] by simp
  next
    case False
    then show ?thesis using Suc by simp
  qed
qed simp

text \<open>The samples in a frame, as its receiver reads them.\<close>

definition frame_payload :: "payload_id \<Rightarrow> com_data \<Rightarrow> u8 list" where
  "frame_payload p d = take (unat (f_ndata (d_frame d)) * dm_size (data_map p)) (f_data (d_frame d))"

lemma length_concat_uniform: "\<forall>x \<in> set xs. length x = z \<Longrightarrow> length (concat xs) = length xs * z"
  by (induction xs) auto

lemma concat_map_concat: "concat (map concat xss) = concat (concat xss)"
  by (induction xss) auto

lemma tel_frame_stored:
  assumes "has_payload_storage c" "index = dat_get_system_var c st (dm_sys_index (data_map p)) s"
    "stored_samples st p from N g s" "0 \<le> from" "from + int N \<le> index" "index \<le> INT_MAX"
    "length junk = dm_size (data_map p)" "m = nat (structs_per_frame p)"
  shows "\<exists>d. tel_frame c st junk p (int N) (index - from) node s (int i) = Inr d \<and>
    d_node d = word_of_int node \<and> f_nframe (d_frame d) = word_of_nat i \<and>
    f_type (d_frame d) = word_of_int (TM_TYPE_PAYLOAD + int (payload_idx p)) \<and>
    unat (f_ndata (d_frame d)) = min m (N - i * m) \<and> length (f_data (d_frame d)) = COM_FRAME_MAX_LEN \<and>
    frame_payload p d = concat (map (\<lambda>j. g (i * m + j)) [0..<min m (N - i * m)])"
proof -
  let ?b = "map (\<lambda>j. g (i * m + j)) [0..<min m (N - i * m)]"
  have b: "frame_samples c st junk p (int N) (index - from) (int i) 0 s = Inr ?b"
    using frame_samples_stored [OF assms, of 0 i] by simp
  have "\<forall>x \<in> set ?b. length x = dm_size (data_map p)"
    using assms(3) by (auto simp: stored_samples_def)
  then have len: "length (concat ?b) = min m (N - i * m) * dm_size (data_map p)"
    using length_concat_uniform [of ?b] by simp
  have m: "m \<le> 24" "m * dm_size (data_map p) \<le> COM_FRAME_MAX_LEN"
    using structs_per_frame_bounds [of p] assms(8) by simp_all
  then have fits: "length (concat ?b) \<le> COM_FRAME_MAX_LEN"
    unfolding len by (meson le_trans min.cobounded1 mult_le_mono1)
  have "unat (word_of_nat (length ?b) :: u32w) = min m (N - i * m)"
    using m(1) by (simp add: unat_of_nat take_bit_nat_eq_self)
  then show ?thesis using b fits len by (simp add: tel_frame_def frame_payload_def)
qed

lemma n_frames_cover:
  assumes "m = nat (structs_per_frame p)"
  shows "nat (n_frames p (int N)) = (N + m - 1) div m" "N \<le> nat (n_frames p (int N)) * m"
proof -
  have m: "0 < m" "structs_per_frame p = int m" using assms structs_per_frame_bounds(1) [of p] by simp_all
  have n: "nat (n_frames p (int N)) = (if N mod m \<noteq> 0 then N div m + 1 else N div m)"
    using m by (simp add: n_frames_def Let_def sdiv_nonneg smod_nonneg nat_add_distrib flip: zdiv_int zmod_int)
  have N: "N = N div m * m + N mod m" by simp
  show c: "N \<le> nat (n_frames p (int N)) * m"
    unfolding n using dividend_less_div_times [OF m(1), of N] N by (auto simp: algebra_simps)
  show "nat (n_frames p (int N)) = (N + m - 1) div m"
  proof (cases "N mod m = 0")
    case True
    then obtain k where k: "N = m * k" by (auto simp: mod_eq_0_iff_dvd)
    have "N + m - 1 = (m - 1) + m * k" using m(1) by (simp add: k)
    then have "(N + m - 1) div m = k" using m(1) by (simp only: div_mult_self2) simp
    then show ?thesis unfolding n using True m(1) by (simp add: k)
  next
    case False
    have "(N div m + 1) * m = N div m * m + m" by simp
    then have e: "N + m - 1 = (N div m + 1) * m + (N mod m - 1)"
      using False N by linarith
    have "N mod m - 1 < m" using m(1) mod_less_divisor [of m N] by linarith
    then have "((N div m + 1) * m + (N mod m - 1)) div m = N div m + 1"
      using m(1) by (simp only: div_mult_self3 div_less)
    then show ?thesis unfolding n e using False by simp
  qed
qed

text \<open>All the frames of a request, by their number.\<close>

lemma tel_frames_built:
  assumes "has_payload_storage c" "index = dat_get_system_var c st (dm_sys_index (data_map p)) s"
    "stored_samples st p from N g s" "0 \<le> from" "from + int N \<le> index" "index \<le> INT_MAX"
    "length junk = dm_size (data_map p)" "m = nat (structs_per_frame p)"
  shows "\<exists>d. tel_frames c st junk from (from + int N) p node s = Inr (map d [0..<(N + m - 1) div m]) \<and>
    (\<forall>i. d_node (d i) = word_of_int node \<and> f_nframe (d_frame (d i)) = word_of_nat i \<and>
      f_type (d_frame (d i)) = word_of_int (TM_TYPE_PAYLOAD + int (payload_idx p)) \<and>
      unat (f_ndata (d_frame (d i))) = min m (N - i * m) \<and> length (f_data (d_frame (d i))) = COM_FRAME_MAX_LEN \<and>
      frame_payload p (d i) = concat (map (\<lambda>j. g (i * m + j)) [0..<min m (N - i * m)]))"
proof -
  let ?tf = "tel_frame c st junk p (int N) (index - from) node s"
  let ?F = "nat (n_frames p (int N))"
  have "\<forall>i. \<exists>d. ?tf (int i) = Inr d \<and>
      d_node d = word_of_int node \<and> f_nframe (d_frame d) = word_of_nat i \<and>
      f_type (d_frame d) = word_of_int (TM_TYPE_PAYLOAD + int (payload_idx p)) \<and>
      unat (f_ndata (d_frame d)) = min m (N - i * m) \<and> length (f_data (d_frame d)) = COM_FRAME_MAX_LEN \<and>
      frame_payload p d = concat (map (\<lambda>j. g (i * m + j)) [0..<min m (N - i * m)])"
    using tel_frame_stored [OF assms] by blast
  from choice [OF this] obtain d where d: "\<forall>i. ?tf (int i) = Inr (d i) \<and>
      d_node (d i) = word_of_int node \<and> f_nframe (d_frame (d i)) = word_of_nat i \<and>
      f_type (d_frame (d i)) = word_of_int (TM_TYPE_PAYLOAD + int (payload_idx p)) \<and>
      unat (f_ndata (d_frame (d i))) = min m (N - i * m) \<and> length (f_data (d_frame (d i))) = COM_FRAME_MAX_LEN \<and>
      frame_payload p (d i) = concat (map (\<lambda>j. g (i * m + j)) [0..<min m (N - i * m)])" ..
  have n: "i32 (from + int N - from) = int N" using assms(4-6) by (simp add: i32_id in_i32_def)
  have l: "int N + (index - (from + int N)) = index - from" by simp
  have "tel_frames c st junk from (from + int N) p node s = c_mapM ?tf (map int [0..<?F])"
    unfolding tel_frames_def Let_def n assms(2) [symmetric] l ..
  also have "\<dots> = Inr (map (\<lambda>i. d (nat i)) (map int [0..<?F]))"
    by (rule c_mapM_Inr) (use d in auto)
  also have "map (\<lambda>i. d (nat i)) (map int [0..<?F]) = map d [0..<?F]" by (simp add: comp_def)
  finally show ?thesis using d n_frames_cover(1) [OF assms(8)] by metis
qed

section \<open>Properties\<close>

text \<open>
  Telemetry of payload samples.  Asked for the samples from \<open>from\<close> up to \<open>from + N\<close>, all of them
  stored, \<^verbatim>\<open>send_tel_from_to\<close> builds as many frames as are needed at a full load per frame, numbers them
  from 0 and addresses them to the node; their announced contents, read one after the other, are exactly
  those samples in order, none lost, repeated or split between frames.
\<close>

lemma tel_frames_carry_samples:
  assumes "has_payload_storage c" "index = dat_get_system_var c st (dm_sys_index (data_map p)) s"
    "stored_samples st p from N g s" "0 \<le> from" "from + int N \<le> index" "index \<le> INT_MAX"
    "length junk = dm_size (data_map p)" "m = nat (structs_per_frame p)"
  shows "\<exists>fs. tel_frames c st junk from (from + int N) p node s = Inr fs \<and>
    length fs = (N + m - 1) div m \<and>
    (\<forall>i < length fs. d_node (fs ! i) = word_of_int node \<and> f_nframe (d_frame (fs ! i)) = word_of_nat i \<and>
       unat (f_ndata (d_frame (fs ! i))) = min m (N - i * m) \<and>
       length (f_data (d_frame (fs ! i))) = COM_FRAME_MAX_LEN) \<and>
    concat (map (frame_payload p) fs) = concat (map g [0..<N])"
proof -
  let ?F = "(N + m - 1) div m"
  obtain d where fs: "tel_frames c st junk from (from + int N) p node s = Inr (map d [0..<?F])"
    and d: "\<And>i. d_node (d i) = word_of_int node" "\<And>i. f_nframe (d_frame (d i)) = word_of_nat i"
      "\<And>i. unat (f_ndata (d_frame (d i))) = min m (N - i * m)"
      "\<And>i. length (f_data (d_frame (d i))) = COM_FRAME_MAX_LEN"
      "\<And>i. frame_payload p (d i) = concat (map (\<lambda>j. g (i * m + j)) [0..<min m (N - i * m)])"
    using tel_frames_built [OF assms, of node] by blast
  have "concat (map (frame_payload p) (map d [0..<?F])) =
      concat (map concat (map (\<lambda>i. map (\<lambda>j. g (i * m + j)) [0..<min m (N - i * m)]) [0..<?F]))"
    using d(5) by (simp add: comp_def)
  also have "\<dots> = concat (map g [0..<min (?F * m) N])"
    by (simp only: concat_map_concat chunks)
  also have "min (?F * m) N = N" using n_frames_cover [OF assms(8), of N] by simp
  finally show ?thesis using fs d by (intro exI [of _ "map d [0..<?F]"]) simp
qed

definition ramp_storage :: "unit storage" where
  "ramp_storage = no_storage\<lparr> st_get_payload_data := \<lambda>i p x. (0, replicate (dm_size (data_map p)) (word_of_int i)) \<rparr>"

lemma tel_frames_carry_samples_witness:
  "let s = dat_set_system_var config_h ramp_storage dat_mem_dpl 30 dat_zero; g = (\<lambda>k. replicate 8 (word_of_nat k)) in
   stored_samples ramp_storage dpl_sensors 0 30 g s \<and>
   (\<exists>fs. tel_frames config_h ramp_storage (replicate 8 0) 0 30 dpl_sensors 10 s = Inr fs \<and> length fs = 2 \<and>
      concat (map (frame_payload dpl_sensors) fs) = concat (map g [0..<30]))"
proof -
  let ?s = "dat_set_system_var config_h ramp_storage dat_mem_dpl 30 dat_zero"
  let ?g = "\<lambda>k :: nat. replicate 8 (word_of_nat k :: u8)"
  have inv: "dat_inv config_h ramp_storage dat_zero"
    by (simp add: dat_inv_def config_h_def dat_zero_def buff_size_def)
  have st: "stored_samples ramp_storage dpl_sensors 0 30 ?g ?s"
    by (simp add: stored_samples_def ramp_storage_def)
  have idx: "30 = dat_get_system_var config_h ramp_storage (dm_sys_index (data_map dpl_sensors)) ?s"
    using inv by (simp add: dat_simps in_i32_def)
  show ?thesis
    using tel_frames_carry_samples [OF _ idx st, of "replicate 8 0" 24 10] st
    by (auto simp: has_payload_storage_def config_h_def Let_def)
qed

text \<open>
  The status frame is never sent.  The structure has 54 fields of four bytes, more than the 192
  bytes of a frame, so the assertion in \<^verbatim>\<open>tm_send_status\<close> fails on every call with valid parameters
  and the program aborts.
\<close>

lemma tm_send_status_aborts:
  assumes "scan_ints fmt b = Inr (nparams, [node])"
  shows "tm_send_status c st net junk fmt (Some b) nparams s n = Inl AssertFailed"
proof -
  have "length (concat (map (\<lambda>w. le_bytes 4 (unat w)) (dat_status_to_struct c st junk s))) = 216"
    using length_concat_uniform [of "map (\<lambda>w. le_bytes 4 (unat w)) (dat_status_to_struct c st junk s)" 4]
    by (simp add: le_bytes_def dat_status_to_struct_def del: length_concat)
  then show ?thesis using assms by (simp add: tm_send_status_def Let_def del: length_concat)
qed

lemma tm_send_status_aborts_witness:
  "scan_ints ''%d'' (text_block ''10'') = Inr (1, [10]) \<and>
   tm_send_status config_h no_storage \<lparr> csp_ping = \<lambda>_ n. (0, n), csp_buffer_get = \<lambda>_ n. (True, n),
       csp_buffer_free = \<lambda>n. n, csp_sendto = \<lambda>_ _ _ n. (0, n), csp_transaction = \<lambda>_ _ _ n. (1, Some 200, n) \<rparr>
     0 ''%d'' (Some (text_block ''10'')) 1 dat_zero () = Inl AssertFailed"
proof -
  have "scan_ints ''%d'' (text_block ''10'') = Inr (1, [10])" by code_simp
  then show ?thesis by (simp add: tm_send_status_aborts)
qed

text \<open>
  Acknowledging samples.  With counters in order (\<open>0 \<le> ack \<le> index\<close>) and a sum that fits an
  \<^verbatim>\<open>int\<close>, the acknowledged count advances by the number given but never beyond the number of samples,
  and no other variable changes.  A larger number wraps: the acknowledged count becomes negative.
\<close>

lemma tm_set_ack_spec:
  assumes "dat_inv c st s" "scan_ints fmt b = Inr (nparams, [int (payload_idx p), k])" "1 \<le> k" "k < 2 ^ 32"
    and "ack = dat_get_system_var c st (dm_sys_ack (data_map p)) s"
    and "index = dat_get_system_var c st (dm_sys_index (data_map p)) s" "0 \<le> ack" "ack \<le> index" "index \<le> INT_MAX"
  shows "\<exists>s'. tm_set_ack c st fmt (Some b) nparams s = Inr (CMD_OK, s') \<and> dat_inv c st s' \<and>
    (\<forall>v. v \<noteq> dm_sys_ack (data_map p) \<longrightarrow> dat_get_system_var c st v s' = dat_get_system_var c st v s) \<and>
    (ack + k \<le> INT_MAX \<longrightarrow> dat_get_system_var c st (dm_sys_ack (data_map p)) s' = min (ack + k) index) \<and>
    (INT_MAX < ack + k \<and> ack + k < 2 ^ 32 \<longrightarrow> dat_get_system_var c st (dm_sys_ack (data_map p)) s' < 0)"
proof -
  let ?a = "if i32 (ack + k) > index then index else i32 (ack + k)"
  have r: "in_i32 ?a" using i32_range [of "ack + k"] assms(7-9) by (auto simp: in_i32_def)
  have run: "tm_set_ack c st fmt (Some b) nparams s =
      Inr (CMD_OK, dat_set_system_var c st (dm_sys_ack (data_map p)) ?a s)"
    using assms(2,3,7,8) by (simp add: tm_set_ack_def Let_def flip: assms(5,6))
  have "i32 (ack + k) = ack + k" if "ack + k \<le> INT_MAX"
    using that assms(3,7) by (intro i32_id) (simp add: in_i32_def)
  moreover have "i32 (ack + k) < 0" if "INT_MAX < ack + k" "ack + k < 2 ^ 32"
    using that by (simp add: i32_wrap)
  ultimately show ?thesis
    using run assms(1,7,8) dr.get_set [OF assms(1) r] dr.inv_set [OF assms(1) r] by auto
qed

lemma tm_set_ack_spec_witness:
  "let s = dat_set_system_var config_h no_storage dat_mem_gps 5 dat_zero in
   (\<exists>s'. tm_set_ack config_h no_storage ''%u %u'' (Some (text_block ''4 3'')) 2 s = Inr (CMD_OK, s') \<and>
      dat_get_system_var config_h no_storage dat_mem_ack_gps s' = 3) \<and>
   (\<exists>s'. tm_set_ack config_h no_storage ''%u %u'' (Some (text_block ''4 3000000000'')) 2 s = Inr (CMD_OK, s') \<and>
      dat_get_system_var config_h no_storage dat_mem_ack_gps s' < 0)"
proof -
  let ?s = "dat_set_system_var config_h no_storage dat_mem_gps 5 dat_zero"
  have inv: "dat_inv config_h no_storage ?s" using dat_zero_inv by (simp add: dat_simps in_i32_def)
  have a: "scan_ints ''%u %u'' (text_block ''4 3'') = Inr (2, [int (payload_idx gps_sensors), 3])" by code_simp
  have b: "scan_ints ''%u %u'' (text_block ''4 3000000000'') = Inr (2, [int (payload_idx gps_sensors), 3000000000])"
    by (simp add: scan_ints_def text_block_def c_str_def sscanf_def conversion_def isspace_def isdigit_def
        scan_num_def scan_sign_def dec_val_def digit_val_def store_uint_def u32_def less_eq_char_def Let_def)
  have g: "0 = dat_get_system_var config_h no_storage (dm_sys_ack (data_map gps_sensors)) ?s"
    "5 = dat_get_system_var config_h no_storage (dm_sys_index (data_map gps_sensors)) ?s"
    using dat_zero_inv by (simp_all add: dat_simps in_i32_def)
      (simp add: dat_get_system_var_def cell_get_def config_h_def dat_zero_def)
  have "\<exists>s'. tm_set_ack config_h no_storage ''%u %u'' (Some (text_block ''4 3'')) 2 ?s = Inr (CMD_OK, s') \<and>
      dat_get_system_var config_h no_storage dat_mem_ack_gps s' = 3"
    using tm_set_ack_spec [OF inv a _ _ g] by (simp del: One_nat_def) blast
  moreover have "\<exists>s'. tm_set_ack config_h no_storage ''%u %u'' (Some (text_block ''4 3000000000'')) 2 ?s = Inr (CMD_OK, s') \<and>
      dat_get_system_var config_h no_storage dat_mem_ack_gps s' < 0"
    using tm_set_ack_spec [OF inv b _ _ g] by simp blast
  ultimately show ?thesis unfolding Let_def by blast
qed

end
