(* ===== verification/TaskCommunications.thy ===== *)
theory TaskCommunications
  imports TaskCommon CmdTM
begin

text \<open>
  What the communications task does with the contents of a packet (\<^verbatim>\<open>com_receive_tc\<close>, \<^verbatim>\<open>com_receive_cmd\<close> and
  \<^verbatim>\<open>com_receive_tm\<close> in \<^verbatim>\<open>taskCommunications.c\<close>).  A packet is the contents of its buffer and its length.
\<close>

section \<open>Packets\<close>

record csp_packet =
  p_data :: "u8 list"   \<comment> \<open>the whole data area of the buffer\<close>
  p_length :: nat

text \<open>\<^verbatim>\<open>packet->data[packet->length] = '\\0'\<close>, then the data as a C string.\<close>

definition packet_text :: "csp_packet \<Rightarrow> string c_result" where
  "packet_text pkt =
     (if p_length pkt < length (p_data pkt) then c_str (chars_of ((p_data pkt)[p_length pkt := 0]))
      else Inl HeapOverflow)"

section \<open>Telecommands\<close>

definition com_receive_tc :: "sch_config \<Rightarrow> cmd_repo \<Rightarrow> csp_packet \<Rightarrow> cmd_t list c_result" where
  "com_receive_tc c r packet =
     c_bind (packet_text packet) (\<lambda>msg.
     c_bind (c_mapM (parse_and_send c r) (strtok_all (CHR '';'') msg)) (\<lambda>kss. Inr (concat kss)))"

definition com_receive_cmd :: "sch_config \<Rightarrow> cmd_repo \<Rightarrow> csp_packet \<Rightarrow> cmd_t list c_result" where
  "com_receive_cmd c r packet = c_bind (packet_text packet) (parse_and_send c r)"

section \<open>Telemetry\<close>

text \<open>\<^verbatim>\<open>(com_frame_t *) packet->data\<close>\<close>

definition frame_of :: "u8 list \<Rightarrow> com_frame" where
  "frame_of b = \<lparr> f_nframe = word_of_nat (le_nat (take 2 b)), f_type = word_of_nat (le_nat (take 2 (drop 2 b))),
     f_ndata = word_of_nat (le_nat (take 4 (drop 4 b))), f_data = take COM_FRAME_MAX_LEN (drop 8 b) \<rparr>"

text \<open>
  The loop that stores the samples: sample \<open>j\<close> starts at \<open>j * size\<close>, and storing it reads that many
  bytes, past the end of the frame's data when they are not there.
\<close>

fun store_samples ::
  "sch_config \<Rightarrow> 'x storage \<Rightarrow> payload_id \<Rightarrow> u8 list \<Rightarrow> nat \<Rightarrow> 'x dat_state \<Rightarrow> 'x dat_state c_result" where
  "store_samples c st payload b 0 s = Inr s"
| "store_samples c st payload b (Suc ndata) s =
     (let size = dm_size (data_map payload) in
      if length b < size then Inl OutOfBounds
      else store_samples c st payload (drop size b) ndata
             (snd (dat_add_payload_sample c st (take size b) payload s)))"

definition com_receive_tm ::
  "sch_config \<Rightarrow> 'x storage \<Rightarrow> cmd_repo \<Rightarrow> csp_packet \<Rightarrow> 'x dat_state \<Rightarrow> (cmd_t list \<times> 'x dat_state) c_result" where
  "com_receive_tm c st r packet s =
     (let frame = frame_of (p_data packet); type = uint (f_type frame) in
      if type = TM_TYPE_STATUS then
        c_bind (cmd_get_str c ''tm_parse_status'' r) (\<lambda>k.
        c_bind (cmd_add_params_raw k (Some (chars_of (f_data frame))) COM_FRAME_MAX_LEN) (\<lambda>k.
          Inr (case k of None \<Rightarrow> [] | Some k \<Rightarrow> [k], s)))
      else if type \<ge> TM_TYPE_PAYLOAD \<and> type < TM_TYPE_PAYLOAD + int last_sensor then
        case payload_of (type - TM_TYPE_PAYLOAD) of
          Some payload \<Rightarrow>
            if unat (f_ndata frame * word_of_nat (dm_size (data_map payload))) \<le> COM_FRAME_MAX_LEN then
              c_bind (store_samples c st payload (f_data frame) (unat (f_ndata frame)) s) (\<lambda>s. Inr ([], s))
            else Inl AssertFailed
        | None \<Rightarrow> Inl OutOfBounds
      else Inr ([], s))"

section \<open>Telecommand frames\<close>

text \<open>The frame \<^verbatim>\<open>line;line;...\<close>.\<close>

fun tc_frame :: "string list \<Rightarrow> string" where
  "tc_frame [] = []"
| "tc_frame [l] = l"
| "tc_frame (l # ls) = l @ CHR '';'' # tc_frame ls"

definition tc_line :: "string \<Rightarrow> bool" where
  "tc_line l \<longleftrightarrow> l \<noteq> [] \<and> CHR '';'' \<notin> set l \<and> NUL \<notin> set l"

lemma strtok_tc_frame: "list_all tc_line ls \<Longrightarrow> strtok_all (CHR '';'') (tc_frame ls) = ls"
  by (induction ls rule: tc_frame.induct) (simp_all add: tc_line_def strtok_all_last strtok_all_token)

lemma NUL_tc_frame: "list_all tc_line ls \<Longrightarrow> c_string (tc_frame ls)"
  by (induction ls rule: tc_frame.induct) (auto simp: tc_line_def c_string_def)

text \<open>The packet that carries a text: its bytes, and whatever the buffer holds behind them.\<close>

definition text_packet :: "string \<Rightarrow> u8 list \<Rightarrow> csp_packet" where
  "text_packet msg rest = \<lparr> p_data = bytes_of msg @ rest, p_length = length msg \<rparr>"

lemma packet_text_packet:
  assumes "c_string msg" "rest \<noteq> []"
  shows "packet_text (text_packet msg rest) = Inr msg"
proof -
  obtain x xs where r: "rest = x # xs" using assms(2) by (cases rest) auto
  have "length (bytes_of msg) = length msg" by simp
  then have "(bytes_of msg @ rest)[length msg := 0] = bytes_of msg @ 0 # xs"
    using list_update_length [of "bytes_of msg" x xs 0] by (simp add: r)
  moreover have "char_of (0 :: nat) = NUL" by code_simp
  ultimately show ?thesis using assms char_of_bytes [of msg] \<open>length (bytes_of msg) = length msg\<close>
    by (simp add: packet_text_def text_packet_def r) (simp add: chars_of_def)
qed

text \<open>
  C24.  A telecommand frame.  The packet \<^verbatim>\<open>line;line;...\<close> is executed as its lines one after the other:
  the commands sent are those the lines parse to, in their order, and lines that parse to no command
  are skipped.  Nothing in the packet's buffer behind the frame matters.
\<close>

theorem com_receive_tc_spec:
  assumes "length (cmd_list r) = cmd_max_entries c" "list_all tc_line ls" "rest \<noteq> []"
  shows "\<exists>ks. com_receive_tc c r (text_packet (tc_frame ls) rest) = Inr (concat ks) \<and>
    list_all2 (\<lambda>l k. \<exists>res. cmd_parse_from_str c l r = Inr res \<and> k = (case res of None \<Rightarrow> [] | Some x \<Rightarrow> [x])) ls ks"
proof -
  note p = parse_and_send_built [OF assms(1)]
  let ?ks = "map (\<lambda>l. projr (parse_and_send c r l)) ls"
  have "com_receive_tc c r (text_packet (tc_frame ls) rest) = Inr (concat ?ks)"
    using packet_text_packet [OF NUL_tc_frame [OF assms(2)] assms(3)] c_mapM_total [of ls "parse_and_send c r"] p
    by (simp add: com_receive_tc_def strtok_tc_frame [OF assms(2)])
  moreover have "\<exists>res. cmd_parse_from_str c l r = Inr res \<and>
      projr (parse_and_send c r l) = (case res of None \<Rightarrow> [] | Some x \<Rightarrow> [x])" for l
    using p [of l] by (cases "cmd_parse_from_str c l r") (auto simp: parse_and_send_def)
  ultimately show ?thesis
    by (intro exI [of _ ?ks]) (simp add: list_all2_map2 list_all2_same)
qed

theorem com_receive_tc_spec_witness:
  "com_receive_tc small_config small_repo (text_packet ''go 7 8;none; go'' [0]) =
     Inr [\<lparr> c_id = 0, c_nparams = 2, c_fmt = ''%d %d'', c_params = Some (''7 8'' @ [NUL]), c_function = ''f'' \<rparr>,
          \<lparr> c_id = 0, c_nparams = 2, c_fmt = ''%d %d'', c_params = None, c_function = ''f'' \<rparr>]"
proof -
  have len: "length (cmd_list small_repo) = cmd_max_entries small_config"
    by (simp add: small_repo_def small_config_def)
  let ?ls = "[''go 7 8'', ''none'', '' go'']"
  have f: "tc_frame ?ls = ''go 7 8;none; go''" by simp
  have l: "list_all tc_line ?ls" by (simp add: tc_line_def)
  have e: "cmd_parse_from_str small_config ''go 7 8'' small_repo = Inr (Some \<lparr> c_id = 0, c_nparams = 2,
      c_fmt = ''%d %d'', c_params = Some (''7 8'' @ [NUL]), c_function = ''f'' \<rparr>)"
    "cmd_parse_from_str small_config ''none'' small_repo = Inr None"
    "cmd_parse_from_str small_config '' go'' small_repo = Inr (Some \<lparr> c_id = 0, c_nparams = 2,
      c_fmt = ''%d %d'', c_params = None, c_function = ''f'' \<rparr>)"
    by code_simp+
  show ?thesis
    using com_receive_tc_spec [OF len l, of "[0]"] unfolding f
    by (auto simp: list_all2_Cons1 e)
qed

section \<open>Telemetry frames\<close>

text \<open>A frame is read back from the bytes it was sent as.\<close>

lemma frame_of_frame_bytes:
  assumes "length (f_data f) = COM_FRAME_MAX_LEN"
  shows "frame_of (frame_bytes f @ rest) = f"
proof -
  have "unat (f_nframe f) < 65536" "unat (f_type f) < 65536" "unat (f_ndata f) < 4294967296"
    using unsigned_less [of "f_nframe f", where 'a = nat] unsigned_less [of "f_type f", where 'a = nat] unsigned_less [of "f_ndata f", where 'a = nat] by simp_all
  then show ?thesis using assms
    by (cases f) (simp add: frame_of_def frame_bytes_def le_nat_le_bytes)
qed

lemma store_samples_all:
  assumes "\<forall>b \<in> set bs. length b = dm_size (data_map p)"
  shows "store_samples c st p (concat bs @ rest) (length bs) s =
    Inr (fold (\<lambda>b s. snd (dat_add_payload_sample c st b p s)) bs s)"
  using assms by (induction bs arbitrary: s) (simp_all add: Let_def)

lemma store_samples_overrun:
  assumes "length b < n * dm_size (data_map p)"
  shows "store_samples c st p b n s = Inl OutOfBounds"
  using assms
proof (induction n arbitrary: b s)
  case (Suc n)
  show ?case
  proof (cases "length b < dm_size (data_map p)")
    case False
    then have "length (drop (dm_size (data_map p)) b) < n * dm_size (data_map p)" using Suc.prems by simp
    then show ?thesis using False Suc.IH by (simp add: Let_def)
  qed (simp add: Let_def)
qed simp

lemma payload_type:
  assumes "f_type f = word_of_int (TM_TYPE_PAYLOAD + int (payload_idx p))"
  shows "uint (f_type f) = TM_TYPE_PAYLOAD + int (payload_idx p)"
    "int (payload_idx p) < int last_sensor"
proof -
  show "int (payload_idx p) < int last_sensor" by (cases p) simp_all
  show "uint (f_type f) = TM_TYPE_PAYLOAD + int (payload_idx p)" by (cases p) (simp_all add: assms)
qed

lemma com_receive_tm_payload:
  assumes "f_type f = word_of_int (TM_TYPE_PAYLOAD + int (payload_idx p))"
    "length (f_data f) = COM_FRAME_MAX_LEN" "p_data pkt = frame_bytes f @ rest" "z = dm_size (data_map p)"
  shows "com_receive_tm c st r pkt s =
      (if (unat (f_ndata f) * z) mod 4294967296 \<le> COM_FRAME_MAX_LEN then
         c_bind (store_samples c st p (f_data f) (unat (f_ndata f)) s) (\<lambda>s. Inr ([], s))
       else Inl AssertFailed)"
proof -
  note type = payload_type [OF assms(1)]
  have z: "z < 4294967296" unfolding assms(4) by (cases p) simp_all
  have prod: "unat (f_ndata f * word_of_nat z) = (unat (f_ndata f) * z) mod 4294967296"
    using z by (simp add: unat_word_ariths unat_of_nat take_bit_nat_eq_self)
  show ?thesis
    using type(2) by (simp add: com_receive_tm_def Let_def assms(3) frame_of_frame_bytes [OF assms(2)] type(1)
      prod [unfolded assms(4)] assms(4))
qed

lemma com_receive_tm_stores:
  assumes "f_type f = word_of_int (TM_TYPE_PAYLOAD + int (payload_idx p))"
    "length (f_data f) = COM_FRAME_MAX_LEN" "p_data pkt = frame_bytes f @ rest" "z = dm_size (data_map p)"
    "length bs = unat (f_ndata f)" "\<forall>b \<in> set bs. length b = z" "take (length (concat bs)) (f_data f) = concat bs"
    "unat (f_ndata f) * z \<le> COM_FRAME_MAX_LEN"
  shows "com_receive_tm c st r pkt s = Inr ([], fold (\<lambda>b s. snd (dat_add_payload_sample c st b p s)) bs s)"
proof -
  have "f_data f = concat bs @ drop (length (concat bs)) (f_data f)"
    using assms(7) append_take_drop_id [of "length (concat bs)" "f_data f"] by simp
  then have "store_samples c st p (f_data f) (unat (f_ndata f)) s =
      Inr (fold (\<lambda>b s. snd (dat_add_payload_sample c st b p s)) bs s)"
    using store_samples_all [of bs p c st "drop (length (concat bs)) (f_data f)" s] assms(4-6) by simp
  then show ?thesis using com_receive_tm_payload [OF assms(1-4), of c st r s] assms(8) by simp
qed



section \<open>From one satellite's storage to the other end's\<close>

text \<open>The frames received one after the other.\<close>

fun receive_frames ::
  "sch_config \<Rightarrow> 'x storage \<Rightarrow> cmd_repo \<Rightarrow> com_data list \<Rightarrow> 'x dat_state \<Rightarrow> 'x dat_state c_result" where
  "receive_frames c st r [] s = Inr s"
| "receive_frames c st r (d # ds) s =
     c_bind (com_receive_tm c st r \<lparr> p_data = frame_bytes (d_frame d), p_length = 200 \<rparr> s)
       (\<lambda>(ks, s). receive_frames c st r ds s)"

lemma receive_frames_stores:
  assumes "\<And>i s. com_receive_tm c st r \<lparr> p_data = frame_bytes (d_frame (d i)), p_length = 200 \<rparr> s =
      Inr ([], fold add (bs i) s)"
  shows "receive_frames c st r (map d is) s = Inr (fold add (concat (map bs is)) s)"
  by (induction "is" arbitrary: s) (simp_all add: assms)



section \<open>Every packet\<close>

lemma dat_add_payload_sample_keeps:
  assumes "payload_inv c st s"
  shows "payload_inv c st (snd (dat_add_payload_sample c st b p s))"
    "v \<noteq> dm_sys_index (data_map p) \<Longrightarrow>
       dat_get_system_var c st v (snd (dat_add_payload_sample c st b p s)) = dat_get_system_var c st v s"
proof -
  let ?i = "dat_get_system_var c st (dm_sys_index (data_map p)) s"
  let ?t = "if has_payload_storage c then s\<lparr> ext := snd (st_set_payload_data st ?i b p (ext s)) \<rparr> else s"
  have t: "payload_inv c st ?t" "dat_get_system_var c st v ?t = dat_get_system_var c st v s" for v
    using payload_write [OF assms refl] assms by simp_all
  have r: "snd (dat_add_payload_sample c st b p s) = ?t \<or>
      snd (dat_add_payload_sample c st b p s) = dat_set_system_var c st (dm_sys_index (data_map p)) (i32 (?i + 1)) ?t"
    by (auto simp: dat_add_payload_sample_def Let_def split: prod.splits)
  have inv: "dat_inv c st ?t" using t(1) by (simp add: payload_inv_def)
  show "payload_inv c st (snd (dat_add_payload_sample c st b p s))"
    using r t(1) payload_set_var(1) [OF t(1), of "i32 (?i + 1)"] by auto
  assume "v \<noteq> dm_sys_index (data_map p)"
  then show "dat_get_system_var c st v (snd (dat_add_payload_sample c st b p s)) = dat_get_system_var c st v s"
    using r t(2) [of v] dat_get_set [OF inv, of "i32 (?i + 1)" v "dm_sys_index (data_map p)"] by auto
qed

lemma store_samples_keeps:
  assumes "payload_inv c st s" "store_samples c st p b n s = Inr s'" "v \<noteq> dm_sys_index (data_map p)"
  shows "dat_get_system_var c st v s' = dat_get_system_var c st v s"
  using assms
proof (induction n arbitrary: b s)
  case (Suc n)
  let ?s = "snd (dat_add_payload_sample c st (take (dm_size (data_map p)) b) p s)"
  have "store_samples c st p (drop (dm_size (data_map p)) b) n ?s = Inr s'"
    using Suc.prems(2) by (simp add: Let_def split: if_splits)
  then show ?case
    using Suc.IH [OF dat_add_payload_sample_keeps(1) [OF Suc.prems(1)]] Suc.prems(3)
      dat_add_payload_sample_keeps(2) [OF Suc.prems(1,3)] by simp
qed simp

lemma com_receive_tm_keeps:
  assumes "payload_inv c st s" "com_receive_tm c st r pkt s = Inr (ks, s')" "v \<in> {dat_com_count_tc, dat_com_last_tc}"
  shows "dat_get_system_var c st v s' = dat_get_system_var c st v s"
proof -
  have "v \<noteq> dm_sys_index (data_map p)" for p using assms(3) by (cases p) auto
  then show ?thesis using assms(2) store_samples_keeps [OF assms(1)]
    by (auto simp: com_receive_tm_def Let_def c_bind_Inr_iff split: if_splits option.splits)
qed

definition sample_zero :: "(int \<Rightarrow> payload_id \<Rightarrow> u8 list) dat_state" where
  "sample_zero = \<lparr> var_buff = replicate 171 0, ext = \<lambda>_ _. [], fplan = fp_initial, sec = 0 \<rparr>"

lemma sample_zero_inv: "payload_inv config_h sample_storage sample_zero"
  by (auto simp: payload_inv_def dat_inv_def config_h_def buff_size_def sample_zero_def payload_store_def
      sample_storage_def intro!: exI [of _ "\<lambda>_. True"])

end
