(* ===== verification/CommServer.thy ===== *)
theory CommServer
  imports TaskCommunications
begin

text \<open>
  The loop of the communications task (\<^verbatim>\<open>taskCommunications\<close> in \<^verbatim>\<open>taskCommunications.c\<close>): it opens a socket,
  keeps one buffer as the pattern of its answers, accepts connections and serves their packets.  The
  buffers belong to the CSP library and are lent to the task; the model keeps which of them the task
  holds, so that a buffer used after it was given back is a fault and one never given back stays lent.
\<close>

section \<open>The library\<close>

text \<open>
  The calls of the task, over the state \<open>'n\<close> of the library.  A buffer and a connection are numbers;
  \<open>sv_read\<close> also gives the contents of the buffer.  \<open>sv_lent\<close> are the buffers the task holds.
\<close>

record 'n csp_server =
  sv_bind :: "'n \<Rightarrow> int \<times> 'n"
  sv_listen :: "'n \<Rightarrow> int \<times> 'n"
  sv_buffer_get :: "nat \<Rightarrow> 'n \<Rightarrow> nat option \<times> 'n"
  sv_accept :: "'n \<Rightarrow> nat option \<times> 'n"
  sv_read :: "nat \<Rightarrow> 'n \<Rightarrow> (nat \<times> csp_packet) option \<times> 'n"
  sv_close :: "nat \<Rightarrow> 'n \<Rightarrow> 'n"
  sv_dport :: "nat \<Rightarrow> 'n \<Rightarrow> nat"
  sv_dst :: "nat \<Rightarrow> 'n \<Rightarrow> nat"
  sv_clone :: "nat \<Rightarrow> 'n \<Rightarrow> nat option \<times> 'n"
  sv_free :: "nat \<Rightarrow> 'n \<Rightarrow> 'n"
  sv_send :: "nat \<Rightarrow> nat option \<Rightarrow> 'n \<Rightarrow> bool \<times> 'n"
  sv_sendto :: "nat \<Rightarrow> nat \<Rightarrow> nat \<Rightarrow> 'n \<Rightarrow> int \<times> 'n"
  sv_service :: "nat \<Rightarrow> nat \<Rightarrow> 'n \<Rightarrow> 'n"
  sv_lent :: "'n \<Rightarrow> nat set"

abbreviation (input) SCH_COMM_ADDRESS :: nat where "SCH_COMM_ADDRESS \<equiv> 1"
abbreviation (input) SCH_RESEND_TM_NODE :: nat where "SCH_RESEND_TM_NODE \<equiv> 11"
abbreviation (input) SCH_BUFFERS_CSP :: nat where "SCH_BUFFERS_CSP \<equiv> 5"
abbreviation (input) CSP_BROADCAST_ADDR :: nat where "CSP_BROADCAST_ADDR \<equiv> 31"

text \<open>A call that is given a buffer; the task has to hold it.\<close>

definition with_buf :: "'n csp_server \<Rightarrow> nat \<Rightarrow> ('n \<Rightarrow> 'r) \<Rightarrow> 'n \<Rightarrow> 'r c_result" where
  "with_buf sv h f n = (if h \<in> sv_lent sv n then Inr (f n) else Inl UseAfterFree)"

section \<open>One packet\<close>

text \<open>
  \<^verbatim>\<open>rep_ok = csp_buffer_clone(rep_ok_tmp); csp_send(conn, rep_ok, 1000);\<close> with the number of buffers that
  stay behind: a copy that could not be sent is not given back.
\<close>

definition send_rep_ok :: "'n csp_server \<Rightarrow> nat \<Rightarrow> nat \<Rightarrow> 'n \<Rightarrow> (nat \<times> 'n) c_result" where
  "send_rep_ok sv conn rep_ok_tmp n =
     c_bind (with_buf sv rep_ok_tmp (sv_clone sv rep_ok_tmp) n) (\<lambda>(rep_ok, n).
     case rep_ok of
       None \<Rightarrow> Inr (0, snd (sv_send sv conn None n))
     | Some h \<Rightarrow> c_bind (with_buf sv h (sv_send sv conn (Some h)) n) (\<lambda>(ok, n). Inr (if ok then 0 else 1, n)))"

text \<open>The copy of a telemetry packet for another node.\<close>

definition resend_tm :: "'n csp_server \<Rightarrow> nat option \<Rightarrow> 'n \<Rightarrow> 'n c_result" where
  "resend_tm sv tmp_packet n =
     (case tmp_packet of
        None \<Rightarrow> Inl AssertFailed
      | Some t \<Rightarrow> c_bind (with_buf sv t (sv_sendto sv SCH_RESEND_TM_NODE SCH_TRX_PORT_TM t) n) (\<lambda>(rc, n).
          if rc = -1 then with_buf sv t (sv_free sv t) n else Inr n))"

text \<open>
  The body of the reading loop for the buffer \<open>h\<close> with the contents \<open>packet\<close>; \<open>info\<close> says that the build
  logs at least informative messages.  The result: the commands sent, the data, the buffers that stay
  behind.
\<close>

definition serve_packet ::
  "'n csp_server \<Rightarrow> sch_config \<Rightarrow> 'x storage \<Rightarrow> cmd_repo \<Rightarrow> bool \<Rightarrow> int \<Rightarrow> nat \<Rightarrow> nat \<Rightarrow> nat \<Rightarrow> csp_packet \<Rightarrow>
     'x dat_state \<Rightarrow> 'n \<Rightarrow> (cmd_t list \<times> 'x dat_state \<times> nat \<times> 'n) c_result" where
  "serve_packet sv c st r info clock conn rep_ok_tmp h packet s n =
     (let count_tc = i32 (dat_get_system_var c st dat_com_count_tc s + 1);
          s = dat_set_system_var c st dat_com_count_tc count_tc s;
          s = dat_set_system_var c st dat_com_last_tc (i32 clock) s;
          dport = sv_dport sv conn n
      in if dport = SCH_TRX_PORT_TC then
           c_bind (with_buf sv h (\<lambda>_. com_receive_tc c r packet) n) (\<lambda>res. c_bind res (\<lambda>ks.
           c_bind (with_buf sv h (sv_free sv h) n) (\<lambda>n.
           c_bind (send_rep_ok sv conn rep_ok_tmp n) (\<lambda>(left, n). Inr (ks, s, left, n)))))
         else if dport = SCH_TRX_PORT_TM then
           c_bind (if platform_of c = LINUX then with_buf sv h (sv_clone sv h) n else Inr (None, n)) (\<lambda>(tmp_packet, n).
           c_bind (with_buf sv h (\<lambda>_. com_receive_tm c st r packet s) n) (\<lambda>res. c_bind res (\<lambda>(ks, s).
           c_bind (with_buf sv h (sv_free sv h) n) (\<lambda>n.
           c_bind (send_rep_ok sv conn rep_ok_tmp n) (\<lambda>(left, n).
           c_bind (if platform_of c = LINUX then resend_tm sv tmp_packet n else Inr n) (\<lambda>n.
             Inr (ks, s, left, n)))))))
         else if dport = SCH_TRX_PORT_RPT then
           if sv_dst sv conn n = SCH_COMM_ADDRESS then
             c_bind (with_buf sv h (sv_sendto sv CSP_BROADCAST_ADDR SCH_TRX_PORT_RPT h) n) (\<lambda>(rc, n).
             c_bind (if rc \<noteq> 0 then with_buf sv h (sv_free sv h) n else Inr n) (\<lambda>n. Inr ([], s, 0, n)))
           else
             c_bind (if info then with_buf sv h (\<lambda>_. c_str (chars_of (p_data packet))) n else Inr (Inr [])) (\<lambda>res.
             c_bind res (\<lambda>_.
             c_bind (with_buf sv h (sv_free sv h) n) (\<lambda>n. Inr ([], s, 0, n))))
         else if dport = SCH_TRX_PORT_CMD then
           c_bind (with_buf sv h (\<lambda>_. com_receive_cmd c r packet) n) (\<lambda>res. c_bind res (\<lambda>ks.
           c_bind (with_buf sv h (sv_free sv h) n) (\<lambda>n.
           c_bind (send_rep_ok sv conn rep_ok_tmp n) (\<lambda>(left, n). Inr (ks, s, left, n)))))
         else c_bind (with_buf sv h (sv_service sv conn h) n) (\<lambda>n. Inr ([], s, 0, n)))"

section \<open>The loop\<close>

text \<open>
  Where the task is, the data, the library, the commands sent so far and the number of answers that
  could not be sent; \<open>rep_tmp\<close> is the pattern of the answers.
\<close>

datatype srv_pc = SrvAccept | SrvRead nat

record ('x, 'n) srv_state =
  srv_pc :: srv_pc
  srv_data :: "'x dat_state"
  srv_net :: 'n
  srv_sent :: "cmd_t list"
  srv_left :: nat
  rep_tmp :: nat

text \<open>The part before the loop; None when the task returns because the socket cannot be used.\<close>

definition comm_start :: "'n csp_server \<Rightarrow> 'x dat_state \<Rightarrow> 'n \<Rightarrow> ('x, 'n) srv_state option c_result" where
  "comm_start sv s n =
     (let (rc, n) = sv_bind sv n in
      if rc \<noteq> 0 then Inr None
      else let (rc, n) = sv_listen sv n in
        if rc \<noteq> 0 then Inr None
        else case sv_buffer_get sv 1 n of
          (None, n) \<Rightarrow> Inl NullDeref
        | (Some h, n) \<Rightarrow> Inr (Some \<lparr> srv_pc = SrvAccept, srv_data = s, srv_net = n, srv_sent = [], srv_left = 0, rep_tmp = h \<rparr>))"

text \<open>One call of \<^verbatim>\<open>csp_accept\<close>, or one of \<^verbatim>\<open>csp_read\<close> with what follows it.\<close>

definition comm_step ::
  "'n csp_server \<Rightarrow> sch_config \<Rightarrow> 'x storage \<Rightarrow> cmd_repo \<Rightarrow> bool \<Rightarrow> int \<Rightarrow> ('x, 'n) srv_state \<Rightarrow> ('x, 'n) srv_state c_result" where
  "comm_step sv c st r info clock v =
     (case srv_pc v of
        SrvAccept \<Rightarrow> (case sv_accept sv (srv_net v) of
          (None, n) \<Rightarrow> Inr (v\<lparr> srv_net := n \<rparr>)
        | (Some conn, n) \<Rightarrow> Inr (v\<lparr> srv_pc := SrvRead conn, srv_net := n \<rparr>))
      | SrvRead conn \<Rightarrow> (case sv_read sv conn (srv_net v) of
          (None, n) \<Rightarrow> Inr (v\<lparr> srv_pc := SrvAccept, srv_net := sv_close sv conn n \<rparr>)
        | (Some (h, packet), n) \<Rightarrow>
            c_bind (serve_packet sv c st r info clock conn (rep_tmp v) h packet (srv_data v) n) (\<lambda>(ks, s, left, n).
              Inr (v\<lparr> srv_data := s, srv_net := n, srv_sent := srv_sent v @ ks, srv_left := srv_left v + left \<rparr>))))"

text \<open>The states at the head of a loop that the task can reach, at whatever times the calls return.\<close>

inductive comm_reach ::
  "'n csp_server \<Rightarrow> sch_config \<Rightarrow> 'x storage \<Rightarrow> cmd_repo \<Rightarrow> bool \<Rightarrow> ('x, 'n) srv_state \<Rightarrow> ('x, 'n) srv_state \<Rightarrow> bool"
  for sv c st r info v0 where
  comm_here: "comm_reach sv c st r info v0 v0"
| comm_next: "comm_reach sv c st r info v0 v \<Longrightarrow> comm_step sv c st r info clock v = Inr v' \<Longrightarrow>
    comm_reach sv c st r info v0 v'"

section \<open>Faults of the contents\<close>

text \<open>What a packet holds can stop the task, but not through a buffer that was given back.\<close>

lemma packet_text_fault: "packet_text pkt \<noteq> Inl UseAfterFree"
  by (simp add: packet_text_def c_str_def)

lemma com_receive_tc_fault:
  assumes "length (cmd_list r) = cmd_max_entries c"
  shows "com_receive_tc c r pkt \<noteq> Inl UseAfterFree"
proof (cases "packet_text pkt")
  case (Inr msg)
  then show ?thesis
    using c_mapM_total [of "strtok_all (CHR '';'') msg" "parse_and_send c r"] parse_and_send_built [OF assms]
    by (simp add: com_receive_tc_def)
qed (use packet_text_fault [of pkt] in \<open>simp add: com_receive_tc_def\<close>)

lemma com_receive_cmd_fault:
  assumes "length (cmd_list r) = cmd_max_entries c"
  shows "com_receive_cmd c r pkt \<noteq> Inl UseAfterFree"
proof (cases "packet_text pkt")
  case (Inr msg)
  obtain ks where "parse_and_send c r msg = Inr ks" using parse_and_send_built [OF assms] by blast
  then show ?thesis using Inr by (simp add: com_receive_cmd_def)
qed (use packet_text_fault [of pkt] in \<open>simp add: com_receive_cmd_def\<close>)

lemma store_samples_fault: "store_samples c st p b k s \<noteq> Inl UseAfterFree"
  by (induction k arbitrary: b s) (simp_all add: Let_def)

lemma com_receive_tm_fault:
  assumes "length (cmd_list r) = cmd_max_entries c"
  shows "com_receive_tm c st r pkt s \<noteq> Inl UseAfterFree"
proof -
  obtain k where k: "cmd_get_str c ''tm_parse_status'' r = Inr k" using cmd_get_str_contents [OF assms] by blast
  have raw: "cmd_add_params_raw k p len \<noteq> Inl UseAfterFree" for p len
    by (simp add: cmd_add_params_raw_def split: option.splits)
  show ?thesis
    using store_samples_fault [of c st] raw [of "Some (chars_of (f_data (frame_of (p_data pkt))))"]
    by (auto simp: com_receive_tm_def Let_def k c_bind_def split: sum.splits option.splits)
qed

section \<open>Bookkeeping\<close>

text \<open>
  Every packet the task handles to its end is counted and dated in the status variables, whatever its
  port; packets to other ports than those for telecommands, telemetry and commands send no command.
\<close>

lemma serve_packet_counted:
  assumes "payload_inv c st s" "serve_packet sv c st r info clock conn t h pkt s n = Inr (ks, s', left, n')"
  shows "dat_get_system_var c st dat_com_count_tc s' = i32 (dat_get_system_var c st dat_com_count_tc s + 1) \<and>
    dat_get_system_var c st dat_com_last_tc s' = i32 clock \<and>
    (sv_dport sv conn n \<notin> {SCH_TRX_PORT_TC, SCH_TRX_PORT_TM, SCH_TRX_PORT_CMD} \<longrightarrow> ks = [])"
proof -
  let ?t = "dat_set_system_var c st dat_com_last_tc (i32 clock)
     (dat_set_system_var c st dat_com_count_tc (i32 (dat_get_system_var c st dat_com_count_tc s + 1)) s)"
  have t: "payload_inv c st ?t" by (intro payload_set_var(1) assms(1) i32_range)
  have inv: "dat_inv c st s" using assms(1) by (simp add: payload_inv_def)
  have g: "dat_get_system_var c st dat_com_count_tc ?t = i32 (dat_get_system_var c st dat_com_count_tc s + 1)"
    "dat_get_system_var c st dat_com_last_tc ?t = i32 clock"
    using inv by (simp_all add: dat_simps)
  have run: "(s' = ?t \<or> com_receive_tm c st r pkt ?t = Inr (ks, s')) \<and>
      (sv_dport sv conn n \<notin> {SCH_TRX_PORT_TC, SCH_TRX_PORT_TM, SCH_TRX_PORT_CMD} \<longrightarrow> ks = [])"
    using assms(2) unfolding serve_packet_def Let_def
    by (simp add: c_bind_Inr_iff with_buf_def split: if_splits prod.splits) auto
  have "dat_get_system_var c st v s' = dat_get_system_var c st v ?t" if "v \<in> {dat_com_count_tc, dat_com_last_tc}" for v
    using run com_receive_tm_keeps [OF t _ that] by blast
  then show ?thesis using g run by simp
qed

section \<open>Buffers\<close>

text \<open>
  What the headers of the library promise of its buffers (\<^verbatim>\<open>csp.h\<close>, \<^verbatim>\<open>csp_buffer.h\<close>): a buffer that is handed
  out was not in the task's hands; one that is freed, sent or left to the service handler leaves them; a
  send that fails leaves the buffer with the task; there are \<open>SCH_BUFFERS_CSP\<close> buffers.
\<close>

text \<open>
  A packet served to its end leaves the task without its buffer, but with the answers that could not be
  sent; no buffer is used that the task does not hold.
\<close>

definition serve_ok :: "'n csp_server \<Rightarrow> nat \<Rightarrow> 'n \<Rightarrow> (cmd_t list \<times> 'x dat_state \<times> nat \<times> 'n) c_result \<Rightarrow> bool" where
  "serve_ok sv h n res \<longleftrightarrow> res \<noteq> Inl UseAfterFree \<and> (\<forall>ks s left n'. res = Inr (ks, s, left, n') \<longrightarrow>
     sv_lent sv n - {h} \<subseteq> sv_lent sv n' \<and> card (sv_lent sv n') + 1 = card (sv_lent sv n) + left)"

text \<open>At the head of the loops: the pattern of the answers, and the answers that could not be sent.\<close>

definition comm_inv :: "'n csp_server \<Rightarrow> ('x, 'n) srv_state \<Rightarrow> bool" where
  "comm_inv sv v \<longleftrightarrow> rep_tmp v \<in> sv_lent sv (srv_net v) \<and> card (sv_lent sv (srv_net v)) = Suc (srv_left v)"

locale csp_pool =
  fixes sv :: "'n csp_server"
  assumes bind: "sv_lent sv (snd (sv_bind sv n)) = sv_lent sv n"
    and listen: "sv_lent sv (snd (sv_listen sv n)) = sv_lent sv n"
    and accept: "sv_lent sv (snd (sv_accept sv n)) = sv_lent sv n"
    and close: "sv_lent sv (sv_close sv conn n) = sv_lent sv n"
    and get_some: "sv_buffer_get sv k n = (Some h, n') \<Longrightarrow> h \<notin> sv_lent sv n \<and> sv_lent sv n' = insert h (sv_lent sv n)"
    and read_some: "sv_read sv conn n = (Some (h, p), n') \<Longrightarrow> h \<notin> sv_lent sv n \<and> sv_lent sv n' = insert h (sv_lent sv n)"
    and read_none: "sv_read sv conn n = (None, n') \<Longrightarrow> sv_lent sv n' = sv_lent sv n"
    and clone_some: "sv_clone sv t n = (Some h, n') \<Longrightarrow> h \<notin> sv_lent sv n \<and> sv_lent sv n' = insert h (sv_lent sv n)"
    and clone_none: "sv_clone sv t n = (None, n') \<Longrightarrow> sv_lent sv n' = sv_lent sv n"
    and free: "h \<in> sv_lent sv n \<Longrightarrow> sv_lent sv (sv_free sv h n) = sv_lent sv n - {h}"
    and send_some: "h \<in> sv_lent sv n \<Longrightarrow> sv_send sv conn (Some h) n = (ok, n') \<Longrightarrow>
      sv_lent sv n' = (if ok then sv_lent sv n - {h} else sv_lent sv n)"
    and send_none: "sv_lent sv (snd (sv_send sv conn None n)) = sv_lent sv n"
    and sendto: "h \<in> sv_lent sv n \<Longrightarrow> sv_sendto sv dest dport h n = (rc, n') \<Longrightarrow>
      rc = 0 \<and> sv_lent sv n' = sv_lent sv n - {h} \<or> rc = -1 \<and> sv_lent sv n' = sv_lent sv n"
    and service: "h \<in> sv_lent sv n \<Longrightarrow> sv_lent sv (sv_service sv conn h n) = sv_lent sv n - {h}"
    and count: "finite (sv_lent sv n) \<and> card (sv_lent sv n) \<le> SCH_BUFFERS_CSP"
begin

text \<open>An answer leaves the task with what it held, and one more when the copy could not be sent.\<close>

lemma send_rep_ok_run:
  assumes "t \<in> sv_lent sv n"
  shows "\<exists>left n'. send_rep_ok sv conn t n = Inr (left, n') \<and> sv_lent sv n \<subseteq> sv_lent sv n' \<and>
    card (sv_lent sv n') = card (sv_lent sv n) + left"
proof (cases "sv_clone sv t n")
  case (Pair rep n1)
  show ?thesis
  proof (cases rep)
    case None
    then show ?thesis
      using Pair assms clone_none [of t n n1] send_none by (simp add: send_rep_ok_def with_buf_def)
  next
    case (Some h)
    obtain ok n2 where r: "sv_send sv conn (Some h) n1 = (ok, n2)" by (cases "sv_send sv conn (Some h) n1")
    have h: "h \<notin> sv_lent sv n" "sv_lent sv n1 = insert h (sv_lent sv n)"
      using clone_some [of t n h n1] Pair Some by simp_all
    have lent: "sv_lent sv n2 = (if ok then sv_lent sv n else insert h (sv_lent sv n))"
      using send_some [OF _ r] h by auto
    have "send_rep_ok sv conn t n = Inr (if ok then 0 else 1, n2)"
      using Pair assms Some r h by (simp add: send_rep_ok_def with_buf_def)
    then show ?thesis using lent h(1) count [of n] by (cases ok) auto
  qed
qed

lemma resend_tm_run:
  assumes "t \<in> sv_lent sv n"
  shows "\<exists>n'. resend_tm sv (Some t) n = Inr n' \<and> sv_lent sv n' = sv_lent sv n - {t}"
proof -
  obtain rc n1 where r: "sv_sendto sv SCH_RESEND_TM_NODE SCH_TRX_PORT_TM t n = (rc, n1)"
    by (cases "sv_sendto sv SCH_RESEND_TM_NODE SCH_TRX_PORT_TM t n")
  have run: "resend_tm sv (Some t) n = (if rc = -1 then with_buf sv t (sv_free sv t) n1 else Inr n1)"
    using assms r by (simp add: resend_tm_def with_buf_def)
  from sendto [OF assms r] show ?thesis
  proof
    assume "rc = -1 \<and> sv_lent sv n1 = sv_lent sv n"
    then show ?thesis using run free [of t n1] assms by (simp add: with_buf_def)
  qed (simp add: run)
qed

text \<open>Giving the packet back and answering.\<close>

lemma free_and_reply:
  assumes "h \<in> sv_lent sv n" "t \<in> sv_lent sv n" "h \<noteq> t"
  shows "\<exists>left n'. c_bind (with_buf sv h (sv_free sv h) n) (\<lambda>n. c_bind (send_rep_ok sv conn t n) (\<lambda>(left, n). f left n)) = f left n' \<and>
    sv_lent sv n - {h} \<subseteq> sv_lent sv n' \<and> card (sv_lent sv n') + 1 = card (sv_lent sv n) + left"
proof -
  have lent: "sv_lent sv (sv_free sv h n) = sv_lent sv n - {h}" by (rule free [OF assms(1)])
  obtain left n' where "send_rep_ok sv conn t (sv_free sv h n) = Inr (left, n')" "sv_lent sv n - {h} \<subseteq> sv_lent sv n'"
    "card (sv_lent sv n') = card (sv_lent sv n - {h}) + left"
    using send_rep_ok_run [of t "sv_free sv h n" conn] assms lent by auto
  moreover have "card (sv_lent sv n - {h}) + 1 = card (sv_lent sv n)"
    using assms(1) count [of n] card_Suc_Diff1 [of "sv_lent sv n" h] by simp
  ultimately show ?thesis using assms(1) by (intro exI [of _ left] exI [of _ n']) (simp add: with_buf_def)
qed

text \<open>The telemetry port, with the copy for another node.\<close>

lemma serve_tm_ok:
  assumes "h \<in> sv_lent sv n" "t \<in> sv_lent sv n" "h \<noteq> t" "res \<noteq> Inl UseAfterFree"
  shows "serve_ok sv h n
    (c_bind (if linux then with_buf sv h (sv_clone sv h) n else Inr (None, n)) (\<lambda>(tmp_packet, n).
     c_bind (with_buf sv h (\<lambda>_. res) n) (\<lambda>res. c_bind res (\<lambda>(ks, s).
     c_bind (with_buf sv h (sv_free sv h) n) (\<lambda>n.
     c_bind (send_rep_ok sv conn t n) (\<lambda>(left, n).
     c_bind (if linux then resend_tm sv tmp_packet n else Inr n) (\<lambda>n. Inr (ks, s, left, n))))))))"
proof -
  define tail where "tail tmp ks s n = c_bind (with_buf sv h (sv_free sv h) n) (\<lambda>n.
     c_bind (send_rep_ok sv conn t n) (\<lambda>(left, n).
     c_bind (if linux then resend_tm sv tmp n else Inr n) (\<lambda>n. Inr (ks :: cmd_t list, s :: 'a dat_state, left, n))))"
    for tmp ks s n
  have plain: "serve_ok sv h n (tail None ks s n1)" if "sv_lent sv n1 = sv_lent sv n" for ks s n1
    using free_and_reply [of h n1 t conn "\<lambda>left n. c_bind (if linux then resend_tm sv None n else Inr n) (\<lambda>n. Inr (ks, s, left, n))"]
      that assms(1-3)
    by (cases linux) (auto simp: serve_ok_def tail_def resend_tm_def)
  have copy: "serve_ok sv h n (tail (Some x) ks s n1)"
    if l: linux and x: "x \<notin> sv_lent sv n" "sv_lent sv n1 = insert x (sv_lent sv n)" for x ks s n1
  proof -
    have hx: "h \<noteq> x" using x(1) assms(1) by auto
    obtain left n2 where n2: "tail (Some x) ks s n1 = c_bind (resend_tm sv (Some x) n2) (\<lambda>n. Inr (ks, s, left, n))"
      "sv_lent sv n1 - {h} \<subseteq> sv_lent sv n2" "card (sv_lent sv n2) + 1 = card (sv_lent sv n1) + left"
      using free_and_reply [of h n1 t conn "\<lambda>left n. c_bind (resend_tm sv (Some x) n) (\<lambda>n. Inr (ks, s, left, n))"]
        assms(1-3) x l by (auto simp: tail_def)
    have xin: "x \<in> sv_lent sv n2" using n2(2) x(2) hx by auto
    obtain n3 where n3: "resend_tm sv (Some x) n2 = Inr n3" "sv_lent sv n3 = sv_lent sv n2 - {x}"
      using resend_tm_run [OF xin] by blast
    have "card (sv_lent sv n3) + 1 = card (sv_lent sv n2)"
      using n3(2) xin count [of n2] card_Suc_Diff1 [of "sv_lent sv n2" x] by simp
    moreover have "card (sv_lent sv n1) = card (sv_lent sv n) + 1" using x count [of n] by simp
    moreover have "sv_lent sv n - {h} \<subseteq> sv_lent sv n3" using n3(2) n2(2) x by auto
    ultimately show ?thesis using n2(1,3) n3(1) by (simp add: serve_ok_def)
  qed
  have kept: "h \<in> sv_lent sv n1" if "sv_clone sv h n = (tmp, n1)" for tmp n1
    using that clone_some [of h n _ n1] clone_none [of h n n1] assms(1) by (cases tmp) auto
  show ?thesis
  proof (cases res)
    case (Inl e)
    then show ?thesis
      using assms kept by (auto simp: serve_ok_def with_buf_def split: prod.splits)
  next
    case (Inr r)
    obtain ks s where r: "r = (ks, s)" by (cases r)
    show ?thesis
    proof (cases linux)
      case False
      then show ?thesis using plain [of n ks s] assms(1) Inr r by (simp add: tail_def with_buf_def)
    next
      case True
      obtain tmp n1 where cl: "sv_clone sv h n = (tmp, n1)" by (cases "sv_clone sv h n")
      show ?thesis
        using True Inr r cl kept [OF cl] assms(1) plain [of n1 ks s] copy [of _ n1 ks s] clone_some [of h n _ n1] clone_none [of h n n1]
        by (cases tmp) (simp_all add: tail_def with_buf_def)
    qed
  qed
qed

lemma serve_packet_ok:
  assumes "length (cmd_list r) = cmd_max_entries c" "h \<in> sv_lent sv n" "t \<in> sv_lent sv n" "h \<noteq> t"
  shows "serve_ok sv h n (serve_packet sv c st r info clock conn t h packet s n)"
proof -
  let ?s = "dat_set_system_var c st dat_com_last_tc (i32 clock)
     (dat_set_system_var c st dat_com_count_tc (i32 (dat_get_system_var c st dat_com_count_tc s + 1)) s)"
  have drop: "card (sv_lent sv n - {h}) + 1 = card (sv_lent sv n)"
    using assms(2) count [of n] card_Suc_Diff1 [of "sv_lent sv n" h] by simp
  have reply: "serve_ok sv h n (c_bind res (\<lambda>ks. c_bind (with_buf sv h (sv_free sv h) n) (\<lambda>n.
      c_bind (send_rep_ok sv conn t n) (\<lambda>(left, n). Inr (ks, ?s, left, n)))))"
    if "res \<noteq> Inl UseAfterFree" for res :: "cmd_t list c_result"
  proof (cases res)
    case (Inr ks)
    then show ?thesis
      using free_and_reply [OF assms(2-4), of conn "\<lambda>left n. Inr (ks, ?s, left, n)"] by (auto simp: serve_ok_def)
  qed (use that in \<open>simp add: serve_ok_def\<close>)
  have lose: "serve_ok sv h n (c_bind (with_buf sv h (sv_free sv h) n) (\<lambda>n. Inr ([], ?s, 0, n)))"
    using free [OF assms(2)] assms(2) drop by (simp add: serve_ok_def with_buf_def)
  consider (tc) "sv_dport sv conn n = SCH_TRX_PORT_TC" | (tm) "sv_dport sv conn n = SCH_TRX_PORT_TM"
    | (rpt) "sv_dport sv conn n = SCH_TRX_PORT_RPT" | (cmd) "sv_dport sv conn n = SCH_TRX_PORT_CMD"
    | (other) "sv_dport sv conn n \<notin> {9, 10, 11, 12}" by auto
  then show ?thesis
  proof cases
    case tc
    then show ?thesis using reply [OF com_receive_tc_fault [OF assms(1)]] assms(2) by (simp add: serve_packet_def with_buf_def)
  next
    case tm
    then show ?thesis
      using serve_tm_ok [where conn = conn and linux = "platform_of c = LINUX", OF assms(2-4) com_receive_tm_fault [OF assms(1), of st packet ?s]]
      by (simp add: serve_packet_def)
  next
    case rpt
    show ?thesis
    proof (cases "sv_dst sv conn n = SCH_COMM_ADDRESS")
      case True
      obtain rc n1 where r: "sv_sendto sv CSP_BROADCAST_ADDR SCH_TRX_PORT_RPT h n = (rc, n1)"
        by (cases "sv_sendto sv CSP_BROADCAST_ADDR SCH_TRX_PORT_RPT h n")
      show ?thesis
        using sendto [OF assms(2) r]
      proof
        assume "rc = -1 \<and> sv_lent sv n1 = sv_lent sv n"
        then show ?thesis using rpt True r free [of h n1] assms(2) drop by (simp add: serve_packet_def with_buf_def serve_ok_def)
      qed (use rpt True r assms(2) drop in \<open>simp add: serve_packet_def with_buf_def serve_ok_def\<close>)
    next
      case False
      have "c_str b \<noteq> Inl UseAfterFree" for b by (simp add: c_str_def)
      then show ?thesis
        using rpt False lose assms(2)
        by (cases "c_str (chars_of (p_data packet))") (auto simp: serve_packet_def with_buf_def serve_ok_def)
    qed
  next
    case cmd
    then show ?thesis using reply [OF com_receive_cmd_fault [OF assms(1)]] assms(2) by (simp add: serve_packet_def with_buf_def)
  next
    case other
    then show ?thesis using service [OF assms(2)] assms(2) drop by (simp add: serve_packet_def with_buf_def serve_ok_def)
  qed
qed

lemma comm_start_inv:
  assumes "sv_lent sv n = {}" "comm_start sv s n = Inr (Some v)"
  shows "comm_inv sv v"
proof -
  obtain rc n1 rc' n2 where n: "sv_bind sv n = (rc, n1)" "sv_listen sv n1 = (rc', n2)"
    by (cases "sv_bind sv n"; cases "sv_listen sv (snd (sv_bind sv n))") auto
  have "sv_lent sv n2 = {}" using bind [of n] listen [of n1] n assms(1) by simp
  then show ?thesis
    using assms(2) n get_some [of 1 n2]
    by (auto simp: comm_start_def comm_inv_def split: if_splits prod.splits option.splits)
qed

lemma comm_step_inv:
  assumes "length (cmd_list r) = cmd_max_entries c" "comm_inv sv v"
  shows "comm_step sv c st r info clock v \<noteq> Inl UseAfterFree"
    "comm_step sv c st r info clock v = Inr v' \<Longrightarrow> comm_inv sv v'"
proof -
  have inv: "rep_tmp v \<in> sv_lent sv (srv_net v)" "card (sv_lent sv (srv_net v)) = Suc (srv_left v)"
    using assms(2) by (simp_all add: comm_inv_def)
  have "comm_step sv c st r info clock v \<noteq> Inl UseAfterFree \<and>
      (comm_step sv c st r info clock v = Inr v' \<longrightarrow> comm_inv sv v')"
  proof (cases "srv_pc v")
    case SrvAccept
    then show ?thesis
      using inv accept [of "srv_net v"] by (cases "sv_accept sv (srv_net v)") (auto simp: comm_step_def comm_inv_def split: option.splits)
  next
    case (SrvRead conn)
    show ?thesis
    proof (cases "sv_read sv conn (srv_net v)")
      case (Pair pkt n)
      show ?thesis
      proof (cases pkt)
        case None
        then show ?thesis using SrvRead Pair inv read_none [of conn "srv_net v" n] close by (auto simp: comm_step_def comm_inv_def)
      next
        case (Some hp)
        obtain h p where hp: "hp = (h, p)" by (cases hp)
        have lent: "h \<notin> sv_lent sv (srv_net v)" "sv_lent sv n = insert h (sv_lent sv (srv_net v))"
          using read_some [of conn "srv_net v" h p n] Pair Some hp by simp_all
        have ok: "serve_ok sv h n (serve_packet sv c st r info clock conn (rep_tmp v) h p (srv_data v) n)"
          using inv(1) lent by (intro serve_packet_ok assms(1)) auto
        have "card (sv_lent sv n) = Suc (Suc (srv_left v))" using lent inv(2) count [of "srv_net v"] by simp
        moreover have "rep_tmp v \<in> sv_lent sv n - {h}" using inv(1) lent by auto
        ultimately show ?thesis
          using SrvRead Pair Some hp ok
          by (cases "serve_packet sv c st r info clock conn (rep_tmp v) h p (srv_data v) n")
             (auto simp: comm_step_def comm_inv_def serve_ok_def)
      qed
    qed
  qed
  then show "comm_step sv c st r info clock v \<noteq> Inl UseAfterFree"
    "comm_step sv c st r info clock v = Inr v' \<Longrightarrow> comm_inv sv v'" by simp_all
qed

lemma comm_reach_inv:
  assumes "length (cmd_list r) = cmd_max_entries c" "comm_inv sv v0" "comm_reach sv c st r info v0 v"
  shows "comm_inv sv v"
  using assms(3) by induction (use assms(2) comm_step_inv(2) [OF assms(1)] in auto)

text \<open>The task holds no more buffers than there are, and with all of them it hears nothing any more.\<close>

lemma deaf:
  assumes "comm_inv sv v"
  shows "srv_left v < SCH_BUFFERS_CSP" "Suc (srv_left v) = SCH_BUFFERS_CSP \<Longrightarrow> fst (sv_read sv conn (srv_net v)) = None"
proof -
  have card: "card (sv_lent sv (srv_net v)) = Suc (srv_left v)" using assms by (simp add: comm_inv_def)
  then show "srv_left v < SCH_BUFFERS_CSP" using count [of "srv_net v"] by simp
  assume full: "Suc (srv_left v) = SCH_BUFFERS_CSP"
  show "fst (sv_read sv conn (srv_net v)) = None"
  proof (rule ccontr)
    assume "\<not> ?thesis"
    then obtain h p n where r: "sv_read sv conn (srv_net v) = (Some (h, p), n)"
      by (cases "sv_read sv conn (srv_net v)") auto
    have "card (sv_lent sv n) = Suc SCH_BUFFERS_CSP"
      using read_some [OF r] card full count [of "srv_net v"] by simp
    then show False using count [of n] by simp
  qed
qed

end

section \<open>A library in memory\<close>

text \<open>
  Buffers are numbers, at most five are out at a time, the connections and their packets are given
  beforehand, and so is whether each answer can be sent.
\<close>

record sim_net =
  sim_out :: "nat list"
  sim_inbox :: "(nat \<times> nat \<times> csp_packet list) list"
  sim_answers :: "bool list"

definition sim_lent :: "sim_net \<Rightarrow> nat list" where
  "sim_lent n = take SCH_BUFFERS_CSP (sim_out n)"

definition sim_alloc :: "sim_net \<Rightarrow> nat option \<times> sim_net" where
  "sim_alloc n =
     (if length (sim_lent n) < SCH_BUFFERS_CSP
      then let h = Suc (sum_list (sim_lent n)) in (Some h, n\<lparr> sim_out := h # sim_lent n \<rparr>) else (None, n))"

definition sim_release :: "nat \<Rightarrow> sim_net \<Rightarrow> sim_net" where
  "sim_release h n = n\<lparr> sim_out := filter (\<lambda>x. x \<noteq> h) (sim_lent n) \<rparr>"

definition sim_read :: "nat \<Rightarrow> sim_net \<Rightarrow> (nat \<times> csp_packet) option \<times> sim_net" where
  "sim_read conn n =
     (case sim_inbox n of
        (dport, dst, p # ps) # rest \<Rightarrow>
          (case sim_alloc n of (Some h, n') \<Rightarrow> (Some (h, p), n'\<lparr> sim_inbox := (dport, dst, ps) # rest \<rparr>) | (None, n') \<Rightarrow> (None, n'))
      | _ \<Rightarrow> (None, n))"

definition sim_send :: "nat \<Rightarrow> nat option \<Rightarrow> sim_net \<Rightarrow> bool \<times> sim_net" where
  "sim_send conn h n =
     (case h of None \<Rightarrow> (False, n)
      | Some h \<Rightarrow> (case sim_answers n of
          True # bs \<Rightarrow> (True, sim_release h (n\<lparr> sim_answers := bs \<rparr>))
        | False # bs \<Rightarrow> (False, n\<lparr> sim_answers := bs \<rparr>)
        | [] \<Rightarrow> (True, sim_release h n)))"

definition sim_csp :: "sim_net csp_server" where
  "sim_csp = \<lparr> sv_bind = \<lambda>n. (0, n), sv_listen = \<lambda>n. (0, n), sv_buffer_get = \<lambda>_. sim_alloc,
     sv_accept = \<lambda>n. (if sim_inbox n = [] then None else Some 0, n), sv_read = sim_read,
     sv_close = \<lambda>_ n. n\<lparr> sim_inbox := tl (sim_inbox n) \<rparr>, sv_dport = \<lambda>_ n. fst (hd (sim_inbox n)),
     sv_dst = \<lambda>_ n. fst (snd (hd (sim_inbox n))), sv_clone = \<lambda>_. sim_alloc, sv_free = sim_release, sv_send = sim_send,
     sv_sendto = \<lambda>_ _ h n. (0, sim_release h n), sv_service = \<lambda>_. sim_release, sv_lent = \<lambda>n. set (sim_lent n) \<rparr>"

lemma sim_alloc_lent:
  "sim_alloc n = (Some h, n') \<Longrightarrow> h \<notin> set (sim_lent n) \<and> set (sim_lent n') = insert h (set (sim_lent n))"
  "sim_alloc n = (None, n') \<Longrightarrow> n' = n"
proof -
  have "x \<le> sum_list xs" if "x \<in> set xs" for x and xs :: "nat list" using that by (induction xs) auto
  then have new: "Suc (sum_list xs) \<notin> set xs" for xs using Suc_n_not_le_n by blast
  show "sim_alloc n = (Some h, n') \<Longrightarrow> h \<notin> set (sim_lent n) \<and> set (sim_lent n') = insert h (set (sim_lent n))"
    using new [of "sim_lent n"] by (auto simp: sim_alloc_def Let_def sim_lent_def [of n'] split: if_splits)
  show "sim_alloc n = (None, n') \<Longrightarrow> n' = n" by (simp add: sim_alloc_def Let_def split: if_splits)
qed

lemma sim_release_lent: "set (sim_lent (sim_release h n)) = set (sim_lent n) - {h}"
proof -
  have "length (sim_lent n) \<le> 5" by (simp add: sim_lent_def)
  then have "length (filter (\<lambda>x. x \<noteq> h) (sim_lent n)) \<le> 5" using length_filter_le order_trans by blast
  then have "sim_lent (sim_release h n) = filter (\<lambda>x. x \<noteq> h) (sim_lent n)"
    by (simp add: sim_release_def sim_lent_def [of "n\<lparr>sim_out := X\<rparr>" for X])
  then show ?thesis by auto
qed

lemma sim_lent_other [simp]:
  "sim_lent (n\<lparr> sim_inbox := x \<rparr>) = sim_lent n" "sim_lent (n\<lparr> sim_answers := y \<rparr>) = sim_lent n"
  by (simp_all add: sim_lent_def)

lemma sim_read_lent:
  "case sim_read conn n of
     (Some (h, p), n') \<Rightarrow> h \<notin> set (sim_lent n) \<and> set (sim_lent n') = insert h (set (sim_lent n))
   | (None, n') \<Rightarrow> set (sim_lent n') = set (sim_lent n)"
proof -
  obtain a m where a: "sim_alloc n = (a, m)" by (cases "sim_alloc n")
  consider "sim_read conn n = (None, n)" | dport dst q ps rest where "sim_inbox n = (dport, dst, q # ps) # rest"
    unfolding sim_read_def by (cases "sim_inbox n"; cases "snd (snd (hd (sim_inbox n)))") (auto split: prod.splits)
  then show ?thesis
  proof cases
    case 2
    then show ?thesis
      using a sim_alloc_lent(1) [of n _ m] sim_alloc_lent(2) [of n m] by (cases a) (simp_all add: sim_read_def)
  qed simp
qed

interpretation sim_server: csp_pool sim_csp
proof
  fix n n' :: sim_net and h conn t k dest dport :: nat and p ok rc
  show "sv_lent sim_csp (snd (sv_bind sim_csp n)) = sv_lent sim_csp n"
    "sv_lent sim_csp (snd (sv_listen sim_csp n)) = sv_lent sim_csp n"
    "sv_lent sim_csp (snd (sv_accept sim_csp n)) = sv_lent sim_csp n"
    "sv_lent sim_csp (sv_close sim_csp conn n) = sv_lent sim_csp n"
    by (simp_all add: sim_csp_def)
  show "sv_buffer_get sim_csp k n = (Some h, n') \<Longrightarrow> h \<notin> sv_lent sim_csp n \<and> sv_lent sim_csp n' = insert h (sv_lent sim_csp n)"
    "sv_clone sim_csp t n = (Some h, n') \<Longrightarrow> h \<notin> sv_lent sim_csp n \<and> sv_lent sim_csp n' = insert h (sv_lent sim_csp n)"
    "sv_clone sim_csp t n = (None, n') \<Longrightarrow> sv_lent sim_csp n' = sv_lent sim_csp n"
    using sim_alloc_lent [of n] by (simp_all add: sim_csp_def)
  show "sv_read sim_csp conn n = (Some (h, p), n') \<Longrightarrow> h \<notin> sv_lent sim_csp n \<and> sv_lent sim_csp n' = insert h (sv_lent sim_csp n)"
    "sv_read sim_csp conn n = (None, n') \<Longrightarrow> sv_lent sim_csp n' = sv_lent sim_csp n"
    using sim_read_lent [of n conn] by (simp_all add: sim_csp_def)
  show "h \<in> sv_lent sim_csp n \<Longrightarrow> sv_lent sim_csp (sv_free sim_csp h n) = sv_lent sim_csp n - {h}"
    "h \<in> sv_lent sim_csp n \<Longrightarrow> sv_lent sim_csp (sv_service sim_csp conn h n) = sv_lent sim_csp n - {h}"
    by (simp_all add: sim_csp_def sim_release_lent)
  show "h \<in> sv_lent sim_csp n \<Longrightarrow> sv_send sim_csp conn (Some h) n = (ok, n') \<Longrightarrow>
      sv_lent sim_csp n' = (if ok then sv_lent sim_csp n - {h} else sv_lent sim_csp n)"
    by (auto simp: sim_csp_def sim_send_def sim_release_lent split: list.splits bool.splits)
  show "sv_lent sim_csp (snd (sv_send sim_csp conn None n)) = sv_lent sim_csp n"
    by (simp add: sim_csp_def sim_send_def)
  show "h \<in> sv_lent sim_csp n \<Longrightarrow> sv_sendto sim_csp dest dport h n = (rc, n') \<Longrightarrow>
      rc = 0 \<and> sv_lent sim_csp n' = sv_lent sim_csp n - {h} \<or> rc = -1 \<and> sv_lent sim_csp n' = sv_lent sim_csp n"
    by (auto simp: sim_csp_def sim_release_lent)
  have "card (set (sim_lent n)) \<le> length (sim_lent n)" by (rule card_length)
  then show "finite (sv_lent sim_csp n) \<and> card (sv_lent sim_csp n) \<le> SCH_BUFFERS_CSP"
    by (simp add: sim_csp_def sim_lent_def)
qed

lemma sim_csp_pool: "csp_pool sim_csp" ..

section \<open>Properties\<close>

text \<open>
  C26.  The buffers of the communications task.  Whatever the network delivers and whichever answers fail:
  the task never uses, frees or sends a buffer it has given back.  Between two packets it holds one
  buffer, plus one for every answer that could not be sent so far, because those are never given back.
  There are five buffers, so at most four answers can fail; after the fourth no packet is
  received any more.
\<close>

theorem comm_buffers:
  assumes "csp_pool sv" "length (cmd_list r) = cmd_max_entries c" "sv_lent sv n = {}"
    "comm_start sv s n = Inr (Some v0)" "comm_reach sv c st r info v0 v"
  shows "comm_step sv c st r info clock v \<noteq> Inl UseAfterFree \<and>
    card (sv_lent sv (srv_net v)) = 1 + srv_left v \<and> srv_left v \<le> 4 \<and>
    (srv_left v = 4 \<longrightarrow> fst (sv_read sv conn (srv_net v)) = None)"
proof -
  have inv: "comm_inv sv v"
    using csp_pool.comm_reach_inv [OF assms(1,2) csp_pool.comm_start_inv [OF assms(1,3,4)] assms(5)] .
  then show ?thesis
    using csp_pool.comm_step_inv(1) [OF assms(1,2) inv] csp_pool.deaf [OF assms(1) inv] by (simp add: comm_inv_def)
qed

text \<open>Four commands to the command port, the answers of which all fail.\<close>

definition sim_four :: sim_net where
  "sim_four = \<lparr> sim_out = [], sim_inbox = [(12, 1, replicate 5 (text_packet ''go'' [0]))], sim_answers = replicate 4 False \<rparr>"

definition comm_run :: "nat \<Rightarrow> (unit, sim_net) srv_state \<Rightarrow> (unit, sim_net) srv_state c_result" where
  "comm_run k v = ((\<lambda>x. c_bind x (comm_step sim_csp small_config no_storage small_repo True 0)) ^^ k) (Inr v)"

theorem comm_buffers_witness:
  "\<exists>v0 v. comm_start sim_csp dat_zero sim_four = Inr (Some v0) \<and> comm_run 5 v0 = Inr v \<and> srv_left v = 4 \<and>
     length (srv_sent v) = 4 \<and> snd (snd (hd (sim_inbox (srv_net v)))) \<noteq> [] \<and> fst (sv_read sim_csp 0 (srv_net v)) = None"
proof -
  let ?start = "comm_start sim_csp dat_zero sim_four"
  have "(case ?start of Inr (Some v0) \<Rightarrow> (case comm_run 5 v0 of Inr v \<Rightarrow> srv_left v = 4 \<and> length (srv_sent v) = 4 \<and>
      snd (snd (hd (sim_inbox (srv_net v)))) \<noteq> [] | Inl e \<Rightarrow> False) | _ \<Rightarrow> False)"
    by code_simp
  then obtain v0 v where v0: "?start = Inr (Some v0)" and v: "comm_run 5 v0 = Inr v" "srv_left v = 4" "length (srv_sent v) = 4"
      "snd (snd (hd (sim_inbox (srv_net v)))) \<noteq> []"
    by (cases ?start; cases "projr ?start"; cases "comm_run 5 (the (projr ?start))") auto
  have reach: "comm_run k v0 = Inr w \<Longrightarrow> comm_reach sim_csp small_config no_storage small_repo True v0 w" for k w
  proof (induction k arbitrary: w)
    case 0
    then show ?case by (simp add: comm_run_def comm_here)
  next
    case (Suc k)
    then obtain u where "comm_run k v0 = Inr u" "comm_step sim_csp small_config no_storage small_repo True 0 u = Inr w"
      by (auto simp: comm_run_def c_bind_Inr_iff)
    then show ?case using Suc.IH comm_next by blast
  qed
  have len: "length (cmd_list small_repo) = cmd_max_entries small_config" by (simp add: small_repo_def small_config_def)
  have "sv_lent sim_csp sim_four = {}" by (simp add: sim_csp_def sim_lent_def sim_four_def)
  from comm_buffers [OF sim_csp_pool len this v0 reach [OF v(1)], where conn = 0] v
  show ?thesis using v0 by (intro exI conjI) auto
qed

end
