(* ===== verification/CommSetup.thy ===== *)
theory CommSetup
  imports CommServer
begin

text \<open>
  The set-up of libcsp (\<^verbatim>\<open>init_communications\<close> of \<^verbatim>\<open>taskInit.c\<close>): the debug levels, the buffers, the
  interfaces and the routes of each platform.  The library is a parameter; the calls and what the code
  does with their results are modelled.
\<close>

section \<open>The calls\<close>

datatype csp_iface = IF_KISS | IF_ZMQHUB | IF_I2C

record csp_conf =
  cf_address :: nat
  cf_conn_max :: nat
  cf_conn_queue_length :: nat
  cf_conn_dfl_so :: nat
  cf_fifo_length :: nat
  cf_port_max_bind :: nat
  cf_rdp_max_window :: nat

datatype csp_setup =
    Debug_Level string bool
  | Buffer_Init nat nat
  | Csp_Init csp_conf
  | Usart_Init string int
  | Kiss_Init csp_iface string
  | Set_Callback csp_iface
  | Rtable_Set nat nat csp_iface nat
  | Zmqhub_Init nat string string
  | I2c_Init nat nat nat
  | Route_Start_Task nat nat
  | Print_Table
  | Print_Interfaces

abbreviation (input) CSP_ID_HOST_SIZE :: nat where "CSP_ID_HOST_SIZE \<equiv> 5"
abbreviation (input) CSP_DEFAULT_ROUTE :: nat where "CSP_DEFAULT_ROUTE \<equiv> 32"
abbreviation (input) CSP_NODE_MAC :: nat where "CSP_NODE_MAC \<equiv> 255"
abbreviation (input) CSP_O_NONE :: nat where "CSP_O_NONE \<equiv> 0"
abbreviation (input) SCH_TNC_ADDRESS :: nat where "SCH_TNC_ADDRESS \<equiv> 9"
abbreviation (input) SCH_TRX_ADDRESS :: nat where "SCH_TRX_ADDRESS \<equiv> 5"
abbreviation (input) SCH_TASK_CSP_STACK :: nat where "SCH_TASK_CSP_STACK \<equiv> 1280"

text \<open>\<^verbatim>\<open>csp_route_set\<close> is a macro of \<^verbatim>\<open>csp_rtable.h\<close>.\<close>

definition csp_route_set :: "nat \<Rightarrow> csp_iface \<Rightarrow> nat \<Rightarrow> csp_setup" where
  "csp_route_set node ifc mac = Rtable_Set node CSP_ID_HOST_SIZE ifc mac"

definition debug_levels :: "bool \<Rightarrow> csp_setup list" where
  "debug_levels dbg =
     [Debug_Level ''CSP_ERROR'' True, Debug_Level ''CSP_WARN'' True, Debug_Level ''CSP_INFO'' True] @
     map (\<lambda>l. Debug_Level l dbg) [''CSP_BUFFER'', ''CSP_PACKET'', ''CSP_PROTOCOL''] @ [Debug_Level ''CSP_LOCK'' False]"

definition sch_csp_conf :: csp_conf where
  "sch_csp_conf = \<lparr> cf_address = SCH_COMM_ADDRESS, cf_conn_max = 10, cf_conn_queue_length = 10, cf_conn_dfl_so = CSP_O_NONE,
     cf_fifo_length = 25, cf_port_max_bind = 24, cf_rdp_max_window = 20 \<rparr>"

definition linux_interfaces :: "csp_setup list" where
  "linux_interfaces =
     [Usart_Init ''/dev/ttyUSB0'' 500000, Kiss_Init IF_KISS ''KISS'', Set_Callback IF_KISS,
      csp_route_set SCH_TNC_ADDRESS IF_KISS CSP_NODE_MAC,
      csp_route_set CSP_DEFAULT_ROUTE IF_KISS CSP_NODE_MAC,
      Rtable_Set 0 2 IF_KISS SCH_TNC_ADDRESS,
      Zmqhub_Init 255 ''tcp://127.0.0.1:8001'' ''tcp://127.0.0.1:8002'',
      csp_route_set CSP_DEFAULT_ROUTE IF_ZMQHUB CSP_NODE_MAC]"

definition nanomind_interfaces :: "csp_setup list" where
  "nanomind_interfaces =
     [I2c_Init SCH_COMM_ADDRESS 0 400,
      Rtable_Set 8 2 IF_I2C SCH_TRX_ADDRESS,
      csp_route_set CSP_DEFAULT_ROUTE IF_I2C CSP_NODE_MAC]"

text \<open>
  \<open>call\<close> performs a call and gives its result.  The results of the three calls that are looked at only
  select an error message; nothing is undone and nothing is left out after a failure.
\<close>

definition setup_error :: "csp_setup \<Rightarrow> string option" where
  "setup_error k =
     (case k of
        Buffer_Init n l \<Rightarrow> Some ''csp_buffer_init failed!''
      | I2c_Init a h s \<Rightarrow> Some (CHR 0x09 # ''csp_i2c_init failed!'')
      | Route_Start_Task n p \<Rightarrow> Some ''Task router not created!''
      | _ \<Rightarrow> None)"

fun run_setup :: "(csp_setup \<Rightarrow> 'n \<Rightarrow> int \<times> 'n) \<Rightarrow> csp_setup list \<Rightarrow> 'n \<Rightarrow> string list \<times> 'n" where
  "run_setup call [] n = ([], n)"
| "run_setup call (k # ks) n =
     (let (t_ok, n) = call k n; (es, n) = run_setup call ks n in
      ((case setup_error k of Some e \<Rightarrow> if t_ok \<noteq> 0 then [e] else [] | None \<Rightarrow> []) @ es, n))"

definition comm_calls :: "platform \<Rightarrow> bool \<Rightarrow> csp_setup list" where
  "comm_calls os dbg =
     debug_levels dbg @ [Buffer_Init SCH_BUFFERS_CSP SCH_BUFF_MAX_LEN, Csp_Init sch_csp_conf] @
     (case os of LINUX \<Rightarrow> linux_interfaces | NANOMIND \<Rightarrow> nanomind_interfaces | _ \<Rightarrow> []) @
     [Route_Start_Task SCH_TASK_CSP_STACK 1, Print_Table, Print_Interfaces]"

definition init_communications :: "sch_config \<Rightarrow> bool \<Rightarrow> (csp_setup \<Rightarrow> 'n \<Rightarrow> int \<times> 'n) \<Rightarrow> 'n \<Rightarrow> string list \<times> 'n" where
  "init_communications c dbg call n =
     (if comm_enable c then run_setup call (comm_calls (platform_of c) dbg) n else ([], n))"

section \<open>Routes\<close>

text \<open>
  What the routing table promises (\<^verbatim>\<open>csp_rtable.h\<close>, built with \<^verbatim>\<open>--with-rtable cidr\<close>): a route is set for the
  hosts that agree with its node in the first \<open>mask\<close> of the five bits of an address, the default route
  for all of them; setting the same hosts again replaces the route, other calls do not touch the table,
  and a packet takes the route with the longest mask.
\<close>

definition route_hosts :: "nat \<Rightarrow> nat \<Rightarrow> nat \<times> nat" where
  "route_hosts node bits = (if node = CSP_DEFAULT_ROUTE then (0, 0) else (node div 2 ^ (CSP_ID_HOST_SIZE - bits), bits))"

type_synonym routes = "nat \<times> nat \<Rightarrow> (csp_iface \<times> nat) option"

fun route_effect :: "csp_setup \<Rightarrow> routes \<Rightarrow> routes" where
  "route_effect (Rtable_Set node bits ifc mac) rt = rt(route_hosts node bits \<mapsto> (ifc, mac))"
| "route_effect _ rt = rt"

fun longest :: "nat \<Rightarrow> nat \<Rightarrow> routes \<Rightarrow> (csp_iface \<times> nat) option" where
  "longest node 0 rt = rt (0, 0)"
| "longest node (Suc m) rt =
     (case rt (node div 2 ^ (CSP_ID_HOST_SIZE - Suc m), Suc m) of None \<Rightarrow> longest node m rt | Some r \<Rightarrow> Some r)"

locale cidr_table =
  fixes call :: "csp_setup \<Rightarrow> 'n \<Rightarrow> int \<times> 'n" and routes_of :: "'n \<Rightarrow> routes"
    and find_route :: "nat \<Rightarrow> 'n \<Rightarrow> (csp_iface \<times> nat) option"
  assumes call_routes: "\<forall>cf. k \<noteq> Csp_Init cf \<Longrightarrow> routes_of (snd (call k n)) = route_effect k (routes_of n)"
    and init_routes: "\<exists>own. routes_of (snd (call (Csp_Init cf) n)) = (routes_of n)((cf_address cf, 5) := own)"
    and find_longest: "node < 32 \<Longrightarrow> find_route node n = longest node 5 (routes_of n)"
begin

lemma run_routes:
  assumes "\<forall>cf. Csp_Init cf \<notin> set ks"
  shows "routes_of (snd (run_setup call ks n)) = fold route_effect ks (routes_of n)"
  using assms
proof (induction ks arbitrary: n)
  case (Cons k ks)
  have "routes_of (snd (call k n)) = route_effect k (routes_of n)" by (rule call_routes) (use Cons.prems in auto)
  then show ?case using Cons by (simp add: Let_def split_def)
qed simp

lemma run_append: "snd (run_setup call (ks @ ls) n) = snd (run_setup call ls (snd (run_setup call ks n)))"
  by (induction ks arbitrary: n) (simp_all add: Let_def split_def)

text \<open>Around the initialisation of the library.\<close>

lemma run_around:
  assumes "\<forall>cf. Csp_Init cf \<notin> set ks" "\<forall>cf. Csp_Init cf \<notin> set ls"
  shows "\<exists>own. routes_of (snd (run_setup call (ks @ Csp_Init sch_csp_conf # ls) n)) =
    fold route_effect ls ((fold route_effect ks (routes_of n))((1, 5) := own))"
proof -
  let ?n = "snd (run_setup call ks n)"
  obtain own where "routes_of (snd (call (Csp_Init sch_csp_conf) ?n)) = (routes_of ?n)((1, 5) := own)"
    using init_routes [of sch_csp_conf ?n] by (auto simp: sch_csp_conf_def)
  then show ?thesis using run_routes assms by (auto simp: run_append Let_def split_def)
qed

end

lemma longest_five:
  "longest node 5 rt =
     (case rt (node, 5) of Some r \<Rightarrow> Some r | None \<Rightarrow>
     (case rt (node div 2, 4) of Some r \<Rightarrow> Some r | None \<Rightarrow>
     (case rt (node div 4, 3) of Some r \<Rightarrow> Some r | None \<Rightarrow>
     (case rt (node div 8, 2) of Some r \<Rightarrow> Some r | None \<Rightarrow>
     (case rt (node div 16, 1) of Some r \<Rightarrow> Some r | None \<Rightarrow> rt (0, 0))))))"
proof -
  have "longest node (Suc m) rt = (case rt (node div 2 ^ (4 - m), Suc m) of Some r \<Rightarrow> Some r | None \<Rightarrow> longest node m rt)" for m
    by (simp split: option.splits)
  note step = this
  have two: "longest node 2 rt = (case rt (node div 8, 2) of Some r \<Rightarrow> Some r | None \<Rightarrow> longest node 1 rt)"
    using step [of 1] unfolding Suc_1 by simp
  have one: "longest node 1 rt = (case rt (node div 16, 1) of Some r \<Rightarrow> Some r | None \<Rightarrow> rt (0, 0))"
    using step [of 0] by (simp split: option.splits)
  show ?thesis using step [of 4] step [of 3] step [of 2] unfolding one [symmetric] two [symmetric] by (simp split: option.splits)
qed

text \<open>A table in memory.\<close>

definition sim_csp_call :: "csp_setup \<Rightarrow> routes \<Rightarrow> int \<times> routes" where
  "sim_csp_call k rt = (0, route_effect k rt)"

interpretation sim_table: cidr_table sim_csp_call "\<lambda>rt. rt" "\<lambda>node. longest node 5"
proof
  show "\<exists>own. snd (sim_csp_call (Csp_Init cf) n) = n((cf_address cf, 5) := own)" for cf n
    by (auto simp: sim_csp_call_def intro!: exI [of _ "n (cf_address cf, 5)"])
qed (simp_all add: sim_csp_call_def)

section \<open>Properties\<close>



end
