(* ===== verification/Board.thy ===== *)
theory Board
  imports RepoData OsThreads
begin

text \<open>
  Bringing the boards up: \<^verbatim>\<open>drivers/nanomind/init.c\<close> and the first half of \<^verbatim>\<open>taskInit\<close> for the Nanomind,
  \<^verbatim>\<open>drivers/atmel/suchai/util/init.c\<close> for the Atmel board, and \<^verbatim>\<open>drivers/Linux/init.c\<close>.  The functions are
  sequences of calls of the board libraries; they are modelled as the calls they make, in order, with the
  arguments of the source as texts.
\<close>

datatype hw_call =
    Hw string "string list"      \<comment> \<open>a call and its arguments\<close>
  | Reg string string            \<comment> \<open>a register is written\<close>

section \<open>Nanomind\<close>

definition init_spi1 :: "hw_call list" where
  "init_spi1 =
     [Hw ''gpio_enable_module'' [''SPI1_SCK_0_1'', ''SPI1_MOSI_0_1'', ''SPI1_MOSI_0_2'', ''SPI1_MISO_0_1'', ''SPI1_NPCS_2_2'',
        ''SPI1_NPCS_3_2'', ''SPI1_NPCS_0'', ''SPI1_NPCS_1_2''],
      Hw ''sysclk_enable_pba_module'' [''SYSCLK_SPI1''],
      Hw ''spi_reset'' [''AVR32_SPI1''],
      Hw ''spi_set_master_mode'' [''AVR32_SPI1''],
      Hw ''spi_disable_modfault'' [''AVR32_SPI1''],
      Hw ''spi_disable_loopback'' [''AVR32_SPI1''],
      Hw ''spi_set_chipselect'' [''AVR32_SPI1'', ''(1 << AVR32_SPI_MR_PCS_SIZE) - 1''],
      Hw ''spi_disable_variable_chipselect'' [''AVR32_SPI1''],
      Hw ''spi_disable_chipselect_decoding'' [''AVR32_SPI1''],
      Hw ''spi_enable'' [''AVR32_SPI1'']]"

definition init_can :: "int \<Rightarrow> hw_call list" where
  "init_can enable_can =
     [Hw ''scif_gc_setup'' [''AVR32_SCIF_GCLK_CANIF'', ''SCIF_GCCTRL_OSC0'', ''AVR32_SCIF_GC_NO_DIV_CLOCK'', ''0'']] @
     (if enable_can \<noteq> 0 then
        [Hw ''scif_gc_enable'' [''AVR32_SCIF_GCLK_CANIF''],
         Hw ''gpio_enable_module'' [''CANIF_RXLINE_0_0'', ''CANIF_TXLINE_0_0''],
         Hw ''gpio_configure_pin'' [''AVR32_PIN_PA15'', ''GPIO_DIR_OUTPUT | GPIO_INIT_LOW'']]
      else
        [Hw ''scif_stop_gclk'' [''AVR32_SCIF_GCLK_CANIF''],
         Hw ''gpio_configure_pin'' [''AVR32_PIN_PA15'', ''GPIO_DIR_OUTPUT | GPIO_INIT_HIGH'']])"

definition init_rtc :: "hw_call list" where
  "init_rtc =
     [Hw ''fm33256b_write'' [''FM33_WRPC'', ''0x18'', ''0x3D''],
      Hw ''fm33256b_clock_resume'' [],
      Hw ''osc_enable'' [''OSC_ID_OSC32'']]"

definition twi_init_nanomind :: "hw_call list" where
  "twi_init_nanomind =
     [Hw ''gpio_enable_module'' [''TWIMS2_TWCK_0_0'', ''TWIMS2_TWD_0_0''],
      Hw ''gpio_enable_module'' [''TWIMS0_TWCK_0_0'', ''TWIMS0_TWD_0_0''],
      Hw ''i2c_init_master'' [''2'', ''1'', ''100'']]"

text \<open>
  The text logged for a reset.  \<open>code\<close> gives the values of the \<^verbatim>\<open>RESET_CAUSE\<close> constants of the library, in
  the order of the source.
\<close>

datatype reset_cause = WDT | SOFT | SLEEP | EXTRST | CPU_ERROR | BOD_CPU | POR | JTAG | OCD | BOD_IO

primrec cause_text :: "reset_cause \<Rightarrow> string" where
  "cause_text WDT = ''Watchdog timeout''"
| "cause_text SOFT = ''Software reset''"
| "cause_text SLEEP = ''Wake from Shutdown sleep mode''"
| "cause_text EXTRST = ''External reset''"
| "cause_text CPU_ERROR = ''CPU Error''"
| "cause_text BOD_CPU = ''Brown-out detected on CPU power domain''"
| "cause_text POR = ''Power-on-reset''"
| "cause_text JTAG = ''JTAG''"
| "cause_text OCD = ''On-chip debug system''"
| "cause_text BOD_IO = ''Brown-out detected on I/O power domain''"

definition reset_causes :: "reset_cause list" where
  "reset_causes = [WDT, SOFT, SLEEP, EXTRST, CPU_ERROR, BOD_CPU, POR, JTAG, OCD, BOD_IO]"

definition log_reset_cause :: "(reset_cause \<Rightarrow> int) \<Rightarrow> int \<Rightarrow> string" where
  "log_reset_cause code reset =
     ''Reset cause: '' @
     (case find (\<lambda>r. code r = reset) reset_causes of Some r \<Rightarrow> cause_text r | None \<Rightarrow> ''Undefined!'') @
     '' ('' @ show_int reset @ '')''"

definition on_reset_nanomind :: "hw_call list" where
  "on_reset_nanomind =
     [Hw ''led_init'' [], Hw ''led_on'' [''LED_CPUOK''], Hw ''led_off'' [''LED_A''],
      Hw ''wdt_disable'' [], Hw ''wdt_clear'' [],
      Hw ''wdt_enable'' [show_int (i32 (10 * 1000000))],
      Hw ''INTC_init_interrupts'' [],
      Hw ''sysclk_init'' [],
      Hw ''pwr_switch_init'' [],
      Hw ''pwr_switch_disable'' [''PWR_GSSB''], Hw ''pwr_switch_disable'' [''PWR_GSSB2''],
      Hw ''sdramc_init'' [''sysclk_get_cpu_hz()''],
      Reg ''heap_start'' (show_int (0xD0000000 + 0x100000)),
      Reg ''heap_end'' (show_int (0xD0000000 + 0x2000000 - 1000)),
      Hw ''setvbuf'' [''stdin''], Hw ''setvbuf'' [''stdout''], Hw ''setvbuf'' [''stderr''],
      Hw ''gpio_enable_module'' [''USART_RXD'', ''USART_TXD''],
      Hw ''usart_init'' [''USART_CONSOLE'', ''sysclk_get_peripheral_bus_hz(USART)'', ''576000''],
      Reg ''usart_stdio_id'' ''USART_CONSOLE'',
      Hw ''led_on'' [''LED_CPUOK''], Hw ''led_on'' [''LED_A'']]"

text \<open>What \<^verbatim>\<open>taskInit\<close> does on the Nanomind before it reads the cause of the reset.\<close>

definition board_devices :: "hw_call list" where
  "board_devices =
     init_spi1 @ [Hw ''lm70_init'' [], Hw ''spn_fl512s_init'' [''0''], Hw ''fm33256b_init'' []] @ init_rtc @
     twi_init_nanomind @ [Hw ''mpu3300_init'' [''MPU3300_BW_5'', ''MPU3300_FSR_225''], Hw ''hmc5843_init'' [], Hw ''adc_channels_init'' []] @
     init_can 0 @ [Hw ''gs_pwm_init'' []]"

section \<open>Atmel board\<close>

definition serial_init :: "hw_call list" where
  "serial_init =
     [Hw ''sysclk_enable_peripheral_clock'' [''UART_PORT''],
      Hw ''gpio_enable_module'' [''UART_RX'', ''UART_TX''],
      Hw ''stdio_serial_init'' [''UART_PORT'', ''UART_BAUDRATE'', ''UART_CHAR_LENGTH'', ''UART_PARITY'', ''UART_STOP_BIT'']]"

definition spi_init :: "hw_call list" where
  "spi_init =
     (let options = [''DATA_OUT_SPI_NPCS'', ''DATA_OUT_SPI_BAUDRATE'', ''8'', ''0'', ''0'', ''1'', ''SPI_MODE_0'', ''1''] in
      [Hw ''gpio_enable_module'' [''DATA_OUT_SPI_SCK'', ''DATA_OUT_SPI_MISO'', ''DATA_OUT_SPI_MOSI'', ''DATA_OUT_SPI_NPCS0''],
       Hw ''spi_initMaster'' (''DATA_OUT_SPI'' # options),
       Hw ''spi_setupChipReg'' (''DATA_OUT_SPI'' # options @ [''sysclk_get_pba_hz()'']),
       Hw ''spi_enable'' [''DATA_OUT_SPI'']])"

text \<open>
  The serial synchronous controller.  The options of the DMA channel (\<^verbatim>\<open>PDCA_OPTIONS\<close>, with the two
  buffers) are built and never used.
\<close>

definition ssc_init :: "string \<Rightarrow> hw_call list" where
  "ssc_init handler =
     [Hw ''gpio_enable_module'' [''SSC_RX_CLOCK_0_0'', ''SSC_RX_DATA_0_0'', ''SSC_RX_FRAME_SYNC_0_0''],
      Reg ''ssc->cr'' ''AVR32_SSC_CR_SWRST_MASK'',
      Reg ''ssc->cmr'' ''2 << AVR32_SSC_CMR_DIV_OFFSET'',
      Reg ''ssc->tcmr'' ''0'',
      Reg ''ssc->tfmr'' ''0'',
      Reg ''ssc->rcmr'' ''CKS_DIV_CLOCK | CKO_CONTINOUS_CLOCK_OUTPUT | CKI 1 | CKG_NONE | START_DETECT_FALLING_RF | STTDLY 1 | PERIOD 0'',
      Reg ''ssc->rfmr'' ''DATLEN 23 | LOOP 0 | MSBF 0 | DATNB 0 | FSLEN 0 | FSOS_INPUT_ONLY | FSEDGE 0'',
      Hw ''cpu_irq_disable'' [],
      Hw ''INTC_register_interrupt'' [handler, ''AVR32_SSC_IRQ'', ''AVR32_INTC_INT0''],
      Hw ''cpu_irq_enable'' []]"

definition ssc_start :: "hw_call list" where
  "ssc_start = [Reg ''ssc->cr'' ''AVR32_SSC_CR_RXEN_MASK'', Reg ''ssc->ier'' ''AVR32_SSC_IDR_RXRDY_MASK'']"

definition twi_init_atmel :: "hw_call list" where
  "twi_init_atmel =
     [Hw ''sysclk_init'' [],
      Hw ''gpio_enable_module'' [''TWIMS0_TWCK_0_0'', ''TWIMS0_TWD_0_0''],
      Hw ''i2c_init_master'' [''0'', ''5'', ''100'']]"

definition on_reset_atmel :: "hw_call list" where
  "on_reset_atmel =
     serial_init @
     map (\<lambda>l. Hw ''LED_On'' [l]) [''LED0'', ''LED1'', ''LED2'', ''LED3''] @
     [Hw ''Disable_global_interrupt'' [],
      Hw ''INTC_init_interrupts'' [],
      Hw ''INTC_register_interrupt'' [''rtc_irq'', ''AVR32_RTC_IRQ'', ''AVR32_INTC_INT0''],
      Hw ''rtc_init'' [''AVR32_RTC'', ''RTC_OSC_32KHZ'', ''RTC_PSEL_32KHZ_1HZ''],
      Hw ''rtc_set_top_value'' [''AVR32_RTC'', ''0''],
      Hw ''rtc_enable_interrupt'' [''AVR32_RTC''],
      Hw ''rtc_enable'' [''AVR32_RTC''],
      Hw ''Enable_global_interrupt'' []]"

text \<open>The interrupt of the clock, once a second: the calls and the data.\<close>

definition rtc_irq :: "sch_config \<Rightarrow> 'x dat_state \<Rightarrow> hw_call list \<times> 'x dat_state" where
  "rtc_irq c s = ([Hw ''LED_Toggle'' [''LED2''], Hw ''rtc_clear_interrupt'' [''AVR32_RTC'']], snd (dat_update_time c s))"

section \<open>Linux\<close>

text \<open>
  \<^verbatim>\<open>on_reset\<close> registers \<^verbatim>\<open>on_close\<close> for two signals through a structure of which only the handler is
  written: the flags and the mask that \<^verbatim>\<open>sigaction\<close> reads are those the stack holds.
\<close>

record 'f sigaction =
  sa_handler :: string
  sa_flags :: 'f

definition on_reset_linux :: "'f \<Rightarrow> (string \<times> 'f sigaction) list" where
  "on_reset_linux stack =
     (let act = \<lparr> sa_handler = ''on_close'', sa_flags = stack \<rparr> in [(''SIGINT'', act), (''SIGTERM'', act)])"

text \<open>
  \<^verbatim>\<open>cmd_repo_close\<close> frees the name and the format of every entry; \<^verbatim>\<open>on_close\<close> also closes the data
  repository (the Atmel board does only that) and leaves the process with the number of the signal.
\<close>

datatype cmd_block = Name_Block nat | Fmt_Block nat

definition cmd_repo_close :: "sch_config \<Rightarrow> cmd_block list" where
  "cmd_repo_close c = concat (map (\<lambda>i. [Name_Block i, Fmt_Block i]) [0..<cmd_max_entries c])"

definition on_close :: "sch_config \<Rightarrow> 'x storage \<Rightarrow> int \<Rightarrow> 'x dat_state \<Rightarrow> int \<times> cmd_block list \<times> 'x dat_state" where
  "on_close c st signal s =
     (signal, if platform_of c = LINUX then cmd_repo_close c else [], dat_repo_close c st s)"

section \<open>What the order of the calls gives\<close>

text \<open>
  The interrupts as the calls leave them: whether they are taken at all, the lines that have a handler
  and the lines that may raise one.
\<close>

record irq_state =
  irq_global :: bool
  irq_handled :: "string list"
  irq_sources :: "string list"

fun irq_effect :: "hw_call \<Rightarrow> irq_state \<Rightarrow> irq_state" where
  "irq_effect (Hw f args) s =
     (if f \<in> {''Disable_global_interrupt'', ''cpu_irq_disable''} then s\<lparr> irq_global := False \<rparr>
      else if f \<in> {''Enable_global_interrupt'', ''cpu_irq_enable''} then s\<lparr> irq_global := True \<rparr>
      else if f = ''INTC_init_interrupts'' then s\<lparr> irq_handled := [] \<rparr>
      else if f = ''INTC_register_interrupt'' then s\<lparr> irq_handled := args ! 1 # irq_handled s \<rparr>
      else if f = ''rtc_enable_interrupt'' then s\<lparr> irq_sources := ''AVR32_RTC_IRQ'' # irq_sources s \<rparr>
      else s)"
| "irq_effect (Reg r v) s = (if r = ''ssc->ier'' then s\<lparr> irq_sources := ''AVR32_SSC_IRQ'' # irq_sources s \<rparr> else s)"

definition irq_safe :: "irq_state \<Rightarrow> bool" where
  "irq_safe s \<longleftrightarrow> (irq_global s \<longrightarrow> set (irq_sources s) \<subseteq> set (irq_handled s))"

fun always :: "('s \<Rightarrow> bool) \<Rightarrow> ('c \<Rightarrow> 's \<Rightarrow> 's) \<Rightarrow> 'c list \<Rightarrow> 's \<Rightarrow> bool" where
  "always P eff [] s \<longleftrightarrow> P s"
| "always P eff (k # ks) s \<longleftrightarrow> P s \<and> always P eff ks (eff k s)"

lemma always_prefix: "always P eff ks s \<longleftrightarrow> (\<forall>n. P (fold eff (take n ks) s))"
proof (induction ks arbitrary: s)
  case (Cons k ks)
  have "(\<forall>n. P (fold eff (take n (k # ks)) s)) \<longleftrightarrow> P s \<and> (\<forall>n. P (fold eff (take n ks) (eff k s)))"
    by (auto simp: take_Cons split: nat.splits)
  then show ?case using Cons by simp
qed simp

text \<open>
  The Atmel board never takes an interrupt for which nothing is registered, as long as the receiver of
  the synchronous controller is started after it was set up; the Nanomind enables none at all while it
  comes up.
\<close>

lemma board_interrupts:
  assumes "irq_sources s = []"
  shows "always irq_safe irq_effect (on_reset_atmel @ ssc_init h @ ssc_start) s"
    "\<not> always irq_safe irq_effect (on_reset_atmel @ ssc_start) s"
    "irq_global (fold irq_effect on_reset_nanomind s) = irq_global s"
  using assms
  by (simp_all add: on_reset_atmel_def on_reset_nanomind_def ssc_init_def ssc_start_def serial_init_def irq_safe_def)

text \<open>The transceiver of the bus is off after start-up: its clock is stopped and its mode pin high.\<close>

lemma can_off: "last (init_can 0) = Hw ''gpio_configure_pin'' [''AVR32_PIN_PA15'', ''GPIO_DIR_OUTPUT | GPIO_INIT_HIGH'']"
    "Hw ''scif_gc_enable'' [''AVR32_SCIF_GCLK_CANIF''] \<notin> set board_devices"
  by (simp_all add: init_can_def board_devices_def init_spi1_def init_rtc_def twi_init_nanomind_def)

text \<open>
  The cause of a reset is named exactly when it is one of the codes: several causes at once, which the
  library reports as the sum of theirs, are \<^verbatim>\<open>Undefined!\<close>.
\<close>

lemma log_reset_cause_spec:
  assumes "inj code"
  shows "log_reset_cause code (code r) = ''Reset cause: '' @ cause_text r @ '' ('' @ show_int (code r) @ '')''"
    and "\<forall>r. code r \<noteq> x \<Longrightarrow> log_reset_cause code x = ''Reset cause: Undefined! ('' @ show_int x @ '')''"
proof -
  have "find (\<lambda>q. code q = code r) reset_causes = Some r"
    using injD [OF assms] by (cases r) (auto simp: reset_causes_def)
  then show "log_reset_cause code (code r) = ''Reset cause: '' @ cause_text r @ '' ('' @ show_int (code r) @ '')''"
    by (simp add: log_reset_cause_def)
qed (auto simp: log_reset_cause_def reset_causes_def)

text \<open>The time of the Atmel board is the number of its interrupts.\<close>

lemma rtc_seconds:
  assumes "platform_of c = AVR32"
  shows "dat_get_time c clock (((\<lambda>s. snd (rtc_irq c s)) ^^ n) s) = dat_get_time c clock s + int n"
proof -
  have "sec (((\<lambda>s. snd (rtc_irq c s)) ^^ n) s) = sec s + int n"
    using assms by (induction n) (simp_all add: rtc_irq_def dat_update_time_def)
  then show ?thesis using assms by (simp add: dat_get_time_def)
qed

text \<open>Closing frees every block of the command table once.\<close>

lemma cmd_repo_close_once: "distinct (cmd_repo_close c)"
    "set (cmd_repo_close c) = Name_Block ` {..<cmd_max_entries c} \<union> Fmt_Block ` {..<cmd_max_entries c}"
proof -
  have "distinct (concat (map (\<lambda>i. [Name_Block i, Fmt_Block i]) [0..<n]))" for n
    by (induction n) auto
  then show "distinct (cmd_repo_close c)" by (simp add: cmd_repo_close_def)
qed (auto simp: cmd_repo_close_def)

end
