(* ===== verification/BoardTools.thy ===== *)
theory BoardTools
  imports LibC
begin

text \<open>
  The tools of the boards: the hexadecimal dump (\<^verbatim>\<open>drivers/atmel/suchai/util/hexdump.c\<close>), the memory check
  of the Atmel board (\<^verbatim>\<open>memcheck.c\<close>) and the memory test of the Nanomind (\<^verbatim>\<open>test_sdram\<close> of
  \<^verbatim>\<open>drivers/nanomind/init.c\<close>).
\<close>

section \<open>Hexadecimal dump\<close>

text \<open>\<^verbatim>\<open>%02x\<close> and \<^verbatim>\<open>%04x\<close>.\<close>

definition hex_char :: "nat \<Rightarrow> char" where
  "hex_char d = (if d < 10 then digit_char d else char_of (d - 10 + of_char (CHR ''a'')))"

fun show_hex :: "nat \<Rightarrow> string" where
  "show_hex n = (if n < 16 then [hex_char n] else show_hex (n div 16) @ [hex_char (n mod 16)])"

declare show_hex.simps [simp del]

definition hex_pad_left :: "nat \<Rightarrow> nat \<Rightarrow> string" where
  "hex_pad_left w n = replicate (w - length (show_hex n)) (CHR ''0'') @ show_hex n"

text \<open>The array \<^verbatim>\<open>buff\<close>: None where nothing was written.  \<^verbatim>\<open>%s\<close> reads it up to a NUL.\<close>

fun buff_str :: "char option list \<Rightarrow> string c_result" where
  "buff_str [] = Inl OutOfBounds"
| "buff_str (None # r) = Inl Uninitialised"
| "buff_str (Some ch # r) = (if ch = NUL then Inr [] else c_bind (buff_str r) (\<lambda>s. Inr (ch # s)))"

definition printable :: "u8 \<Rightarrow> char" where
  "printable b = (if b < 0x20 \<or> b > 0x7e then CHR ''.'' else char_of (unat b))"

definition newline :: string where "newline = [CHR 0x0A]"

text \<open>The loop over the bytes: the text printed and the array at the end.\<close>

fun hexdump_bytes :: "u8 list \<Rightarrow> nat \<Rightarrow> char option list \<Rightarrow> (string \<times> char option list) c_result" where
  "hexdump_bytes [] i buff = Inr ([], buff)"
| "hexdump_bytes (b # bs) i buff =
     c_bind (if i mod 16 = 0
             then c_bind (if i \<noteq> 0 then c_bind (buff_str buff) (\<lambda>s. Inr (''  '' @ s @ newline)) else Inr []) (\<lambda>l.
               Inr (l @ ''  '' @ hex_pad_left 4 i @ '' ''))
             else Inr []) (\<lambda>l.
     c_bind (hexdump_bytes bs (i + 1) (buff[i mod 16 := Some (printable b), i mod 16 + 1 := Some NUL])) (\<lambda>(out, buff).
       Inr (l @ '' '' @ hex_pad_left 2 (unat b) @ out, buff)))"

function hexdump_pad :: "nat \<Rightarrow> string" where
  "hexdump_pad i = (if i mod 16 \<noteq> 0 then ''   '' @ hexdump_pad (i + 1) else [])"
  by auto

termination
proof (relation "measure (\<lambda>i. (16 - i mod 16) mod 16)")
  show "(i + 1, i) \<in> measure (\<lambda>i. (16 - i mod 16) mod 16)" if "i mod 16 \<noteq> 0" for i :: nat
    using that mod_less_divisor [of 16 i] by (simp add: mod_Suc) arith
qed simp

declare hexdump_pad.simps [simp del]

definition hexdump :: "string option \<Rightarrow> u8 list \<Rightarrow> int \<Rightarrow> string c_result" where
  "hexdump desc data len =
     (if int (length data) < len then Inl OutOfBounds
      else c_bind (hexdump_bytes (take (nat len) data) 0 (replicate 17 None)) (\<lambda>(out, buff).
        c_bind (buff_str buff) (\<lambda>s.
          Inr ((case desc of None \<Rightarrow> [] | Some d \<Rightarrow> d @ '':'' @ newline) @ out @ hexdump_pad (nat len) @ ''  '' @ s @ newline))))"

text \<open>What it should print: sixteen bytes a line.\<close>

definition hex_line :: "nat \<Rightarrow> u8 list \<Rightarrow> string" where
  "hex_line i row = ''  '' @ hex_pad_left 4 i @ '' '' @ concat (map (\<lambda>b. '' '' @ hex_pad_left 2 (unat b)) row) @
     concat (replicate (16 - length row) ''   '') @ ''  '' @ map printable row @ newline"

function hex_lines :: "nat \<Rightarrow> u8 list \<Rightarrow> string" where
  "hex_lines i bs = (if bs = [] then [] else hex_line i (take 16 bs) @ hex_lines (i + 16) (drop 16 bs))"
  by auto
termination by (relation "measure (length \<circ> snd)") auto

declare hex_lines.simps [simp del]

lemma printable_not_NUL: "printable b \<noteq> NUL"
proof
  assume "printable b = NUL"
  then have "\<not> b < 0x20" "of_char (char_of (unat b)) = (0 :: nat)" by (auto simp: printable_def simp del: of_char_of split: if_splits)
  moreover have "unat b < 256" using unsigned_less [of b, where 'a = nat] by simp
  ultimately show False by (simp add: word_less_nat_alt)
qed

text \<open>The characters of the line so far are in the array, up to a NUL.\<close>

definition holds_text :: "string \<Rightarrow> char option list \<Rightarrow> bool" where
  "holds_text s buff \<longleftrightarrow> length buff = 17 \<and> length s \<le> 16 \<and> NUL \<notin> set s \<and> (\<exists>r. buff = map Some s @ Some NUL # r)"

lemma buff_str_text: "holds_text s buff \<Longrightarrow> buff_str buff = Inr s"
proof -
  have "NUL \<notin> set s \<Longrightarrow> buff_str (map Some s @ Some NUL # r) = Inr s" for r
    by (induction s) auto
  then show "holds_text s buff \<Longrightarrow> buff_str buff = Inr s" by (auto simp: holds_text_def)
qed

lemma holds_text_put:
  assumes "length buff = 17" "length s < 16" "NUL \<notin> set s" "take (length s) buff = map Some s"
  shows "holds_text (s @ [printable b]) (buff[length s := Some (printable b), length s + 1 := Some NUL])"
proof -
  obtain x y r where "drop (length s) buff = x # y # r"
    using assms(1,2) by (cases "drop (length s) buff" rule: list.exhaust; cases "tl (drop (length s) buff)") (auto dest: arg_cong [where f = length])
  then have "buff = map Some s @ x # y # r" using assms(4) append_take_drop_id [of "length s" buff] by simp
  then show ?thesis using assms printable_not_NUL [of b] by (auto simp: holds_text_def list_update_append)
qed

lemma holds_text_take: "holds_text s buff \<Longrightarrow> take (length s) buff = map Some s"
  by (auto simp: holds_text_def)

abbreviation codes :: "u8 list \<Rightarrow> string" where
  "codes row \<equiv> concat (map (\<lambda>b. '' '' @ hex_pad_left 2 (unat b)) row)"

lemma hexdump_bytes_append:
  "hexdump_bytes (xs @ ys) i buff =
     c_bind (hexdump_bytes xs i buff) (\<lambda>(o1, buff). c_bind (hexdump_bytes ys (i + length xs) buff) (\<lambda>(o2, buff). Inr (o1 @ o2, buff)))"
proof (induction xs arbitrary: i buff)
  case Nil
  show ?case by (cases "hexdump_bytes ys i buff") auto
next
  case (Cons x xs)
  have assoc: "c_bind (c_bind m f) g = c_bind m (\<lambda>x. c_bind (f x) g)" for m :: "'p c_result" and f :: "'p \<Rightarrow> 'q c_result" and g :: "'q \<Rightarrow> 'r c_result"
    by (cases m) simp_all
  show ?case by (simp add: Cons.IH assoc split_def)
qed

text \<open>Bytes within a line, a whole line, and the lines one after the other.\<close>

lemma hexdump_bytes_within:
  assumes "length s + length row \<le> 16" "i mod 16 = length s mod 16" "s \<noteq> []" "holds_text s buff"
  shows "\<exists>buff'. hexdump_bytes row i buff = Inr (codes row, buff') \<and> holds_text (s @ map printable row) buff'"
  using assms
proof (induction row arbitrary: s i buff)
  case (Cons b row)
  have i: "i mod 16 = length s" using Cons.prems(1,2) by simp
  let ?buff = "buff[i mod 16 := Some (printable b), i mod 16 + 1 := Some NUL]"
  have "holds_text (s @ [printable b]) ?buff"
    using holds_text_put [of buff s b] holds_text_take [OF Cons.prems(4)] Cons.prems i by (simp add: holds_text_def)
  moreover have "(i + 1) mod 16 = length (s @ [printable b]) mod 16" using i by (simp add: mod_Suc)
  ultimately obtain buff' where "hexdump_bytes row (i + 1) ?buff = Inr (codes row, buff')"
    "holds_text ((s @ [printable b]) @ map printable row) buff'"
    using Cons.IH [of "s @ [printable b]" "i + 1" ?buff] Cons.prems(1) by auto
  then show ?case using i Cons.prems(3) by simp
qed auto

lemma hexdump_bytes_line:
  assumes "row \<noteq> []" "length row \<le> 16" "i mod 16 = 0" "length buff = 17"
    "if i = 0 then before = [] else holds_text s buff \<and> before = ''  '' @ s @ newline"
  shows "\<exists>buff'. hexdump_bytes row i buff = Inr (before @ ''  '' @ hex_pad_left 4 i @ '' '' @ codes row, buff') \<and>
    holds_text (map printable row) buff'"
proof -
  obtain b bs where row: "row = b # bs" using assms(1) by (cases row) auto
  let ?buff = "buff[0 := Some (printable b), Suc 0 := Some NUL]"
  have "holds_text [printable b] ?buff" using holds_text_put [of buff "[]" b] assms(4) by simp
  then obtain buff' where "hexdump_bytes bs (i + 1) ?buff = Inr (codes bs, buff')" "holds_text ([printable b] @ map printable bs) buff'"
    using hexdump_bytes_within [of "[printable b]" bs "i + 1" ?buff] assms(2,3) row by (auto simp: mod_Suc)
  then show ?thesis using assms(3,5) by (auto simp: row buff_str_text split: if_splits)
qed

lemma hexdump_pad_replicate: "i mod 16 = r \<Longrightarrow> 0 < r \<Longrightarrow> hexdump_pad i = concat (replicate (16 - r) ''   '')"
proof (induction "16 - r" arbitrary: i r)
  case 0
  then show ?case using mod_less_divisor [of 16 i] by simp
next
  case (Suc k)
  then show ?case
  proof (cases "r = 15")
    case True
    then have "(i + 1) mod 16 = 0" using Suc.prems by (simp add: mod_Suc)
    then show ?thesis using Suc.prems True by (simp add: hexdump_pad.simps [of i] hexdump_pad.simps [of "Suc i"])
  next
    case False
    then have "(i + 1) mod 16 = r + 1" "r < 16" using Suc.prems mod_less_divisor [of 16 i] by (auto simp: mod_Suc)
    then have "hexdump_pad (i + 1) = concat (replicate k ''   '')"
      using Suc.hyps(1) [of "r + 1" "i + 1"] arg_cong [OF Suc.hyps(2), of "\<lambda>n. n - 1"] by simp
    then show ?thesis using Suc.prems by (simp add: hexdump_pad.simps [of i] flip: Suc.hyps(2))
  qed
qed

lemma hexdump_bytes_lines:
  assumes "bs \<noteq> []" "i mod 16 = 0" "length buff = 17"
    "if i = 0 then before = [] else holds_text s buff \<and> before = ''  '' @ s @ newline"
  shows "\<exists>out buff' s'. hexdump_bytes bs i buff = Inr (out, buff') \<and> holds_text s' buff' \<and>
    out @ hexdump_pad (i + length bs) @ ''  '' @ s' @ newline = before @ hex_lines i bs"
  using assms
proof (induction i bs arbitrary: buff s before rule: hex_lines.induct)
  case (1 i bs)
  let ?row = "take 16 bs" and ?rest = "drop 16 bs"
  obtain b1 where b1: "hexdump_bytes ?row i buff = Inr (before @ ''  '' @ hex_pad_left 4 i @ '' '' @ codes ?row, b1)"
    "holds_text (map printable ?row) b1"
    using hexdump_bytes_line [of ?row i buff before s] 1 by auto
  show ?case
  proof (cases "?rest = []")
    case True
    then have pad: "hexdump_pad (i + length bs) = concat (replicate (16 - length bs) ''   '')"
      using 1(2,3) hexdump_pad_replicate [of "i + length bs" "length bs"] hexdump_pad.simps [of "i + 16"]
      by (cases "length bs = 16") (auto simp: mod_add_eq [symmetric, of i])
    show ?thesis using b1 True 1(2) pad by (auto simp: hex_lines.simps [of i bs] hex_lines.simps [of "i + 16" "[]"] hex_line_def)
  next
    case False
    then have len: "length ?row = 16" by simp
    obtain out b2 s' where "hexdump_bytes ?rest (i + 16) b1 = Inr (out, b2)" "holds_text s' b2"
      "out @ hexdump_pad (i + 16 + length ?rest) @ ''  '' @ s' @ newline = (''  '' @ map printable ?row @ newline) @ hex_lines (i + 16) ?rest"
      using 1(1) [OF 1(2) False, of b1 "''  '' @ map printable ?row @ newline" "map printable ?row"] b1(2) 1(3)
      by (auto simp: holds_text_def)
    moreover have "hexdump_bytes bs i buff = hexdump_bytes (?row @ ?rest) i buff" by simp
    ultimately show ?thesis
      using b1 len 1(2) False unfolding hexdump_bytes_append by (auto simp: hex_lines.simps [of i bs] hex_line_def)
  qed
qed

lemma hexdump_run:
  assumes "0 < len" "len \<le> int (length data)"
  shows "hexdump desc data len =
    Inr ((case desc of None \<Rightarrow> [] | Some d \<Rightarrow> d @ '':'' @ newline) @ hex_lines 0 (take (nat len) data))"
proof -
  have "take (nat len) data \<noteq> []" using assms by auto
  then obtain out buff s where "hexdump_bytes (take (nat len) data) 0 (replicate 17 None) = Inr (out, buff)" "holds_text s buff"
    "out @ hexdump_pad (length (take (nat len) data)) @ ''  '' @ s @ newline = hex_lines 0 (take (nat len) data)"
    using hexdump_bytes_lines [of "take (nat len) data" 0 "replicate 17 None" "[]" "[]"] by auto
  moreover have "length (take (nat len) data) = nat len" using assms by simp
  ultimately show ?thesis using assms by (simp add: hexdump_def buff_str_text)
qed

section \<open>Memory checks\<close>

text \<open>A memory of words, with what writing a word does to it and what reading one gives.\<close>

record 'm ram =
  ram_write :: "nat \<Rightarrow> u32w \<Rightarrow> 'm \<Rightarrow> 'm"
  ram_read :: "nat \<Rightarrow> 'm \<Rightarrow> u32w"

text \<open>What the checks show to the operator.\<close>

datatype show_event = LED_Toggle | LED_Off | Print string

text \<open>
  \<^verbatim>\<open>memcheck\<close>: both loops report when the word address reaches the next percent.
\<close>

definition progress :: "nat \<Rightarrow> nat \<Rightarrow> string \<Rightarrow> nat \<Rightarrow> show_event list \<times> nat" where
  "progress inc i label j =
     (if i = j * inc mod 2 ^ 32 then ([LED_Toggle, Print (CHR 0x0D # label @ show_nat j @ ''%'')], j + 1) else ([], j))"

fun fill_pattern :: "'m ram \<Rightarrow> nat \<Rightarrow> nat list \<Rightarrow> nat \<Rightarrow> 'm \<Rightarrow> show_event list \<times> 'm" where
  "fill_pattern d inc [] j m = ([], m)"
| "fill_pattern d inc (i # is) j m =
     (let (ev, j) = progress inc i ''Filling SDRAM with test pattern: '' j;
          (evs, m) = fill_pattern d inc is j (ram_write d i (of_nat i) m)
      in (ev @ evs, m))"

fun verify_pattern :: "'m ram \<Rightarrow> nat \<Rightarrow> nat list \<Rightarrow> nat \<Rightarrow> u32w \<Rightarrow> 'm \<Rightarrow> show_event list \<times> u32w" where
  "verify_pattern d inc [] j noErrors m = ([], noErrors)"
| "verify_pattern d inc (i # is) j noErrors m =
     (let (ev, j) = progress inc i ''Recovering test pattern from SDRAM: '' j;
          (evs, noErrors) = verify_pattern d inc is j (if ram_read d i m \<noteq> of_nat i then noErrors + 1 else noErrors) m
      in (ev @ evs, noErrors))"

definition crlf :: string where "crlf = [CHR 0x0D, CHR 0x0A]"

definition memcheck :: "'m ram \<Rightarrow> nat \<Rightarrow> 'm \<Rightarrow> u32w \<times> show_event list \<times> 'm" where
  "memcheck d SDRAM_SIZE m =
     (let sdram_size = SDRAM_SIZE div 4; progress_inc = (sdram_size + 50) div 100;
          (ev1, m) = fill_pattern d progress_inc [0..<sdram_size] 0 m;
          (ev2, noErrors) = verify_pattern d progress_inc [0..<sdram_size] 0 0 m
      in (noErrors,
          [Print (CHR 0x0C # ''SDRAM size: '' @ show_nat (SDRAM_SIZE div 2 ^ 20) @ '' MB'' @ crlf)] @ ev1 @
          [LED_Off, Print (CHR 0x0D # ''SDRAM filled with test pattern       '' @ crlf)] @ ev2 @
          [LED_Off, Print (CHR 0x0D # ''SDRAM tested: '' @ show_nat (unat noErrors) @ '' corrupted word(s)          '' @ crlf)],
          m))"

text \<open>
  \<^verbatim>\<open>test_sdram\<close>, on the 32-bit addresses of the AVR32: every word gets its own address.  \<open>block\<close> is the
  address \<^verbatim>\<open>malloc\<close> returned, None for NULL; the last component tells whether the block was freed.
\<close>

definition test_sdram :: "'m ram \<Rightarrow> nat option \<Rightarrow> int \<Rightarrow> bool \<Rightarrow> 'm \<Rightarrow> (show_event list \<times> 'm \<times> bool) c_result" where
  "test_sdram d block size_w do_free m =
     (let head = (case block of None \<Rightarrow> [Print (''---- malloc failed! ----'' @ newline @ newline)]
                  | Some data \<Rightarrow> [Print (''data @ '' @ show_hex data @ newline)]) @
                 [Print (''Writing to SDRAM...'' @ crlf)];
          ps = (case block of None \<Rightarrow> [] | Some data \<Rightarrow> map (\<lambda>k. data + 4 * k) [0..<nat size_w])
      in if block = None \<and> 0 < size_w then Inl NullDeref
         else let m = fold (\<lambda>p. ram_write d p (of_nat p)) ps m;
                  head = head @ [Print (''Reading from SDRAM...'' @ crlf)]
              in if \<exists>p \<in> set ps. ram_read d p m \<noteq> of_nat p then Inr (head @ [Print (''SDRAM ERROR!'' @ crlf)], m, False)
                 else Inr (head @ [Print (''SDRAM OK'' @ crlf)], m, do_free))"

text \<open>A memory behind an address decoder: word \<open>i\<close> is kept in cell \<open>phys i\<close>.\<close>

definition decoded :: "(nat \<Rightarrow> nat) \<Rightarrow> (nat \<Rightarrow> u32w) ram" where
  "decoded phys = \<lparr> ram_write = \<lambda>i v m. m(phys i := v), ram_read = \<lambda>i m. m (phys i) \<rparr>"

lemma fill_pattern_fold: "snd (fill_pattern d inc is j m) = fold (\<lambda>i. ram_write d i (of_nat i)) is m"
  by (induction "is" arbitrary: j m) (simp_all add: Let_def split_def)

lemma verify_pattern_count:
  "snd (verify_pattern d inc is j n m) = n + of_nat (length (filter (\<lambda>i. ram_read d i m \<noteq> of_nat i) is))"
  by (induction "is" arbitrary: j n) (auto simp: Let_def split_def)

definition pattern_written :: "'m ram \<Rightarrow> nat list \<Rightarrow> 'm \<Rightarrow> 'm" where
  "pattern_written d ps m = fold (\<lambda>i. ram_write d i (of_nat i)) ps m"

lemma memcheck_result:
  "fst (memcheck d SIZE m) = of_nat (length (filter (\<lambda>i. ram_read d i (pattern_written d [0..<SIZE div 4] m) \<noteq> of_nat i) [0..<SIZE div 4]))"
  by (simp add: memcheck_def Let_def split_def fill_pattern_fold verify_pattern_count pattern_written_def)

lemma of_nat_u32_eq: "i < 2 ^ 32 \<Longrightarrow> j < 2 ^ 32 \<Longrightarrow> (of_nat i :: u32w) = of_nat j \<longleftrightarrow> i = j"
  by (simp add: word_of_nat_eq_iff take_bit_nat_eq_self)

text \<open>A cell ends with the pattern of the last word written to it.\<close>

lemma decoded_last:
  assumes "sorted ps" "distinct ps" "i \<in> set ps"
  shows "\<exists>j \<in> set ps. i \<le> j \<and> phys j = phys i \<and> pattern_written (decoded phys) ps m (phys i) = of_nat j"
  using assms
proof (induction ps rule: rev_induct)
  case (snoc x ps)
  show ?case
  proof (cases "phys x = phys i")
    case True
    then show ?thesis using snoc.prems by (auto simp: pattern_written_def decoded_def sorted_append)
  next
    case False
    then have "i \<in> set ps" using snoc.prems by auto
    then show ?thesis using snoc False by (auto simp: pattern_written_def decoded_def sorted_append)
  qed
qed simp

lemma decoded_reads_back:
  assumes "sorted ps" "distinct ps" "\<forall>p \<in> set ps. p < 2 ^ 32"
  shows "(\<forall>i \<in> set ps. ram_read (decoded phys) i (pattern_written (decoded phys) ps m) = of_nat i) \<longleftrightarrow> inj_on phys (set ps)"
proof
  assume ok: "\<forall>i \<in> set ps. ram_read (decoded phys) i (pattern_written (decoded phys) ps m) = of_nat i"
  show "inj_on phys (set ps)"
  proof (rule inj_onI)
    fix i j assume "i \<in> set ps" "j \<in> set ps" "phys i = phys j"
    then show "i = j" using ok [rule_format, of i] ok [rule_format, of j] assms(3) of_nat_u32_eq [of i j] by (simp add: decoded_def)
  qed
next
  assume inj: "inj_on phys (set ps)"
  show "\<forall>i \<in> set ps. ram_read (decoded phys) i (pattern_written (decoded phys) ps m) = of_nat i"
  proof
    fix i assume i: "i \<in> set ps"
    then obtain j where "j \<in> set ps" "phys j = phys i" "pattern_written (decoded phys) ps m (phys i) = of_nat j"
      using decoded_last [OF assms(1,2) i, of phys m] by blast
    then show "ram_read (decoded phys) i (pattern_written (decoded phys) ps m) = of_nat i"
      using inj_onD [OF inj _ _ i, of j] by (simp add: decoded_def)
  qed
qed

lemma memcheck_zero:
  assumes "SIZE < 2 ^ 32"
  shows "fst (memcheck d SIZE m) = 0 \<longleftrightarrow> (\<forall>i < SIZE div 4. ram_read d i (pattern_written d [0..<SIZE div 4] m) = of_nat i)"
proof -
  let ?bad = "filter (\<lambda>i. ram_read d i (pattern_written d [0..<SIZE div 4] m) \<noteq> of_nat i) [0..<SIZE div 4]"
  have "length ?bad \<le> SIZE div 4" using length_filter_le [of _ "[0..<SIZE div 4]"] by simp
  then have "(of_nat (length ?bad) :: u32w) = 0 \<longleftrightarrow> length ?bad = 0"
    using assms of_nat_u32_eq [of "length ?bad" 0] by simp
  then show ?thesis unfolding memcheck_result by (auto simp: filter_empty_conv)
qed

section \<open>Properties\<close>

text \<open>
  The hexadecimal dump.  For at least one byte the loop over the bytes prints exactly the lines of
  sixteen bytes each: the offset, the codes, blanks for the bytes a short last line lacks, and the
  characters, with a dot for what cannot be printed.  For no byte at all it prints an array that was
  never written.
\<close>

lemma hexdump_spec:
  assumes "len \<le> int (length data)"
  shows "hexdump desc data len =
    (if len \<le> 0 then Inl Uninitialised
     else Inr ((case desc of None \<Rightarrow> [] | Some d \<Rightarrow> d @ '':'' @ newline) @ hex_lines 0 (take (nat len) data)))"
proof (cases "len \<le> 0")
  case True
  have "buff_str (replicate 17 None) = Inl Uninitialised" by (simp add: numeral_eq_Suc)
  then show ?thesis using True assms by (simp add: hexdump_def)
qed (simp add: hexdump_run assms)

lemma hexdump_spec_witness:
  "hexdump (Some ''id'') [0x53, 0x31, 0x00] 3 = Inr (''id:'' @ newline @
     ''  0000  53 31 00                                         S1.'' @ newline) \<and> hexdump None [] 0 = Inl Uninitialised"
proof -
  have "hex_lines 0 (take (nat 3) [0x53, 0x31, 0x00 :: u8]) = ''  0000  53 31 00                                         S1.'' @ newline"
    by code_simp
  then show ?thesis using hexdump_spec [of 3 "[0x53, 0x31, 0x00]" "Some ''id''"] hexdump_spec [of 0 "[]" None] by simp
qed

text \<open>
  The memory check of the Atmel board.  It returns 0 exactly when, after all words have been
  written, every one of them still reads as its own address.  Behind an address decoder that is exactly
  when no two words share a cell: a stuck or shorted address line is always found.
\<close>

lemma memcheck_spec:
  assumes "SIZE < 2 ^ 32"
  shows "(fst (memcheck d SIZE m) = 0 \<longleftrightarrow>
      (\<forall>i < SIZE div 4. ram_read d i (pattern_written d [0..<SIZE div 4] m) = of_nat i)) \<and>
    (fst (memcheck (decoded phys) SIZE cells) = 0 \<longleftrightarrow> inj_on phys {..<SIZE div 4})"
proof -
  have "\<forall>p \<in> set [0..<SIZE div 4]. p < 2 ^ 32" using assms by auto
  from decoded_reads_back [OF _ _ this] show ?thesis
    using memcheck_zero [OF assms, of d m] memcheck_zero [OF assms, of "decoded phys" cells] by (simp add: atLeast0LessThan Ball_def)
qed

text \<open>Sixteen words: a memory that works, and one whose second address line is stuck at 0.\<close>

lemma memcheck_spec_witness:
  "fst (memcheck (decoded id) 64 (\<lambda>_. 0)) = 0 \<and> fst (memcheck (decoded (\<lambda>i. i div 4 * 4 + i mod 2)) 64 (\<lambda>_. 0)) \<noteq> 0"
proof -
  have "\<not> inj_on (\<lambda>i :: nat. i div 4 * 4 + i mod 2) {..<16}" by (auto dest: inj_onD [of _ _ 0 2])
  then show ?thesis
    using memcheck_spec [of 64 "decoded id" "\<lambda>_. 0" id "\<lambda>_. 0"]
      memcheck_spec [of 64 "decoded id" "\<lambda>_. 0" "\<lambda>i. i div 4 * 4 + i mod 2" "\<lambda>_. 0"]
    by simp
qed

text \<open>
  The memory test of the Nanomind.  With a block, it says that the memory is in order exactly when no
  two of its words share a cell, and it frees the block then, when asked to; a block with an error is
  never freed.  Without one it writes through NULL.
\<close>

lemma test_sdram_spec:
  assumes "data + 4 * nat n < 2 ^ 32"
  defines "ps \<equiv> map (\<lambda>k. data + 4 * k) [0..<nat n]"
  shows "\<exists>ev m'. test_sdram (decoded phys) (Some data) n do_free m = Inr (ev, m', do_free \<and> inj_on phys (set ps)) \<and>
      (last ev = Print (''SDRAM OK'' @ crlf) \<longleftrightarrow> inj_on phys (set ps))"
    and "0 < n \<Longrightarrow> test_sdram d None n do_free m = Inl NullDeref"
proof -
  have "sorted ps" "distinct ps" "\<forall>p \<in> set ps. p < 2 ^ 32"
    using assms(1) by (auto simp: ps_def sorted_iff_nth_mono distinct_map inj_on_def)
  then show "\<exists>ev m'. test_sdram (decoded phys) (Some data) n do_free m = Inr (ev, m', do_free \<and> inj_on phys (set ps)) \<and>
      (last ev = Print (''SDRAM OK'' @ crlf) \<longleftrightarrow> inj_on phys (set ps))"
    using decoded_reads_back [of ps phys m] by (auto simp: test_sdram_def Let_def pattern_written_def ps_def crlf_def)
qed (simp add: test_sdram_def)

end
