(* ===== verification/CmdOBC.thy ===== *)
theory CmdOBC
  imports CmdDRP
begin

text \<open>
  The commands of the on-board computer (\<^verbatim>\<open>src/system/cmdOBC.c\<close>).  Board support, the shell and the
  driver of the inter-stage panels (GSSB) are not part of the sources: their functions are the fields of
  the records \<open>board\<close> and \<open>gssb\<close>, over the states \<open>'h\<close> and \<open>'g\<close>.  What is only printed is left out.
\<close>

unbundle bit_operations_syntax

section \<open>The board\<close>

text \<open>A sensor that delivers a float delivers its 32-bit pattern; \<open>f32_tenth x\<close> is that of \<^verbatim>\<open>(float)(x/10.0)\<close>.\<close>

record 'h board =
  led_toggle :: "int \<Rightarrow> 'h \<Rightarrow> 'h"
  led_A :: int
  wdt_clear :: "'h \<Rightarrow> 'h"
  sh_system :: "string \<Rightarrow> 'h \<Rightarrow> int \<times> 'h"
  pwm_enable :: "int \<Rightarrow> 'h \<Rightarrow> 'h"
  pwm_set_duty :: "int \<Rightarrow> int \<Rightarrow> 'h \<Rightarrow> 'h"
  lm70_read_temp :: "int \<Rightarrow> 'h \<Rightarrow> int"
  f32_tenth :: "int \<Rightarrow> u32w"
  mpu3300_read_temp :: "'h \<Rightarrow> u32w"
  mpu3300_read_gyro :: "'h \<Rightarrow> u32w \<times> u32w \<times> u32w"
  hmc5843_read_single :: "'h \<Rightarrow> u32w \<times> u32w \<times> u32w"
  pwr_switch :: "int \<Rightarrow> bool \<Rightarrow> 'h \<Rightarrow> 'h"

section \<open>General commands\<close>

definition obc_ident :: "string \<Rightarrow> char list option \<Rightarrow> int \<Rightarrow> int" where
  "obc_ident fmt params nparams = CMD_OK"

text \<open>The blinking of the ESP32 is a toggle of its only output, number 0 here.\<close>

definition obc_debug ::
  "sch_config \<Rightarrow> 'h board \<Rightarrow> string \<Rightarrow> char list option \<Rightarrow> int \<Rightarrow> 'h \<Rightarrow> (int \<times> 'h) c_result" where
  "obc_debug c hw fmt params nparams h =
     (case params of
        None \<Rightarrow> Inr (CMD_FAIL, h)
      | Some b \<Rightarrow> c_bind (scan_ints fmt b) (\<lambda>(n, is).
          if n = nparams then
            case is of
              [dbg_type] \<Rightarrow> Inr (CMD_OK,
                case platform_of c of
                  AVR32 \<Rightarrow> led_toggle hw (if dbg_type \<in> {0, 1, 2, 3} then dbg_type else 0) h
                | NANOMIND \<Rightarrow> if dbg_type \<le> led_A hw then led_toggle hw dbg_type h else h
                | ESP32 \<Rightarrow> led_toggle hw 0 h
                | LINUX \<Rightarrow> h)
            | _ \<Rightarrow> Inl Uninitialised
          else Inr (CMD_FAIL, h)))"

definition obc_reset_wdt :: "sch_config \<Rightarrow> 'h board \<Rightarrow> string \<Rightarrow> char list option \<Rightarrow> int \<Rightarrow> 'h \<Rightarrow> int \<times> 'h" where
  "obc_reset_wdt c hw fmt params nparams h =
     (CMD_OK, if platform_of c = NANOMIND \<or> platform_of c = AVR32 then wdt_clear hw h else h)"

text \<open>\<open>None\<close>: the process has ended or the processor has been reset, and the command does not return.\<close>

definition obc_reset ::
  "sch_config \<Rightarrow> 'h board \<Rightarrow> string \<Rightarrow> char list option \<Rightarrow> int \<Rightarrow> 'h \<Rightarrow> (int \<times> 'h) option c_result" where
  "obc_reset c hw fmt params nparams h =
     (case platform_of c of
        LINUX \<Rightarrow>
          (case params of
             Some b \<Rightarrow> c_bind (c_str b) (\<lambda>p.
               if strcmp p ''reboot'' = 0 then Inr (Some (CMD_OK, snd (sh_system hw ''sudo reboot'' h))) else Inr None)
           | None \<Rightarrow> Inr None)
      | AVR32 \<Rightarrow> Inr None
      | NANOMIND \<Rightarrow> Inr None
      | ESP32 \<Rightarrow> Inr (Some (CMD_OK, h)))"

text \<open>\<open>status\<close> is the text of \<^verbatim>\<open>/proc/self/status\<close>, if it can be opened.\<close>

definition obc_get_os_memory ::
  "sch_config \<Rightarrow> string option \<Rightarrow> string \<Rightarrow> char list option \<Rightarrow> int \<Rightarrow> int \<times> string" where
  "obc_get_os_memory c status fmt params nparams =
     (if platform_of c = LINUX then
        case status of Some out \<Rightarrow> (CMD_OK, out) | None \<Rightarrow> (CMD_FAIL, [])
      else (CMD_OK, []))"

definition obc_set_time ::
  "sch_config \<Rightarrow> (int \<Rightarrow> string) \<Rightarrow> (string \<Rightarrow> int) \<Rightarrow> string \<Rightarrow> char list option \<Rightarrow> int \<Rightarrow> 'x dat_state \<Rightarrow>
     (int \<times> 'x dat_state) c_result" where
  "obc_set_time c ctime sh fmt params nparams s =
     (case params of
        None \<Rightarrow> Inr (CMD_FAIL, s)
      | Some b \<Rightarrow> c_bind (scan_ints fmt b) (\<lambda>(n, is).
          if n = nparams then
            case is of
              [time_to_set] \<Rightarrow> let (rc, s) = dat_set_time c ctime sh time_to_set s in
                                Inr (if rc = 0 then CMD_OK else CMD_FAIL, s)
            | _ \<Rightarrow> Inl Uninitialised
          else Inr (CMD_FAIL, s)))"

definition obc_get_time ::
  "sch_config \<Rightarrow> (int \<Rightarrow> string) \<Rightarrow> int \<Rightarrow> string \<Rightarrow> char list option \<Rightarrow> int \<Rightarrow> 'x dat_state \<Rightarrow>
     (int \<times> string) c_result" where
  "obc_get_time c ctime clock fmt params nparams s =
     (case params of
        None \<Rightarrow> Inr (CMD_FAIL, [])
      | Some b \<Rightarrow> c_bind (scan_ints fmt b) (\<lambda>(n, is).
          if n = nparams then
            case is of
              [format] \<Rightarrow> let (rc, out) = dat_show_time c ctime clock format s in
                           Inr (if rc = 0 then CMD_OK else CMD_FAIL, out)
            | _ \<Rightarrow> Inl Uninitialised
          else Inr (CMD_FAIL, [])))"

definition obc_system ::
  "sch_config \<Rightarrow> 'h board \<Rightarrow> string \<Rightarrow> char list option \<Rightarrow> int \<Rightarrow> 'h \<Rightarrow> (int \<times> 'h) c_result" where
  "obc_system c hw fmt params nparams h =
     (if platform_of c = LINUX then
        case params of
          Some b \<Rightarrow> c_bind (c_str b) (\<lambda>p. let (rc, h) = sh_system hw p h in
                      Inr (if rc < 0 then CMD_FAIL else CMD_OK, h))
        | None \<Rightarrow> Inr (CMD_FAIL, h)
      else Inr (CMD_FAIL, h))"

definition obc_set_pwm_duty ::
  "sch_config \<Rightarrow> 'h board \<Rightarrow> string \<Rightarrow> char list option \<Rightarrow> int \<Rightarrow> 'h \<Rightarrow> (int \<times> 'h) c_result" where
  "obc_set_pwm_duty c hw fmt params nparams h =
     (if platform_of c = NANOMIND then
        case params of
          None \<Rightarrow> Inl NullDeref
        | Some b \<Rightarrow> c_bind (scan_ints fmt b) (\<lambda>(n, is).
            if n = nparams then
              case is of
                [channel, duty] \<Rightarrow> Inr (CMD_OK, pwm_set_duty hw channel duty (pwm_enable hw channel h))
              | _ \<Rightarrow> Inl Uninitialised
            else Inr (CMD_FAIL, h))
      else Inr (CMD_FAIL, h))"

section \<open>Sensors\<close>

definition le4 :: "u32w \<Rightarrow> u8 list" where
  "le4 w = map (\<lambda>i. word_of_nat (unat w div 256 ^ i)) [0..<4]"

text \<open>
  The samples \<^verbatim>\<open>obc_get_sensors\<close> stores.  On Linux the temperatures are simulated from the seconds of the
  clock modulo 1000 (exact as floats).
\<close>

definition obc_get_sensors ::
  "sch_config \<Rightarrow> 'x storage \<Rightarrow> 'h board \<Rightarrow> int \<Rightarrow> 'h \<Rightarrow> 'x dat_state \<Rightarrow> int \<times> 'x dat_state" where
  "obc_get_sensors c st hw clock h s =
     (let t = word_of_int clock in
      case platform_of c of
        NANOMIND \<Rightarrow>
          let temp = concat (map le4 [t, f32_tenth hw (lm70_read_temp hw 1 h), f32_tenth hw (lm70_read_temp hw 2 h),
                                     mpu3300_read_temp hw h]);
              (gx, gy, gz) = mpu3300_read_gyro hw h; (mx, my, mz) = hmc5843_read_single hw h;
              s = snd (dat_add_payload_sample c st temp temp_sensors s)
          in (CMD_OK, snd (dat_add_payload_sample c st (concat (map le4 [t, gx, gy, gz, mx, my, mz])) ads_sensors s))
      | LINUX \<Rightarrow>
          let f = i32 clock smod 1000 in
          (CMD_OK, snd (dat_add_payload_sample c st
             (concat (map le4 [t, f32_bits f, f32_bits (f + 1), f32_bits (f + 2)])) temp_sensors s))
      | _ \<Rightarrow> (CMD_OK, s))"

text \<open>The float patterns go into the status variables as they are.\<close>

definition obc_update_status ::
  "sch_config \<Rightarrow> 'x storage \<Rightarrow> 'h board \<Rightarrow> 'h \<Rightarrow> 'x dat_state \<Rightarrow> int \<times> 'x dat_state" where
  "obc_update_status c st hw h s =
     (if platform_of c = NANOMIND then
        let (gx, gy, gz) = mpu3300_read_gyro hw h; (mx, my, mz) = hmc5843_read_single hw h in
        (CMD_OK, fold (\<lambda>(v, w) s. dat_set_system_var c st v (sint (w :: u32w)) s)
           [(dat_obc_temp_1, f32_tenth hw (lm70_read_temp hw 1 h)),
            (dat_obc_temp_2, f32_tenth hw (lm70_read_temp hw 2 h)),
            (dat_obc_temp_3, mpu3300_read_temp hw h),
            (dat_ads_acc_x, gx), (dat_ads_acc_y, gy), (dat_ads_acc_z, gz),
            (dat_ads_mag_x, mx), (dat_ads_mag_y, my), (dat_ads_mag_z, mz)] s)
      else (CMD_OK, s))"

section \<open>Inter-stage panels\<close>

record gssb_set1 =
  knife_on_time :: u16
  increment :: u16
  deploy_delay :: u16
  max_repeats :: u8
  repeat_delay :: u8

text \<open>Only the two fields of the second settings that the source writes.\<close>

record gssb_set2 =
  sw_polarity :: u8
  reboot_cnt :: u8

datatype gssb_set3 = armed_not | armed_auto

record 'g gssb =
  gssb_select_device :: "u8 \<Rightarrow> 'g \<Rightarrow> int \<times> 'g"
  gssb_set_i2c_addr :: "u8 \<Rightarrow> 'g \<Rightarrow> int \<times> 'g"
  gssb_commit_i2c_addr :: "'g \<Rightarrow> int \<times> 'g"
  gssb_get_version :: "'g \<Rightarrow> int \<times> 'g"
  gssb_get_uuid :: "'g \<Rightarrow> int \<times> 'g"
  gssb_get_burn_settings1 :: "'g \<Rightarrow> int \<times> 'g"
  gssb_get_burn_settings2 :: "'g \<Rightarrow> int \<times> 'g"
  gssb_set_burn_settings1 :: "gssb_set1 \<Rightarrow> 'g \<Rightarrow> int \<times> 'g"
  gssb_set_burn_settings2 :: "gssb_set2 \<Rightarrow> 'g \<Rightarrow> int \<times> 'g"
  gssb_set_burn_settings3 :: "gssb_set3 \<Rightarrow> 'g \<Rightarrow> int \<times> 'g"
  gssb_unlock_settings :: "int \<Rightarrow> 'g \<Rightarrow> int \<times> 'g"
  gssb_reboot :: "'g \<Rightarrow> int \<times> 'g"
  gssb_manual_deploy :: "'g \<Rightarrow> int \<times> 'g"
  gssb_changestate :: "int \<Rightarrow> 'g \<Rightarrow> int \<times> 'g"
  gssb_get_temperature :: "'g \<Rightarrow> int \<times> 'g"
  gssb_get_panel_sunsens :: "'g \<Rightarrow> int \<times> 'g"
  gssb_get_counters :: "'g \<Rightarrow> int \<times> 'g"
  gssb_get_release_status :: "'g \<Rightarrow> int \<times> 'g"

abbreviation (input) GSSB_ARMED_NONE :: int where "GSSB_ARMED_NONE \<equiv> 0"
abbreviation (input) GSSB_ARMED_AUTO :: int where "GSSB_ARMED_AUTO \<equiv> 1"
abbreviation (input) GSSB_ARMED_MANUAL :: int where "GSSB_ARMED_MANUAL \<equiv> 2"

abbreviation (input) PWR_GSSB :: int where "PWR_GSSB \<equiv> 0"
abbreviation (input) PWR_GSSB2 :: int where "PWR_GSSB2 \<equiv> 1"

definition gssb_pwr :: "'h board \<Rightarrow> string \<Rightarrow> char list option \<Rightarrow> int \<Rightarrow> 'h \<Rightarrow> (int \<times> 'h) c_result" where
  "gssb_pwr hw fmt params nparams h =
     (case params of
        None \<Rightarrow> Inr (CMD_FAIL, h)
      | Some b \<Rightarrow> c_bind (scan_ints fmt b) (\<lambda>(n, is).
          if n = nparams then
            case is of
              [vcc_on, vcc2_on] \<Rightarrow> Inr (CMD_OK, pwr_switch hw PWR_GSSB2 (vcc2_on > 0) (pwr_switch hw PWR_GSSB (vcc_on > 0) h))
            | _ \<Rightarrow> Inl Uninitialised
          else Inr (CMD_FAIL, h)))"

text \<open>Whatever happens, \<^verbatim>\<open>gssb_select_dev\<close> ends with \<^verbatim>\<open>return CMD_FAIL\<close>.\<close>

definition gssb_select_dev :: "'g gssb \<Rightarrow> string \<Rightarrow> char list option \<Rightarrow> int \<Rightarrow> 'g \<Rightarrow> (int \<times> 'g) c_result" where
  "gssb_select_dev dr fmt params nparams g =
     (case params of
        None \<Rightarrow> Inl NullDeref
      | Some b \<Rightarrow> c_bind (scan_ints fmt b) (\<lambda>(n, is).
          if n = nparams then
            case is of
              [address] \<Rightarrow> Inr (CMD_FAIL, if address > 0 then snd (gssb_select_device dr (word_of_int address) g) else g)
            | _ \<Rightarrow> Inl Uninitialised
          else Inr (CMD_FAIL, g)))"

definition gssb_set_addr :: "'g gssb \<Rightarrow> string \<Rightarrow> char list option \<Rightarrow> int \<Rightarrow> 'g \<Rightarrow> (int \<times> 'g) c_result" where
  "gssb_set_addr dr fmt params nparams g =
     (case params of
        None \<Rightarrow> Inl NullDeref
      | Some b \<Rightarrow> c_bind (scan_ints fmt b) (\<lambda>(n, is).
          if n = nparams then
            case is of
              [new_address] \<Rightarrow>
                let (rc, g) = gssb_set_i2c_addr dr (word_of_int new_address) g in
                if rc \<noteq> 0 then
                  let (rc, g) = gssb_commit_i2c_addr dr g in Inr (if rc \<noteq> 0 then CMD_OK else CMD_FAIL, g)
                else Inr (CMD_FAIL, g)
            | _ \<Rightarrow> Inl Uninitialised
          else Inr (CMD_FAIL, g)))"

definition gssb_ident :: "'g gssb \<Rightarrow> 'g \<Rightarrow> int \<times> 'g" where
  "gssb_ident dr g =
     (let (rc, g) = gssb_get_version dr g; (uuid, g) = gssb_get_uuid dr g in
      (if rc = 0 \<or> uuid < 0 then CMD_FAIL else CMD_OK, g))"

definition gssb_istage_get_settings :: "'g gssb \<Rightarrow> 'g \<Rightarrow> int \<times> 'g" where
  "gssb_istage_get_settings dr g =
     (let (rc, g) = gssb_get_burn_settings1 dr g in
      if rc = 0 then (CMD_FAIL, g)
      else let (rc, g) = gssb_get_burn_settings2 dr g in (if rc = 0 then CMD_FAIL else CMD_OK, g))"

text \<open>The range checks of \<^verbatim>\<open>gssb_istage_settings\<close> on its seven parameters, and the settings it builds.\<close>

definition istage_set1 :: "int list \<Rightarrow> (gssb_set1 \<times> gssb_set2) option" where
  "istage_set1 is =
     (case is of
        [std_time, increment_ms, short_cnt_down, max_repeat, rep_time_s, switch_polarity, reboot_deploy_cnt] \<Rightarrow>
          if std_time > 8000 \<or> std_time < 0 then None
          else if increment_ms > 65535 \<or> increment_ms < 0 then None
          else if short_cnt_down > 65535 \<or> short_cnt_down < 0 then None
          else if max_repeat > 255 \<or> max_repeat < 0 then None
          else if rep_time_s > 255 \<or> rep_time_s < 0 then None
          else if switch_polarity > 1 \<or> switch_polarity < 0 then None
          else if reboot_deploy_cnt > 255 \<or> reboot_deploy_cnt < 0 then None
          else Some (\<lparr> knife_on_time = word_of_int std_time, increment = word_of_int increment_ms,
                       deploy_delay = word_of_int short_cnt_down, max_repeats = word_of_int max_repeat,
                       repeat_delay = word_of_int rep_time_s \<rparr>,
                     \<lparr> sw_polarity = word_of_int switch_polarity, reboot_cnt = word_of_int reboot_deploy_cnt \<rparr>)
      | _ \<Rightarrow> None)"

definition gssb_istage_settings ::
  "'g gssb \<Rightarrow> string \<Rightarrow> char list option \<Rightarrow> int \<Rightarrow> 'g \<Rightarrow> (int \<times> 'g) c_result" where
  "gssb_istage_settings dr fmt params nparams g =
     (let (rc, g) = gssb_unlock_settings dr 1 g in
      if rc = 0 then Inr (CMD_ERROR, g)
      else let (rc, g) = gssb_get_burn_settings1 dr g in
      if rc = 0 then Inr (CMD_FAIL, g)
      else let (rc, g) = gssb_get_burn_settings2 dr g in
      if rc = 0 then Inr (CMD_FAIL, g)
      else case params of
        None \<Rightarrow> Inl NullDeref
      | Some b \<Rightarrow> c_bind (scan_ints fmt b) (\<lambda>(n, is).
          if n = nparams then
            if length is \<noteq> 7 then Inl Uninitialised
            else case istage_set1 is of
              None \<Rightarrow> Inr (CMD_FAIL, g)
            | Some (set1, set2_set) \<Rightarrow>
                let (rc1, g) = gssb_set_burn_settings1 dr set1 g;
                    (rc2, g) = gssb_set_burn_settings2 dr set2_set g
                in if rc1 = 0 \<or> rc2 = 0 then Inr (CMD_FAIL, g) else Inr (CMD_OK, snd (gssb_reboot dr g))
          else Inr (CMD_FAIL, g)))"

definition gssb_istage_reboot :: "'g gssb \<Rightarrow> 'g \<Rightarrow> int \<times> 'g" where
  "gssb_istage_reboot dr g = (let (rc, g) = gssb_reboot dr g in (if rc \<noteq> 0 then CMD_OK else CMD_FAIL, g))"

definition gssb_istage_deploy :: "'g gssb \<Rightarrow> 'g \<Rightarrow> int \<times> 'g" where
  "gssb_istage_deploy dr g = (let (rc, g) = gssb_manual_deploy dr g in (if rc \<noteq> 0 then CMD_OK else CMD_FAIL, g))"

definition gssb_unlock :: "'g gssb \<Rightarrow> 'g \<Rightarrow> int \<times> 'g" where
  "gssb_unlock dr g = (let (rc, g) = gssb_unlock_settings dr 1 g in (if rc \<noteq> 0 then CMD_OK else CMD_FAIL, g))"

text \<open>The body of \<^verbatim>\<open>gssb_istage_arm\<close> once its parameter has been scanned.\<close>

definition istage_arm_state :: "'g gssb \<Rightarrow> int \<Rightarrow> 'g \<Rightarrow> int \<times> 'g" where
  "istage_arm_state dr state g =
     (let (rc, g) = gssb_unlock_settings dr 1 g in
      if rc = 0 then (CMD_ERROR, g)
      else if state = GSSB_ARMED_NONE then
        let (rc, g) = gssb_set_burn_settings3 dr armed_not g; g = snd (gssb_reboot dr g) in
        (if rc \<noteq> 0 then CMD_OK else CMD_FAIL, g)
      else if state = GSSB_ARMED_AUTO then
        let (rc, g) = gssb_set_burn_settings3 dr armed_auto g; g = snd (gssb_reboot dr g) in
        (if rc \<noteq> 0 then CMD_OK else CMD_FAIL, g)
      else if state = GSSB_ARMED_MANUAL then
        let (rc, g) = gssb_changestate dr 1 g in (if rc \<noteq> 0 then CMD_OK else CMD_FAIL, g)
      else (CMD_FAIL, g))"

definition gssb_istage_arm ::
  "'g gssb \<Rightarrow> string \<Rightarrow> char list option \<Rightarrow> int \<Rightarrow> 'g \<Rightarrow> (int \<times> 'g) c_result" where
  "gssb_istage_arm dr fmt params nparams g =
     (case params of
        None \<Rightarrow> Inl NullDeref
      | Some b \<Rightarrow> c_bind (scan_ints fmt b) (\<lambda>(n, is).
          if n = nparams then
            case is of [state] \<Rightarrow> Inr (istage_arm_state dr state g) | _ \<Rightarrow> Inl Uninitialised
          else Inr (CMD_FAIL, g)))"

definition gssb_istage_sensors :: "'g gssb \<Rightarrow> 'g \<Rightarrow> int \<times> 'g" where
  "gssb_istage_sensors dr g =
     (let (temp_sensor, g) = gssb_get_temperature dr g; (sun_sensor, g) = gssb_get_panel_sunsens dr g in
      (if temp_sensor = -1 \<or> sun_sensor = -1 then CMD_ERROR else CMD_OK, g))"

definition gssb_istage_status :: "'g gssb \<Rightarrow> 'g \<Rightarrow> int \<times> 'g" where
  "gssb_istage_status dr g =
     (let (rc, g) = gssb_get_counters dr g; (rel_status, g) = gssb_get_release_status dr g in
      (if rel_status = -1 \<or> rc = 0 then CMD_ERROR else CMD_OK, g))"

text \<open>One round of the loop of \<^verbatim>\<open>gssb_istage_update_status\<close>; the log statement reads the UUID.\<close>

definition istage_poll :: "'g gssb \<Rightarrow> u8 \<Rightarrow> int \<times> 'g \<Rightarrow> int \<times> 'g" where
  "istage_poll dr addr acc =
     (let (deploy_status, g) = acc; g = snd (gssb_select_device dr addr g);
          (rel_status, g) = gssb_get_release_status dr g; g = snd (gssb_get_uuid dr g)
      in (i32 (deploy_status + rel_status), g))"

definition gssb_istage_update_status ::
  "sch_config \<Rightarrow> 'x storage \<Rightarrow> 'g gssb \<Rightarrow> 'g \<Rightarrow> 'x dat_state \<Rightarrow> int \<times> 'g \<times> 'x dat_state" where
  "gssb_istage_update_status c st dr g s =
     (let (deploy_status, g) = fold (istage_poll dr) [0x10, 0x11, 0x12, 0x13] (0, g) in
      if deploy_status \<ge> 0 then (CMD_OK, g, dat_set_system_var c st dat_dep_ant_deployed deploy_status s)
      else (CMD_FAIL, g, s))"

text \<open>
  \<^verbatim>\<open>rc &= ...\<close> is the bitwise conjunction of the results.  The calls of \<^verbatim>\<open>gssb_istage_arm\<close> with their
  literal parameters are calls of its body.
\<close>

definition gssb_istage_antenna_release ::
  "'g gssb \<Rightarrow> string \<Rightarrow> char list option \<Rightarrow> int \<Rightarrow> 'g \<Rightarrow> (int \<times> 'g) c_result" where
  "gssb_istage_antenna_release dr fmt params nparams g =
     (case params of
        None \<Rightarrow> Inr (CMD_ERROR, g)
      | Some b \<Rightarrow> c_bind (scan_ints fmt b) (\<lambda>(n, is).
          if n = nparams then
            case is of
              [addr, knife_on, knife_off, repeats] \<Rightarrow>
                let set1 = \<lparr> knife_on_time = word_of_int knife_on, increment = 0, deploy_delay = 0,
                             max_repeats = word_of_int repeats, repeat_delay = word_of_int knife_off \<rparr>;
                    g = snd (gssb_select_device dr (word_of_int addr) g);
                    g = snd (gssb_unlock_settings dr 1 g);
                    (rc, g) = gssb_set_burn_settings1 dr set1 g;
                    g = snd (gssb_reboot dr g)
                in c_bind (gssb_istage_arm dr ''%d'' (Some (text_block ''0'')) 1 g) (\<lambda>(a, g).
                   c_bind (gssb_istage_arm dr ''%d'' (Some (text_block ''2'')) 1 g) (\<lambda>(m, g).
                     let (d, g) = gssb_manual_deploy dr g; rc = ((rc AND a) AND m) AND d in
                     Inr (if rc > 0 then CMD_OK else CMD_FAIL, g)))
            | _ \<Rightarrow> Inl Uninitialised
          else Inr (CMD_ERROR, g)))"

section \<open>Properties\<close>

lemma arm_scans: "scan_ints ''%d'' (text_block ''0'') = Inr (1, [0])" "scan_ints ''%d'' (text_block ''2'') = Inr (1, [2])"
  by code_simp+

text \<open>A driver whose functions report success as 1 and failure as 0, as the sources use it.\<close>

definition flag_results :: "'g gssb \<Rightarrow> bool" where
  "flag_results dr \<longleftrightarrow> (\<forall>g. fst (gssb_unlock_settings dr 1 g) \<in> {0, 1}) \<and>
     (\<forall>g x. fst (gssb_set_burn_settings1 dr x g) \<in> {0, 1}) \<and> (\<forall>g x. fst (gssb_set_burn_settings3 dr x g) \<in> {0, 1}) \<and>
     (\<forall>g. fst (gssb_changestate dr 1 g) \<in> {0, 1}) \<and> (\<forall>g. fst (gssb_manual_deploy dr g) \<in> {0, 1})"

lemma and_flags: "r \<in> {0, 1} \<Longrightarrow> r AND 1 = (r :: int)" "r AND (-1) = (r :: int)" "r AND 0 = (0 :: int)"
  by auto

lemma istage_arm_results: "fst (istage_arm_state dr state g) \<in> {-1, 0, 1}"
  by (auto simp: istage_arm_state_def Let_def split: prod.splits)

text \<open>
  Releasing an antenna.  With parameters in order, the command reports success exactly when writing
  the settings and the deployment succeed and neither arming step returns 0.  An arming step that could
  not unlock the panel returns -1, and that is as good as success: the panel may not be armed at all
  when the command reports that the antenna is being deployed.
\<close>

lemma antenna_release_result:
  assumes "flag_results dr" "scan_ints fmt b = Inr (nparams, [addr, on, off, rep])"
    and "g1 = snd (gssb_unlock_settings dr 1 (snd (gssb_select_device dr (word_of_int addr) g)))"
    and "(rc, g2) = gssb_set_burn_settings1 dr \<lparr> knife_on_time = word_of_int on, increment = 0, deploy_delay = 0,
           max_repeats = word_of_int rep, repeat_delay = word_of_int off \<rparr> g1"
    and "(a, g3) = istage_arm_state dr GSSB_ARMED_NONE (snd (gssb_reboot dr g2))"
    and "(m, g4) = istage_arm_state dr GSSB_ARMED_MANUAL g3" "(d, g5) = gssb_manual_deploy dr g4"
  shows "gssb_istage_antenna_release dr fmt (Some b) nparams g =
    Inr (if rc = 1 \<and> a \<noteq> 0 \<and> m \<noteq> 0 \<and> d = 1 then CMD_OK else CMD_FAIL, g5)"
proof -
  have f: "rc \<in> {0, 1}" "d \<in> {0, 1}"
    using assms(1,4,7) by (metis fst_conv flag_results_def)+
  have am: "a \<in> {-1, 0, 1}" "m \<in> {-1, 0, 1}"
    using istage_arm_results [of dr 0 "snd (gssb_reboot dr g2)"] istage_arm_results [of dr 2 g3] assms(5,6)
    by (metis fst_conv)+
  have "((rc AND a) AND m) AND d > 0 \<longleftrightarrow> rc = 1 \<and> a \<noteq> 0 \<and> m \<noteq> 0 \<and> d = 1"
    using f am by auto
  moreover have "gssb_istage_antenna_release dr fmt (Some b) nparams g =
      Inr (if ((rc AND a) AND m) AND d > 0 then CMD_OK else CMD_FAIL, g5)"
    using assms(2-7)
    by (simp add: gssb_istage_antenna_release_def gssb_istage_arm_def arm_scans Let_def split_def) (metis fst_conv snd_conv)
  ultimately show ?thesis by simp
qed

text \<open>A panel that answers but cannot be unlocked.\<close>

definition locked_panel :: "unit gssb" where
  "locked_panel = \<lparr> gssb_select_device = (\<lambda>_ g. (1, g)), gssb_set_i2c_addr = (\<lambda>_ g. (1, g)),
     gssb_commit_i2c_addr = (\<lambda>g. (1, g)), gssb_get_version = (\<lambda>g. (1, g)), gssb_get_uuid = (\<lambda>g. (7, g)),
     gssb_get_burn_settings1 = (\<lambda>g. (1, g)), gssb_get_burn_settings2 = (\<lambda>g. (1, g)),
     gssb_set_burn_settings1 = (\<lambda>_ g. (1, g)), gssb_set_burn_settings2 = (\<lambda>_ g. (1, g)),
     gssb_set_burn_settings3 = (\<lambda>_ g. (1, g)), gssb_unlock_settings = (\<lambda>_ g. (0, g)), gssb_reboot = (\<lambda>g. (1, g)),
     gssb_manual_deploy = (\<lambda>g. (1, g)), gssb_changestate = (\<lambda>_ g. (1, g)), gssb_get_temperature = (\<lambda>g. (0, g)),
     gssb_get_panel_sunsens = (\<lambda>g. (0, g)), gssb_get_counters = (\<lambda>g. (1, g)), gssb_get_release_status = (\<lambda>g. (0, g)) \<rparr>"

lemma antenna_release_result_witness:
  "istage_arm_state locked_panel 0 () = (-1, ()) \<and>
   gssb_istage_antenna_release locked_panel ''%d %d %d %d'' (Some (text_block ''16 2 1 5'')) 4 () = Inr (1, ())"
proof -
  have "scan_ints ''%d %d %d %d'' (text_block ''16 2 1 5'') = Inr (4, [16, 2, 1, 5])" by code_simp
  moreover have "flag_results locked_panel" by (simp add: flag_results_def locked_panel_def)
  moreover have "(1, ()) = gssb_set_burn_settings1 locked_panel x g" "(1, ()) = gssb_manual_deploy locked_panel g" for x g
    by (simp_all add: locked_panel_def)
  moreover have arm: "(-1, ()) = istage_arm_state locked_panel k g" for k g
    by (simp add: istage_arm_state_def locked_panel_def)
  ultimately have "gssb_istage_antenna_release locked_panel ''%d %d %d %d'' (Some (text_block ''16 2 1 5'')) 4 () =
      Inr (if (1 :: int) = 1 \<and> (-1 :: int) \<noteq> 0 \<and> (-1 :: int) \<noteq> 0 \<and> (1 :: int) = 1 then CMD_OK else CMD_FAIL, ())"
    by (intro antenna_release_result [OF _ _ refl])
  then show ?thesis using arm [of 0 "()"] by simp
qed

end
