(* ===== verification/CmdEPS.thy ===== *)
theory CmdEPS
  imports CmdOBC
begin

text \<open>
  The commands of the power supply (\<^verbatim>\<open>src/system/cmdEPS.c\<close>, Nanomind only).  The NanoPower client is not
  part of the sources: its functions are the fields of \<open>nanopower\<close>, over the state \<open>'e\<close>.
\<close>

record eps_hk =
  hk_vbatt :: u16
  hk_cursun :: u16
  hk_cursys :: u16
  hk_temp :: "nat \<Rightarrow> int"   \<comment> \<open>\<^verbatim>\<open>int16_t temp[6]\<close>\<close>

record 'e nanopower =
  eps_hardreset :: "'e \<Rightarrow> int \<times> 'e"
  eps_hk_get :: "'e \<Rightarrow> int \<times> eps_hk \<times> 'e"
  eps_config_get :: "'e \<Rightarrow> int \<times> 'e"
  eps_heater :: "u8 \<Rightarrow> u8 \<Rightarrow> 'e \<Rightarrow> 'e"

definition eps_hard_reset :: "'e nanopower \<Rightarrow> 'e \<Rightarrow> int \<times> 'e" where
  "eps_hard_reset np e = (let (rc, e) = eps_hardreset np e in (if rc > 0 then CMD_OK else CMD_FAIL, e))"

text \<open>The ten four-byte fields of \<^verbatim>\<open>struct eps_data\<close>.\<close>

definition eps_sample :: "int \<Rightarrow> eps_hk \<Rightarrow> u8 list" where
  "eps_sample curr_time hk = concat (map le4
     ([word_of_int curr_time, word_of_nat (unat (hk_cursun hk)), word_of_nat (unat (hk_cursys hk)),
       word_of_nat (unat (hk_vbatt hk))] @ map (\<lambda>i. word_of_int (hk_temp hk i)) [0..<6]))"

definition eps_get_hk ::
  "sch_config \<Rightarrow> 'x storage \<Rightarrow> 'e nanopower \<Rightarrow> int \<Rightarrow> 'e \<Rightarrow> 'x dat_state \<Rightarrow> int \<times> 'e \<times> 'x dat_state" where
  "eps_get_hk c st np clock e s =
     (let (rc, hk, e) = eps_hk_get np e in
      if rc > 0 then (CMD_OK, e, snd (dat_add_payload_sample c st (eps_sample clock hk) eps_sensors s))
      else (CMD_FAIL, e, s))"

definition eps_get_config :: "'e nanopower \<Rightarrow> 'e \<Rightarrow> int \<times> 'e" where
  "eps_get_config np e = (let (rc, e) = eps_config_get np e in (if rc > 0 then CMD_OK else CMD_FAIL, e))"

definition eps_set_heater ::
  "'e nanopower \<Rightarrow> string \<Rightarrow> char list option \<Rightarrow> int \<Rightarrow> 'e \<Rightarrow> (int \<times> 'e) c_result" where
  "eps_set_heater np fmt params nparams e =
     (case params of
        None \<Rightarrow> Inr (CMD_FAIL, e)
      | Some b \<Rightarrow> c_bind (scan_ints fmt b) (\<lambda>(n, is).
          if n = nparams then
            case is of
              [heater, on_off] \<Rightarrow> Inr (CMD_OK, eps_heater np (word_of_int heater) (word_of_int on_off) e)
            | _ \<Rightarrow> Inl Uninitialised
          else Inr (CMD_FAIL, e)))"

definition eps_update_status_vars ::
  "sch_config \<Rightarrow> 'x storage \<Rightarrow> 'e nanopower \<Rightarrow> 'e \<Rightarrow> 'x dat_state \<Rightarrow> int \<times> 'e \<times> 'x dat_state" where
  "eps_update_status_vars c st np e s =
     (let (rc, hk, e) = eps_hk_get np e in
      if rc > 0 then
        (CMD_OK, e, fold (\<lambda>(v, x) s. dat_set_system_var c st v x s)
           [(dat_eps_vbatt, uint (hk_vbatt hk)), (dat_eps_cur_sun, uint (hk_cursun hk)),
            (dat_eps_cur_sys, uint (hk_cursys hk)), (dat_eps_temp_bat0, hk_temp hk 4)] s)
      else (CMD_FAIL, e, s))"

text \<open>A sample has the size the payload table announces.\<close>

lemma length_eps_sample: "length (eps_sample t hk) = dm_size (data_map eps_sensors)"
  by (simp add: eps_sample_def le4_def upt_rec)

end
