(* ===== verification/CmdRW.thy ===== *)
theory CmdRW
  imports CmdDRP
begin

text \<open>
  The reaction wheel commands (\<^verbatim>\<open>src/system/cmdRW.c\<close>) over the I2C bus of the Linux board.  The system
  calls are the fields of \<open>i2c_bus\<close>.  A local array is overrun where the code writes past its end.
\<close>

section \<open>The bus\<close>

text \<open>\<^verbatim>\<open>open\<close>, \<^verbatim>\<open>ioctl(fd, I2C_SLAVE, addr)\<close>, \<^verbatim>\<open>write\<close>, \<^verbatim>\<open>read\<close> (the bytes read) and \<^verbatim>\<open>close\<close> of a descriptor.\<close>

record 'i i2c_bus =
  bus_open :: "'i \<Rightarrow> int \<times> 'i"
  bus_ioctl :: "int \<Rightarrow> int \<Rightarrow> 'i \<Rightarrow> int \<times> 'i"
  bus_write :: "int \<Rightarrow> u8 list \<Rightarrow> 'i \<Rightarrow> 'i"
  bus_read :: "int \<Rightarrow> nat \<Rightarrow> 'i \<Rightarrow> u8 list \<times> 'i"
  bus_close :: "int \<Rightarrow> 'i \<Rightarrow> 'i"
  bus_transaction :: "int \<Rightarrow> u8 list \<Rightarrow> nat \<Rightarrow> 'i \<Rightarrow> u8 list \<times> 'i"   \<comment> \<open>\<^verbatim>\<open>gs_i2c_master_transaction\<close> of the Nanomind\<close>

text \<open>\<^verbatim>\<open>close(*deviceName)\<close> closes the descriptor whose number is the code of the first character, a slash.\<close>

abbreviation (input) slash_fd :: int where "slash_fd \<equiv> 47"
abbreviation (input) sizeof_ptr :: nat where "sizeof_ptr \<equiv> 8"

definition i2c_write :: "'i i2c_bus \<Rightarrow> u8 \<Rightarrow> u8 \<Rightarrow> u8 \<Rightarrow> u8 \<Rightarrow> 'i \<Rightarrow> int \<times> 'i" where
  "i2c_write bus addr data1 data2 data3 i =
     (let (i2cHandle, i) = bus_open bus i in
      if i2cHandle < 0 then (0, i)
      else let (rc, i) = bus_ioctl bus i2cHandle (uint addr) i in
      if rc < 0 then (0, i)
      else (1, bus_close bus slash_fd (bus_write bus i2cHandle [data1, data2, data3] i)))"

abbreviation (input) READ_LEN :: nat where "READ_LEN \<equiv> 2"
abbreviation (input) BIuC_ADDR :: u8 where "BIuC_ADDR \<equiv> 0x11"
abbreviation (input) SAMPLE_SPEED_CODE :: u8 where "SAMPLE_SPEED_CODE \<equiv> 21"
abbreviation (input) SAMPLE_CURRENT_CODE :: u8 where "SAMPLE_CURRENT_CODE \<equiv> 22"
abbreviation (input) SET_SPEED_CODE :: u8 where "SET_SPEED_CODE \<equiv> 23"

text \<open>
  \<^verbatim>\<open>sizeof(buf)\<close> of an array parameter is the size of a pointer: so many bytes are cleared and read.
  \<open>n\<close> is the size of the caller's array.
\<close>

definition i2c_read :: "'i i2c_bus \<Rightarrow> nat \<Rightarrow> 'i \<Rightarrow> (int \<times> u8 list \<times> 'i) c_result" where
  "i2c_read bus n i =
     (let (i2cHandle, i) = bus_open bus i in
      if i2cHandle < 0 then Inr (0, [], i)
      else let (rc, i) = bus_ioctl bus i2cHandle (uint BIuC_ADDR) i in
      if rc < 0 then Inr (0, [], i)
      else if n < sizeof_ptr then Inl StackOverflow
      else let (bytes, i) = bus_read bus i2cHandle sizeof_ptr i in
      if length bytes \<noteq> sizeof_ptr then Inr (0, bytes, i)
      else Inr (1, bytes, bus_close bus slash_fd i))"

section \<open>Handlers\<close>

definition rw_sample_speed :: "'i i2c_bus \<Rightarrow> 'i \<Rightarrow> int \<times> 'i" where
  "rw_sample_speed bus i = i2c_write bus BIuC_ADDR SAMPLE_SPEED_CODE 0 0 i"

definition rw_sample_current :: "'i i2c_bus \<Rightarrow> 'i \<Rightarrow> int \<times> 'i" where
  "rw_sample_current bus i = i2c_write bus BIuC_ADDR SAMPLE_CURRENT_CODE 0 0 i"

text \<open>What the next two print is left out.\<close>

definition rw_get_speed :: "'i i2c_bus \<Rightarrow> 'i \<Rightarrow> (int \<times> 'i) c_result" where
  "rw_get_speed bus i =
     (let (res_w, i) = i2c_write bus BIuC_ADDR SAMPLE_SPEED_CODE 0 0 i in
      c_bind (i2c_read bus READ_LEN i) (\<lambda>(res_r, buf, i).
        Inr (if res_w \<noteq> 0 \<and> res_r \<noteq> 0 then 1 else 0, i)))"

definition rw_get_current :: "'i i2c_bus \<Rightarrow> 'i \<Rightarrow> (int \<times> 'i) c_result" where
  "rw_get_current bus i =
     (let (res_w, i) = i2c_write bus BIuC_ADDR SAMPLE_CURRENT_CODE 0 0 i in
      c_bind (i2c_read bus READ_LEN i) (\<lambda>(res_r, buf, i).
        Inr (if res_w \<noteq> 0 \<and> res_r \<noteq> 0 then 1 else 0, i)))"

text \<open>
  \<^verbatim>\<open>%d\<close> stores four bytes into the \<^verbatim>\<open>uint16_t\<close>; on the little-endian target it ends up with the low
  sixteen bits, and the other two bytes land next to it on the stack.
\<close>

definition rw_set_speed ::
  "'i i2c_bus \<Rightarrow> string \<Rightarrow> char list option \<Rightarrow> int \<Rightarrow> 'i \<Rightarrow> (int \<times> 'i) c_result" where
  "rw_set_speed bus fmt params nparams i =
     (case params of
        None \<Rightarrow> Inl NullDeref
      | Some b \<Rightarrow> c_bind (scan_ints fmt b) (\<lambda>(n, is).
          if n = nparams then
            case is of
              [v] \<Rightarrow> let speed = word_of_int v :: u16 in
                Inr (i2c_write bus BIuC_ADDR SET_SPEED_CODE (word_of_nat (unat speed mod 256)) (word_of_nat (unat speed div 256)) i)
            | _ \<Rightarrow> Inl Uninitialised
          else Inr (0, i)))"

end
