(* ===== verification/CmdFOD.thy ===== *)
theory CmdFOD
  imports CmdRW
begin

text \<open>
  The commands of the femto-satellite deployer (\<^verbatim>\<open>src/system/cmdFOD.c\<close>), which exchange text over I2C.
  What the deployer answers is scanned with \<^verbatim>\<open>sscanf\<close> from a local array without a terminator of its own.
\<close>

section \<open>Transport\<close>

abbreviation (input) FOD_ADDR :: int where "FOD_ADDR \<equiv> 7"

text \<open>
  \<^verbatim>\<open>fod_i2c_read\<close> into an array of \<open>len\<close> bytes; \<open>old\<close> is what the array holds.  On the Nanomind one
  uninitialised byte is sent first.
\<close>

definition fod_i2c_read ::
  "sch_config \<Rightarrow> 'i i2c_bus \<Rightarrow> u8 list \<Rightarrow> u8 \<Rightarrow> 'i \<Rightarrow> int \<times> u8 list \<times> 'i" where
  "fod_i2c_read c bus old junk i =
     (let len = length old in
      if platform_of c = NANOMIND then
        let (bytes, i) = bus_transaction bus FOD_ADDR [junk] len i in (CMD_OK, bytes, i)
      else
        let (i2cHandle, i) = bus_open bus i in
        if i2cHandle < 0 then (CMD_ERROR, old, i)
        else let (rc, i) = bus_ioctl bus i2cHandle FOD_ADDR i in
        if rc < 0 then (CMD_ERROR, old, i)
        else let (bytes, i) = bus_read bus i2cHandle len i in
        if length bytes mod 256 \<noteq> len then (CMD_FAIL, bytes @ replicate (len - length bytes) 0, i)
        else (CMD_OK, bytes, bus_close bus slash_fd i))"

text \<open>
  The message of \<^verbatim>\<open>fod_i2c_write\<close>.  Without parameters the number of the command is printed into two
  bytes, both of which are sent; with parameters a format that is never used is first printed into an
  array of two bytes more than a pointer.
\<close>

definition fod_message :: "int \<Rightarrow> string \<Rightarrow> char list option \<Rightarrow> u8 list c_result" where
  "fod_message cmd fmt params =
     (case params of
        None \<Rightarrow>
          if length (show_int cmd) < 2 then Inr (bytes_of (show_int cmd @ [NUL])) else Inl StackOverflow
      | Some b \<Rightarrow> c_bind (c_str b) (\<lambda>p.
          if length fmt + 4 \<le> 2 + sizeof_ptr then Inr (bytes_of (show_int cmd @ '' '' @ p)) else Inl StackOverflow))"

definition fod_i2c_write ::
  "sch_config \<Rightarrow> 'i i2c_bus \<Rightarrow> int \<Rightarrow> string \<Rightarrow> char list option \<Rightarrow> 'i \<Rightarrow> (int \<times> 'i) c_result" where
  "fod_i2c_write c bus cmd fmt params i =
     (if platform_of c = NANOMIND then
        c_bind (fod_message cmd fmt params) (\<lambda>m. Inr (CMD_OK, snd (bus_transaction bus FOD_ADDR m 1 i)))
      else
        let (i2cHandle, i) = bus_open bus i in
        if i2cHandle < 0 then Inr (CMD_ERROR, i)
        else let (rc, i) = bus_ioctl bus i2cHandle FOD_ADDR i in
        if rc < 0 then Inr (CMD_ERROR, i)
        else c_bind (fod_message cmd fmt params) (\<lambda>m.
          Inr (CMD_OK, bus_close bus slash_fd (bus_write bus i2cHandle m i))))"

section \<open>Handlers\<close>

text \<open>
  \<^verbatim>\<open>fod_update_data\<close> and \<^verbatim>\<open>set_on_time\<close>: the count of conversions decides, and the result of the write
  is not looked at.
\<close>

definition fod_checked ::
  "sch_config \<Rightarrow> 'i i2c_bus \<Rightarrow> int \<Rightarrow> string \<Rightarrow> char list option \<Rightarrow> int \<Rightarrow> 'i \<Rightarrow> (int \<times> 'i) c_result" where
  "fod_checked c bus cmd fmt params nparams i =
     (case params of
        None \<Rightarrow> Inr (CMD_FAIL, i)
      | Some b \<Rightarrow> c_bind (c_str b) (\<lambda>p.
          if fst (sscanf p fmt) = nparams then
            c_bind (fod_i2c_write c bus cmd fmt params i) (\<lambda>(rc, i). Inr (CMD_OK, i))
          else Inr (CMD_FAIL, i)))"

definition fod_update_data ::
  "sch_config \<Rightarrow> 'i i2c_bus \<Rightarrow> string \<Rightarrow> char list option \<Rightarrow> int \<Rightarrow> 'i \<Rightarrow> (int \<times> 'i) c_result" where
  "fod_update_data c bus fmt params nparams i = fod_checked c bus 0 fmt params nparams i"

definition set_on_time ::
  "sch_config \<Rightarrow> 'i i2c_bus \<Rightarrow> string \<Rightarrow> char list option \<Rightarrow> int \<Rightarrow> 'i \<Rightarrow> (int \<times> 'i) c_result" where
  "set_on_time c bus fmt params nparams i = fod_checked c bus 5 fmt params nparams i"

text \<open>\<^verbatim>\<open>if (fod_i2c_write(...)) return CMD_OK\<close>: \<^verbatim>\<open>CMD_ERROR\<close> is -1, so an error counts as success too.\<close>

definition fod_order ::
  "sch_config \<Rightarrow> 'i i2c_bus \<Rightarrow> int \<Rightarrow> string \<Rightarrow> char list option \<Rightarrow> 'i \<Rightarrow> (int \<times> 'i) c_result" where
  "fod_order c bus cmd fmt params i =
     c_bind (fod_i2c_write c bus cmd fmt params i) (\<lambda>(rc, i). Inr (if rc \<noteq> 0 then CMD_OK else CMD_FAIL, i))"

definition fod_send_beacon ::
  "sch_config \<Rightarrow> 'i i2c_bus \<Rightarrow> string \<Rightarrow> char list option \<Rightarrow> int \<Rightarrow> 'i \<Rightarrow> (int \<times> 'i) c_result" where
  "fod_send_beacon c bus fmt params nparams i = fod_order c bus 1 fmt params i"

definition deploy_femtosats ::
  "sch_config \<Rightarrow> 'i i2c_bus \<Rightarrow> string \<Rightarrow> char list option \<Rightarrow> int \<Rightarrow> 'i \<Rightarrow> (int \<times> 'i) c_result" where
  "deploy_femtosats c bus fmt params nparams i = fod_i2c_write c bus 2 fmt None i"

definition get_femtosat_data ::
  "sch_config \<Rightarrow> 'i i2c_bus \<Rightarrow> string \<Rightarrow> char list option \<Rightarrow> int \<Rightarrow> 'i \<Rightarrow> (int \<times> 'i) c_result" where
  "get_femtosat_data c bus fmt params nparams i = fod_order c bus 4 fmt None i"

definition enable_low_power_mode ::
  "sch_config \<Rightarrow> 'i i2c_bus \<Rightarrow> string \<Rightarrow> char list option \<Rightarrow> int \<Rightarrow> 'i \<Rightarrow> (int \<times> 'i) c_result" where
  "enable_low_power_mode c bus fmt params nparams i = fod_order c bus 8 fmt None i"

definition disable_low_power_mode ::
  "sch_config \<Rightarrow> 'i i2c_bus \<Rightarrow> string \<Rightarrow> char list option \<Rightarrow> int \<Rightarrow> 'i \<Rightarrow> (int \<times> 'i) c_result" where
  "disable_low_power_mode c bus fmt params nparams i = fod_order c bus 9 fmt None i"

definition fod_help ::
  "sch_config \<Rightarrow> 'i i2c_bus \<Rightarrow> string \<Rightarrow> char list option \<Rightarrow> int \<Rightarrow> 'i \<Rightarrow> (int \<times> 'i) c_result" where
  "fod_help c bus fmt params nparams i =
     c_bind (fod_i2c_write c bus 10 fmt None i) (\<lambda>(rc, i). Inr (CMD_OK, i))"

text \<open>
  The answer to \<^verbatim>\<open>fod_get_status\<close>: two bytes scanned with \<^verbatim>\<open>%d\<close>.  When no number is there, \<^verbatim>\<open>released\<close> is
  stored uninitialised; when no byte is NUL, the scan leaves the array.
\<close>

definition fod_get_status ::
  "sch_config \<Rightarrow> 'x storage \<Rightarrow> 'i i2c_bus \<Rightarrow> u8 list \<Rightarrow> u8 \<Rightarrow> string \<Rightarrow> 'i \<Rightarrow> 'x dat_state \<Rightarrow>
     (int \<times> 'i \<times> 'x dat_state) c_result" where
  "fod_get_status c st bus old junk fmt i s =
     c_bind (fod_i2c_write c bus 3 fmt None i) (\<lambda>(rc, i).
       if rc \<noteq> 0 then
         let (rc, status, i) = fod_i2c_read c bus old junk i in
         c_bind (scan_ints ''%d'' (map (\<lambda>x. char_of (unat x)) status)) (\<lambda>(n, is).
           case is of
             [released] \<Rightarrow> Inr (CMD_OK, i, dat_set_system_var c st dat_fod_released released s)
           | _ \<Rightarrow> Inl Uninitialised)
       else Inr (CMD_FAIL, i, s))"

text \<open>
  \<^verbatim>\<open>fod_get_config\<close> and \<^verbatim>\<open>fod_get_version\<close> scan a float first; \<open>trunc\<close> is its conversion to \<^verbatim>\<open>int\<close>, from the
  text of the number.
\<close>

definition fod_get_config ::
  "sch_config \<Rightarrow> 'x storage \<Rightarrow> 'i i2c_bus \<Rightarrow> (string \<Rightarrow> int) \<Rightarrow> u8 list \<Rightarrow> u8 \<Rightarrow> string \<Rightarrow> 'i \<Rightarrow> 'x dat_state \<Rightarrow>
     (int \<times> 'i \<times> 'x dat_state) c_result" where
  "fod_get_config c st bus trunc old junk fmt i s =
     c_bind (fod_i2c_write c bus 6 fmt None i) (\<lambda>(rc, i).
       if rc \<noteq> 0 then
         let (rc, buf, i) = fod_i2c_read c bus old junk i in
         c_bind (c_str (map (\<lambda>x. char_of (unat x)) buf)) (\<lambda>p.
           case sscanf p ''%f %d %d %d'' of
             (n, [VFloat ver, VInt released, VInt on_time, VInt attempts]) \<Rightarrow>
               Inr (CMD_OK, i,
                 dat_set_system_var c st dat_fod_attempts attempts
                  (dat_set_system_var c st dat_fod_on_time on_time
                   (dat_set_system_var c st dat_fod_released released
                    (dat_set_system_var c st dat_fod_ver (i32 (trunc ver)) s))))
           | _ \<Rightarrow> Inl Uninitialised)
       else Inr (CMD_FAIL, i, s))"

definition fod_get_version ::
  "sch_config \<Rightarrow> 'x storage \<Rightarrow> 'i i2c_bus \<Rightarrow> (string \<Rightarrow> int) \<Rightarrow> u8 list \<Rightarrow> u8 \<Rightarrow> string \<Rightarrow> 'i \<Rightarrow> 'x dat_state \<Rightarrow>
     (int \<times> 'i \<times> 'x dat_state) c_result" where
  "fod_get_version c st bus trunc old junk fmt i s =
     c_bind (fod_i2c_write c bus 7 fmt None i) (\<lambda>(rc, i).
       if rc \<noteq> 0 then
         let (rc, buf, i) = fod_i2c_read c bus old junk i in
         c_bind (c_str (map (\<lambda>x. char_of (unat x)) buf)) (\<lambda>p.
           case sscanf p ''%f'' of
             (n, [VFloat ver]) \<Rightarrow> Inr (CMD_OK, i, dat_set_system_var c st dat_fod_ver (i32 (trunc ver)) s)
           | _ \<Rightarrow> Inl Uninitialised)
       else Inr (CMD_FAIL, i, s))"

section \<open>Properties\<close>

text \<open>
  Stack overruns.  Whenever the I2C device opens and selects its slave, reading the wheel's speed or
  current, updating the deployer's data with valid parameters and asking the deployer for help each
  write past the end of a local array, whatever the arguments, the bus and its state.
\<close>

lemma peripheral_handlers_overrun:
  assumes "\<And>j. fst (bus_open bus j) \<ge> 0" "\<And>f a j. fst (bus_ioctl bus f a j) \<ge> 0" "platform_of c = LINUX"
    and "c_str b = Inr p" "fst (sscanf p ''%d %d %d %d %f %f %f'') = 7"
  shows "rw_get_speed bus i = Inl StackOverflow \<and> rw_get_current bus i = Inl StackOverflow \<and>
    fod_update_data c bus ''%d %d %d %d %f %f %f'' (Some b) 7 i = Inl StackOverflow \<and>
    fod_help c bus fmt params nparams i = Inl StackOverflow"
proof -
  have rd: "i2c_read bus READ_LEN j = Inl StackOverflow" for j
    using assms(1) [of j] assms(2) [of "fst (bus_open bus j)" "uint BIuC_ADDR" "snd (bus_open bus j)"]
    by (simp add: i2c_read_def Let_def split_def)
  have "fod_message 10 fmt None = Inl StackOverflow"
    "fod_message 0 ''%d %d %d %d %f %f %f'' (Some b) = Inl StackOverflow"
    using assms(4) by (simp_all add: fod_message_def show_int_def show_nat.simps)
  then have "fod_i2c_write c bus 10 fmt None i = Inl StackOverflow"
    "fod_i2c_write c bus 0 ''%d %d %d %d %f %f %f'' (Some b) i = Inl StackOverflow"
    using assms(1) [of i] assms(2) [of "fst (bus_open bus i)" FOD_ADDR "snd (bus_open bus i)"] assms(3)
    by (simp_all add: fod_i2c_write_def Let_def split_def)
  then show ?thesis using rd assms(4,5)
    by (simp add: rw_get_speed_def rw_get_current_def fod_update_data_def fod_checked_def fod_help_def split_def)
qed

definition quiet_bus :: "unit i2c_bus" where
  "quiet_bus = \<lparr> bus_open = (\<lambda>i. (3, i)), bus_ioctl = (\<lambda>_ _ i. (0, i)), bus_write = (\<lambda>_ _ i. i),
     bus_read = (\<lambda>_ n i. (replicate n 0, i)), bus_close = (\<lambda>_ i. i), bus_transaction = (\<lambda>_ _ n i. (replicate n 0, i)) \<rparr>"

lemma peripheral_handlers_overrun_witness:
  "rw_get_speed quiet_bus () = Inl StackOverflow \<and>
   fod_update_data config_h quiet_bus ''%d %d %d %d %f %f %f'' (Some (text_block ''10 20 30 4 -33.45 -70.66 520.0'')) 7 () =
     Inl StackOverflow"
proof -
  have "c_str (text_block ''10 20 30 4 -33.45 -70.66 520.0'') = Inr ''10 20 30 4 -33.45 -70.66 520.0''"
    "fst (sscanf ''10 20 30 4 -33.45 -70.66 520.0'' ''%d %d %d %d %f %f %f'') = 7"
    by code_simp+
  then show ?thesis
    using peripheral_handlers_overrun [of quiet_bus config_h "text_block ''10 20 30 4 -33.45 -70.66 520.0''" "''10 20 30 4 -33.45 -70.66 520.0''" "()"]
    by (simp add: quiet_bus_def config_h_def)
qed

end
