(* ===== verification/Handlers.thy ===== *)
theory Handlers
  imports CmdDRP CmdTM CmdFP CmdOBC CmdEPS CmdRW CmdFOD CmdSubSys TaskCommunications CmdLine Pipeline
begin

text \<open>
  The call of the executer through the function pointer of a command, for every function the command
  table registers: the handlers of all components over one state of the system.
\<close>

section \<open>The system a command runs on\<close>

text \<open>
  The drivers and libraries the handlers call, the clock, what is left in local arrays, and the
  functions of the C library the models take as parameters.
\<close>

record ('x, 'n, 'h, 'g, 'e, 'i) env =
  e_st :: "'x storage"
  e_fd :: "'x fp_driver"
  e_csp :: "'n csp"
  e_ax :: "'n ax100"
  e_board :: "'h board"
  e_gssb :: "'g gssb"
  e_eps :: "'e nanopower"
  e_bus :: "'i i2c_bus"
  e_mktime :: "tm_fields \<Rightarrow> int"
  e_ctime :: "int \<Rightarrow> string"
  e_shell :: "string \<Rightarrow> int"
  e_trunc :: "string \<Rightarrow> int"
  e_clock :: int
  e_meminfo :: "string option"
  e_stack :: "nat \<Rightarrow> u8"
  e_junk :: u32w

text \<open>\<open>w_halted\<close>: a command has reset the computer or left the program.\<close>

record ('x, 'n, 'h, 'g, 'e, 'i) world =
  w_dat :: "'x dat_state"
  w_net :: 'n
  w_board :: 'h
  w_gssb :: 'g
  w_eps :: 'e
  w_i2c :: 'i
  w_repo :: cmd_repo
  w_halted :: bool

definition on_dat where
  "on_dat r w = c_bind r (\<lambda>(rc, s). Inr (rc :: int, w\<lparr> w_dat := s \<rparr>))"

definition on_net where
  "on_net r w = c_bind r (\<lambda>(rc, n). Inr (rc :: int, w\<lparr> w_net := n \<rparr>))"

definition on_board where
  "on_board r w = c_bind r (\<lambda>(rc, h). Inr (rc :: int, w\<lparr> w_board := h \<rparr>))"

definition on_gssb where
  "on_gssb r w = c_bind r (\<lambda>(rc, g). Inr (rc :: int, w\<lparr> w_gssb := g \<rparr>))"

definition on_eps where
  "on_eps r w = c_bind r (\<lambda>(rc, e). Inr (rc :: int, w\<lparr> w_eps := e \<rparr>))"

definition on_i2c where
  "on_i2c r w = c_bind r (\<lambda>(rc, i). Inr (rc :: int, w\<lparr> w_i2c := i \<rparr>))"

text \<open>What a local array of \<open>n\<close> bytes holds before it is written.\<close>

definition local_array :: "('x, 'n, 'h, 'g, 'e, 'i) env \<Rightarrow> nat \<Rightarrow> u8 list" where
  "local_array env n = map (e_stack env) [0..<n]"

text \<open>
  \<^verbatim>\<open>com_send_data\<close> reads its parameters as a \<^verbatim>\<open>com_data_t\<close>: the node, three bytes of padding and the frame.
\<close>

definition com_data_of :: "char list \<Rightarrow> com_data c_result" where
  "com_data_of b =
     (if length b < 204 then Inl OutOfBounds
      else Inr \<lparr> d_node = hd (bytes_of b), d_frame = frame_of (take 200 (drop 4 (bytes_of b))) \<rparr>)"

section \<open>The functions\<close>

type_synonym ('x, 'n, 'h, 'g, 'e, 'i) handler =
  "sch_config \<Rightarrow> ('x, 'n, 'h, 'g, 'e, 'i) env \<Rightarrow> string \<Rightarrow> char list option \<Rightarrow> int \<Rightarrow> ('x, 'n, 'h, 'g, 'e, 'i) world \<Rightarrow>
     (int \<times> ('x, 'n, 'h, 'g, 'e, 'i) world) c_result"

definition console_handlers :: "(string \<times> ('x, 'n, 'h, 'g, 'e, 'i) handler) list" where
  "console_handlers =
     [(''cmd_null'', \<lambda>c v fmt ps np w. Inr (cmd_null fmt ps np, w)),
      (''con_debug_msg'', \<lambda>c v fmt ps np w. c_bind (con_debug_msg fmt ps np) (\<lambda>(out, rc). Inr (rc, w))),
      (''con_help'', \<lambda>c v fmt ps np w. c_bind (con_help fmt ps np (w_repo w)) (\<lambda>(out, rc, r). Inr (rc, w\<lparr> w_repo := r \<rparr>)))]"

definition drp_handlers :: "(string \<times> ('x, 'n, 'h, 'g, 'e, 'i) handler) list" where
  "drp_handlers =
     [(''drp_execute_before_flight'', \<lambda>c v fmt ps np w. on_dat (drp_execute_before_flight c (e_st v) (e_clock v) fmt ps np (w_dat w)) w),
      (''drp_print_system_vars'', \<lambda>c v fmt ps np w. case drp_print_system_vars c (e_st v) (e_junk v) fmt ps np (w_dat w) of (rc, out, s) \<Rightarrow> Inr (rc, w)),
      (''drp_update_sys_var_idx'', \<lambda>c v fmt ps np w. on_dat (drp_update_sys_var_idx c (e_st v) fmt ps np (w_dat w)) w),
      (''drp_update_hours_alive'', \<lambda>c v fmt ps np w. on_dat (drp_update_hours_alive c (e_st v) fmt ps np (w_dat w)) w),
      (''drp_clear_gnd_wdt'', \<lambda>c v fmt ps np w. on_dat (Inr (drp_clear_gnd_wdt c (e_st v) fmt ps np (w_dat w))) w),
      (''drp_test_system_vars'', \<lambda>c v fmt ps np w. on_dat (Inr (drp_test_system_vars c (e_st v) fmt ps np (w_dat w))) w),
      (''drp_set_deployed'', \<lambda>c v fmt ps np w. on_dat (drp_set_deployed c (e_st v) fmt ps np (w_dat w)) w)]"

definition fp_handlers :: "(string \<times> ('x, 'n, 'h, 'g, 'e, 'i) handler) list" where
  "fp_handlers =
     [(''fp_set'', \<lambda>c v fmt ps np w. on_dat (fp_set c (e_fd v) (e_mktime v) fmt ps np (w_dat w)) w),
      (''fp_delete'', \<lambda>c v fmt ps np w. on_dat (fp_delete c (e_fd v) (e_mktime v) fmt ps np (w_dat w)) w),
      (''fp_show'', \<lambda>c v fmt ps np w. on_dat (fp_show c (e_fd v) (w_dat w)) w),
      (''fp_reset'', \<lambda>c v fmt ps np w. on_dat (fp_reset c (e_fd v) (w_dat w)) w),
      (''test_fp_params'', \<lambda>c v fmt ps np w. c_bind (test_fp_params fmt ps np) (\<lambda>rc. Inr (rc, w)))]"

definition com_handlers :: "(string \<times> ('x, 'n, 'h, 'g, 'e, 'i) handler) list" where
  "com_handlers =
     [(''com_ping'', \<lambda>c v fmt ps np w. on_net (com_ping (e_csp v) fmt ps np (w_net w)) w),
      (''com_send_rpt'', \<lambda>c v fmt ps np w. on_net (com_send_rpt (e_csp v) fmt ps np (w_net w)) w),
      (''com_send_cmd'', \<lambda>c v fmt ps np w. on_net (com_send_cmd (e_csp v) fmt ps np (w_net w)) w),
      (''com_send_tc_frame'', \<lambda>c v fmt ps np w. on_net (com_send_tc_frame (e_csp v) fmt ps np (w_net w)) w),
      (''com_send_data'', \<lambda>c v fmt ps np w. on_net (case ps of None \<Rightarrow> Inr (com_send_data (e_csp v) None (w_net w))
          | Some b \<Rightarrow> c_bind (com_data_of b) (\<lambda>d. Inr (com_send_data (e_csp v) (Some d) (w_net w)))) w),
      (''com_debug'', \<lambda>c v fmt ps np w. Inr (com_debug fmt ps np, w)),
      (''com_reset_wdt'', \<lambda>c v fmt ps np w. c_bind (com_reset_wdt fmt ps np) (\<lambda>rc. Inr (rc, w))),
      (''com_get_config'', \<lambda>c v fmt ps np w. on_net (com_get_config (e_ax v) fmt ps np (w_net w)) w),
      (''com_set_config'', \<lambda>c v fmt ps np w. on_net (com_set_config (e_ax v) fmt ps np (w_net w)) w)]"

definition tm_handlers :: "(string \<times> ('x, 'n, 'h, 'g, 'e, 'i) handler) list" where
  "tm_handlers =
     [(''tm_parse_status'', \<lambda>c v fmt ps np w. Inr (tm_parse_status fmt ps np, w)),
      (''tm_send_status'', \<lambda>c v fmt ps np w. on_net (tm_send_status c (e_st v) (e_csp v) (e_junk v) fmt ps np (w_dat w) (w_net w)) w),
      (''tm_send_last'', \<lambda>c v fmt ps np w. on_net (tm_send_last c (e_st v) (e_csp v) (local_array v 200) fmt ps np (w_dat w) (w_net w)) w),
      (''tm_send_all'', \<lambda>c v fmt ps np w. on_net (tm_send_all c (e_st v) (e_csp v) (local_array v 200) fmt ps np (w_dat w) (w_net w)) w),
      (''tm_send_from'', \<lambda>c v fmt ps np w. on_net (tm_send_from c (e_st v) (e_csp v) (local_array v 200) fmt ps np (w_dat w) (w_net w)) w),
      (''tm_set_ack'', \<lambda>c v fmt ps np w. on_dat (tm_set_ack c (e_st v) fmt ps np (w_dat w)) w)]"

definition subsys_order :: "('n csp \<Rightarrow> 'n \<Rightarrow> (int \<times> 'n) c_result) \<Rightarrow> ('x, 'n, 'h, 'g, 'e, 'i) handler" where
  "subsys_order h = (\<lambda>c v fmt ps np w. on_net (h (e_csp v) (w_net w)) w)"

definition sub_handlers :: "(string \<times> ('x, 'n, 'h, 'g, 'e, 'i) handler) list" where
  "sub_handlers =
     map (\<lambda>(f, h). (f, subsys_order h))
       [(''get_gps_data'', get_gps_data), (''get_dpl_data'', get_dpl_data), (''get_prs_data'', get_prs_data),
        (''open_dpl_1'', open_dpl_1), (''open_dpl_2'', open_dpl_2), (''open_dpl_sm'', open_dpl_sm),
        (''close_dpl_sm'', close_dpl_sm), (''send_iridium_msg1'', send_iridium_msg1),
        (''send_iridium_msg2'', send_iridium_msg2), (''run_sstv'', run_sstv), (''send_xbee_data'', send_xbee_data),
        (''send_sun_data'', send_sun_data)] @
     [(''send_iridium_data'', \<lambda>c v fmt ps np w. c_bind (snd (send_iridium_data c (e_st v) (w_dat w))) (\<lambda>rc. Inr (rc, w)))]"

definition obc_handlers :: "(string \<times> ('x, 'n, 'h, 'g, 'e, 'i) handler) list" where
  "obc_handlers =
     [(''obc_ident'', \<lambda>c v fmt ps np w. Inr (obc_ident fmt ps np, w)),
      (''obc_debug'', \<lambda>c v fmt ps np w. on_board (obc_debug c (e_board v) fmt ps np (w_board w)) w),
      (''obc_reset'', \<lambda>c v fmt ps np w. c_bind (obc_reset c (e_board v) fmt ps np (w_board w)) (\<lambda>r.
         Inr (case r of Some (rc, h) \<Rightarrow> (rc, w\<lparr> w_board := h \<rparr>) | None \<Rightarrow> (CMD_OK, w\<lparr> w_halted := True \<rparr>)))),
      (''obc_reset_wdt'', \<lambda>c v fmt ps np w. on_board (Inr (obc_reset_wdt c (e_board v) fmt ps np (w_board w))) w),
      (''obc_system'', \<lambda>c v fmt ps np w. on_board (obc_system c (e_board v) fmt ps np (w_board w)) w),
      (''obc_get_os_memory'', \<lambda>c v fmt ps np w. Inr (fst (obc_get_os_memory c (e_meminfo v) fmt ps np), w)),
      (''obc_set_time'', \<lambda>c v fmt ps np w. on_dat (obc_set_time c (e_ctime v) (e_shell v) fmt ps np (w_dat w)) w),
      (''obc_get_time'', \<lambda>c v fmt ps np w. c_bind (obc_get_time c (e_ctime v) (e_clock v) fmt ps np (w_dat w)) (\<lambda>(rc, out). Inr (rc, w))),
      (''obc_get_sensors'', \<lambda>c v fmt ps np w. on_dat (Inr (obc_get_sensors c (e_st v) (e_board v) (e_clock v) (w_board w) (w_dat w))) w),
      (''obc_update_status'', \<lambda>c v fmt ps np w. on_dat (Inr (obc_update_status c (e_st v) (e_board v) (w_board w) (w_dat w))) w),
      (''obc_set_pwm_duty'', \<lambda>c v fmt ps np w. on_board (obc_set_pwm_duty c (e_board v) fmt ps np (w_board w)) w),
      (''gssb_pwr'', \<lambda>c v fmt ps np w. on_board (gssb_pwr (e_board v) fmt ps np (w_board w)) w)]"

definition gssb_handlers :: "(string \<times> ('x, 'n, 'h, 'g, 'e, 'i) handler) list" where
  "gssb_handlers =
     [(''gssb_select_dev'', \<lambda>c v fmt ps np w. on_gssb (gssb_select_dev (e_gssb v) fmt ps np (w_gssb w)) w),
      (''gssb_ident'', \<lambda>c v fmt ps np w. on_gssb (Inr (gssb_ident (e_gssb v) (w_gssb w))) w),
      (''gssb_set_addr'', \<lambda>c v fmt ps np w. on_gssb (gssb_set_addr (e_gssb v) fmt ps np (w_gssb w)) w),
      (''gssb_unlock'', \<lambda>c v fmt ps np w. on_gssb (Inr (gssb_unlock (e_gssb v) (w_gssb w))) w),
      (''gssb_istage_settings'', \<lambda>c v fmt ps np w. on_gssb (gssb_istage_settings (e_gssb v) fmt ps np (w_gssb w)) w),
      (''gssb_istage_get_settings'', \<lambda>c v fmt ps np w. on_gssb (Inr (gssb_istage_get_settings (e_gssb v) (w_gssb w))) w),
      (''gssb_istage_sensors'', \<lambda>c v fmt ps np w. on_gssb (Inr (gssb_istage_sensors (e_gssb v) (w_gssb w))) w),
      (''gssb_istage_status'', \<lambda>c v fmt ps np w. on_gssb (Inr (gssb_istage_status (e_gssb v) (w_gssb w))) w),
      (''gssb_istage_reboot'', \<lambda>c v fmt ps np w. on_gssb (Inr (gssb_istage_reboot (e_gssb v) (w_gssb w))) w),
      (''gssb_istage_arm'', \<lambda>c v fmt ps np w. on_gssb (gssb_istage_arm (e_gssb v) fmt ps np (w_gssb w)) w),
      (''gssb_istage_deploy'', \<lambda>c v fmt ps np w. on_gssb (Inr (gssb_istage_deploy (e_gssb v) (w_gssb w))) w),
      (''gssb_istage_antenna_release'', \<lambda>c v fmt ps np w. on_gssb (gssb_istage_antenna_release (e_gssb v) fmt ps np (w_gssb w)) w),
      (''gssb_istage_update_status'', \<lambda>c v fmt ps np w.
         case gssb_istage_update_status c (e_st v) (e_gssb v) (w_gssb w) (w_dat w) of (rc, g, s) \<Rightarrow> Inr (rc, w\<lparr> w_gssb := g, w_dat := s \<rparr>))]"

definition eps_handlers :: "(string \<times> ('x, 'n, 'h, 'g, 'e, 'i) handler) list" where
  "eps_handlers =
     [(''eps_hard_reset'', \<lambda>c v fmt ps np w. on_eps (Inr (eps_hard_reset (e_eps v) (w_eps w))) w),
      (''eps_get_config'', \<lambda>c v fmt ps np w. on_eps (Inr (eps_get_config (e_eps v) (w_eps w))) w),
      (''eps_set_heater'', \<lambda>c v fmt ps np w. on_eps (eps_set_heater (e_eps v) fmt ps np (w_eps w)) w),
      (''eps_get_hk'', \<lambda>c v fmt ps np w. case eps_get_hk c (e_st v) (e_eps v) (e_clock v) (w_eps w) (w_dat w) of
         (rc, e, s) \<Rightarrow> Inr (rc, w\<lparr> w_eps := e, w_dat := s \<rparr>)),
      (''eps_update_status_vars'', \<lambda>c v fmt ps np w. case eps_update_status_vars c (e_st v) (e_eps v) (w_eps w) (w_dat w) of
         (rc, e, s) \<Rightarrow> Inr (rc, w\<lparr> w_eps := e, w_dat := s \<rparr>))]"

definition rw_handlers :: "(string \<times> ('x, 'n, 'h, 'g, 'e, 'i) handler) list" where
  "rw_handlers =
     [(''rw_set_speed'', \<lambda>c v fmt ps np w. on_i2c (rw_set_speed (e_bus v) fmt ps np (w_i2c w)) w),
      (''rw_get_speed'', \<lambda>c v fmt ps np w. on_i2c (rw_get_speed (e_bus v) (w_i2c w)) w),
      (''rw_get_current'', \<lambda>c v fmt ps np w. on_i2c (rw_get_current (e_bus v) (w_i2c w)) w),
      (''rw_sample_speed'', \<lambda>c v fmt ps np w. on_i2c (Inr (rw_sample_speed (e_bus v) (w_i2c w))) w),
      (''rw_sample_current'', \<lambda>c v fmt ps np w. on_i2c (Inr (rw_sample_current (e_bus v) (w_i2c w))) w)]"

text \<open>The answers of the deployer are read into arrays of 2, 14 and 5 bytes.\<close>

definition fod_handlers :: "(string \<times> ('x, 'n, 'h, 'g, 'e, 'i) handler) list" where
  "fod_handlers =
     map (\<lambda>(f, h). (f, \<lambda>c v fmt ps np w. on_i2c (h c (e_bus v) fmt ps np (w_i2c w)) w))
       [(''fod_update_data'', fod_update_data), (''set_on_time'', set_on_time), (''fod_send_beacon'', fod_send_beacon),
        (''deploy_femtosats'', deploy_femtosats), (''get_femtosat_data'', get_femtosat_data),
        (''enable_low_power_mode'', enable_low_power_mode), (''disable_low_power_mode'', disable_low_power_mode), (''fod_help'', fod_help)] @
     map (\<lambda>(f, h). (f, \<lambda>c v fmt ps np w. c_bind (h c v fmt w) (\<lambda>(rc, i, s). Inr (rc, w\<lparr> w_i2c := i, w_dat := s \<rparr>))))
       [(''fod_get_status'', \<lambda>c v fmt w. fod_get_status c (e_st v) (e_bus v) (local_array v 2) (e_stack v 14) fmt (w_i2c w) (w_dat w)),
        (''fod_get_config'', \<lambda>c v fmt w. fod_get_config c (e_st v) (e_bus v) (e_trunc v) (local_array v 14) (e_stack v 14) fmt (w_i2c w) (w_dat w)),
        (''fod_get_version'', \<lambda>c v fmt w. fod_get_version c (e_st v) (e_bus v) (e_trunc v) (local_array v 5) (e_stack v 14) fmt (w_i2c w) (w_dat w))]"

definition handlers :: "(string \<times> ('x, 'n, 'h, 'g, 'e, 'i) handler) list" where
  "handlers = console_handlers @ drp_handlers @ fp_handlers @ com_handlers @ tm_handlers @ sub_handlers @ obc_handlers @
     gssb_handlers @ eps_handlers @ rw_handlers @ fod_handlers"

text \<open>
  The call \<^verbatim>\<open>cmd->function(cmd->fmt, cmd->params, cmd->nparams)\<close>.  A name that is no function of the program
  cannot be a function pointer of a command that was taken from the table.
\<close>

definition run_handler ::
  "sch_config \<Rightarrow> ('x, 'n, 'h, 'g, 'e, 'i) env \<Rightarrow> cmd_t \<Rightarrow> ('x, 'n, 'h, 'g, 'e, 'i) world \<Rightarrow>
     (int \<times> ('x, 'n, 'h, 'g, 'e, 'i) world) c_result" where
  "run_handler c v k w =
     (case map_of handlers (c_function k) of
        None \<Rightarrow> Inl NullDeref
      | Some h \<Rightarrow> h c v (c_fmt k) (c_params k) (c_nparams k) w)"

section \<open>What a command returns\<close>

text \<open>\<^verbatim>\<open>CMD_OK\<close>, \<^verbatim>\<open>CMD_FAIL\<close> or \<^verbatim>\<open>CMD_ERROR\<close> (\<^verbatim>\<open>repoCommand.h\<close>).\<close>

definition cmd_result :: "int \<Rightarrow> bool" where
  "cmd_result rc \<longleftrightarrow> rc = CMD_OK \<or> rc = CMD_FAIL \<or> rc = CMD_ERROR"

definition typed :: "(int \<times> 'a) c_result \<Rightarrow> bool" where
  "typed r \<longleftrightarrow> (\<forall>rc a. r = Inr (rc, a) \<longrightarrow> cmd_result rc)"

named_theorems typed_rules

lemma typed_simps [simp]: "typed (Inr p) \<longleftrightarrow> cmd_result (fst p)" "typed (Inl e)" "cmd_result 1" "cmd_result 0" "cmd_result (-1)"
  by (cases p; auto simp: typed_def cmd_result_def)+

lemma typed_bind [typed_rules]: "(\<And>x. r = Inr x \<Longrightarrow> typed (f x)) \<Longrightarrow> typed (c_bind r f)"
  by (cases r) auto

lemma typed_on:
  "typed r1 \<Longrightarrow> typed (on_dat r1 w)" "typed r2 \<Longrightarrow> typed (on_net r2 w)" "typed r3 \<Longrightarrow> typed (on_board r3 w)"
  "typed r4 \<Longrightarrow> typed (on_gssb r4 w)" "typed r5 \<Longrightarrow> typed (on_eps r5 w)" "typed r6 \<Longrightarrow> typed (on_i2c r6 w)"
  by (auto simp: on_dat_def on_net_def on_board_def on_gssb_def on_eps_def on_i2c_def typed_def c_bind_Inr_iff)

lemma typed_pair: "typed r \<Longrightarrow> typed (c_bind r (\<lambda>(rc, out). Inr (rc, w)))"
  by (cases r) auto

lemma typed_triple: "typed r \<Longrightarrow> typed (c_bind r (\<lambda>(rc, i, s). Inr (rc, w i s)))"
  by (cases r) auto

lemma typed_drp:
  "typed (drp_execute_before_flight c st clock fmt ps np s)" "cmd_result (fst (drp_print_system_vars c st j fmt ps np s))"
  "typed (drp_update_sys_var_idx c st fmt ps np s)" "typed (drp_update_hours_alive c st fmt ps np s)"
  "cmd_result (fst (drp_clear_gnd_wdt c st fmt ps np s))" "typed (drp_set_deployed c st fmt ps np s)"
  by (auto simp: drp_execute_before_flight_def drp_print_system_vars_def drp_update_sys_var_idx_def drp_update_hours_alive_def
      drp_clear_gnd_wdt_def drp_set_deployed_def Let_def intro!: typed_rules split: option.splits prod.splits list.splits)

lemma typed_fp:
  "typed (fp_set c fd mk fmt ps np s)" "typed (fp_delete c fd mk fmt ps np s)" "typed (fp_show c fd s)" "typed (fp_reset c fd s)"
  by (auto simp: fp_set_def fp_delete_def fp_show_def fp_reset_def Let_def c_bind_Inr_iff intro!: typed_rules
      split: option.splits prod.splits list.splits scan_val.splits if_splits)

lemma typed_test_fp: "typed (c_bind (test_fp_params fmt ps np) (\<lambda>rc. Inr (rc, a)))"
  by (cases ps) (auto simp: test_fp_params_def c_bind_Inr_iff Let_def split_def intro!: typed_bind split: if_splits)

lemma typed_com:
  "typed (com_ping net fmt ps np n)" "typed (com_send_rpt net fmt ps np n)" "typed (send_tc net len fmt ps np n)"
  "cmd_result (fst (com_send_data net d n))" "com_reset_wdt fmt ps np = Inr rc \<Longrightarrow> cmd_result rc"
  by (auto simp: com_ping_def com_send_rpt_def send_tc_def com_send_data_def com_reset_wdt_def Let_def c_bind_Inr_iff intro!: typed_rules
      split: option.splits prod.splits list.splits scan_val.splits if_splits)

lemma typed_ax:
  "typed (com_get_config ax fmt ps np n)" "typed (com_set_config ax fmt ps np n)"
  by (auto simp: com_get_config_def com_set_config_def Let_def intro!: typed_rules
      split: option.splits prod.splits list.splits scan_val.splits if_splits)

lemma typed_tm:
  "cmd_result (tm_parse_status fmt ps np)" "typed (tm_send_status c st net j fmt ps np s n)" "typed (tm_send_last c st net junk fmt ps np s n)"
  "typed (tm_send_all c st net junk fmt ps np s n)" "typed (tm_send_from c st net junk fmt ps np s n)" "typed (tm_set_ack c st fmt ps np s)"
  using typed_com(4) [of net]
  by (auto simp: tm_parse_status_def tm_send_status_def tm_send_last_def tm_send_all_def tm_send_from_def tm_set_ack_def Let_def
      intro!: typed_rules split: option.splits prod.splits list.splits if_splits)

lemma typed_obc:
  "typed (obc_debug c hw fmt ps np h)" "typed (obc_system c hw fmt ps np h)" "typed (obc_set_time c ct sh fmt ps np s)"
  "typed (obc_get_time c ct clk fmt ps np s)" "cmd_result (fst (obc_get_sensors c st hw clk h s))" "cmd_result (fst (obc_update_status c st hw h s))"
  "typed (obc_set_pwm_duty c hw fmt ps np h)" "typed (gssb_pwr hw fmt ps np h)" "cmd_result (fst (obc_get_os_memory c m fmt ps np))"
  by (auto simp: obc_debug_def obc_system_def obc_set_time_def obc_get_time_def obc_get_sensors_def obc_update_status_def
      obc_set_pwm_duty_def gssb_pwr_def obc_get_os_memory_def Let_def intro!: typed_rules
      split: option.splits prod.splits list.splits if_splits platform.splits)

lemma typed_gssb:
  "typed (gssb_select_dev dr fmt ps np g)" "cmd_result (fst (gssb_ident dr g))" "typed (gssb_set_addr dr fmt ps np g)"
  "cmd_result (fst (gssb_unlock dr g))" "typed (gssb_istage_settings dr fmt ps np g)" "cmd_result (fst (gssb_istage_get_settings dr g))"
  "cmd_result (fst (gssb_istage_sensors dr g))" "cmd_result (fst (gssb_istage_status dr g))" "cmd_result (fst (gssb_istage_reboot dr g))"
  "typed (gssb_istage_arm dr fmt ps np g)" "cmd_result (fst (gssb_istage_deploy dr g))" "typed (gssb_istage_antenna_release dr fmt ps np g)"
  "cmd_result (fst (gssb_istage_update_status c st dr g s))"
  by (auto simp: gssb_select_dev_def gssb_ident_def gssb_set_addr_def gssb_unlock_def gssb_istage_settings_def gssb_istage_get_settings_def
      gssb_istage_sensors_def gssb_istage_status_def gssb_istage_reboot_def gssb_istage_arm_def gssb_istage_deploy_def
      gssb_istage_antenna_release_def gssb_istage_update_status_def istage_arm_state_def Let_def intro!: typed_rules
      split: option.splits prod.splits list.splits if_splits)

lemma typed_i2c:
  "cmd_result (fst (i2c_write bus a b d e i))" "typed (rw_set_speed bus fmt ps np i)" "typed (rw_get_speed bus i)" "typed (rw_get_current bus i)"
  "typed (fod_i2c_write c bus cmd fmt ps i)" "typed (fod_checked c bus cmd fmt ps np i)" "typed (fod_order c bus cmd fmt ps i)" "typed (fod_help c bus fmt ps np i)"
  "typed (fod_get_status c st bus old j fmt i s)" "typed (fod_get_config c st bus tr old j fmt i s)" "typed (fod_get_version c st bus tr old j fmt i s)"
  by (auto simp: i2c_write_def rw_set_speed_def rw_get_speed_def rw_get_current_def fod_i2c_write_def fod_checked_def fod_order_def fod_help_def
      fod_get_status_def fod_get_config_def fod_get_version_def Let_def intro!: typed_rules
      split: option.splits prod.splits list.splits if_splits scan_val.splits)

lemma typed_eps:
  "cmd_result (fst (eps_hard_reset np e))" "cmd_result (fst (eps_get_config np e))" "typed (eps_set_heater np fmt ps n e)"
  "cmd_result (fst (eps_get_hk c st np clk e s))" "cmd_result (fst (eps_update_status_vars c st np e s))"
  by (auto simp: eps_hard_reset_def eps_get_config_def eps_set_heater_def eps_get_hk_def eps_update_status_vars_def Let_def intro!: typed_rules
      split: option.splits prod.splits list.splits if_splits)

lemma typed_sub:
  "typed (rpt_order net txt n)" "snd (send_iridium_data c st s) = Inl e \<Longrightarrow> typed (c_bind (snd (send_iridium_data c st s)) f)"
  by (auto simp: rpt_order_def intro!: typed_rules)

text \<open>The handlers of a group.\<close>

definition typed_handlers :: "(string \<times> ('x, 'n, 'h, 'g, 'e, 'i) handler) list \<Rightarrow> bool" where
  "typed_handlers hs \<longleftrightarrow> (\<forall>(f, h) \<in> set hs. \<forall>c v fmt ps np w. typed (h c v fmt ps np w))"

lemma typed_test_vars: "cmd_result (fst (drp_test_system_vars c st fmt ps np s))"
proof -
  have "cmd_result (fst (fold (test_system_var c st) vs (rc, s)))" if "cmd_result rc" for vs rc s
    using that
  proof (induction vs arbitrary: rc s)
    case (Cons v vs)
    obtain rc' s' where t: "test_system_var c st v (rc, s) = (rc', s')" by (cases "test_system_var c st v (rc, s)")
    then have "cmd_result rc'" using Cons.prems by (auto simp: test_system_var_def Let_def split: if_splits)
    then show ?case using Cons.IH t by simp
  qed simp
  then show ?thesis by (simp add: drp_test_system_vars_def)
qed

lemmas typed_all = typed_on typed_drp typed_fp typed_test_fp typed_com typed_ax typed_tm typed_obc typed_gssb typed_i2c typed_eps typed_sub typed_test_vars

lemma con_debug_msg_typed:
  assumes "con_debug_msg fmt ps np = Inr (out, rc)"
  shows "cmd_result rc"
proof (cases ps)
  case None
  then show ?thesis using assms by (simp add: con_debug_msg_def)
next
  case (Some b)
  then obtain p where p: "c_str b = Inr p" using assms by (auto simp: con_debug_msg_def c_bind_Inr_iff)
  obtain n vs where "sscanf p fmt = (n, vs)" by (cases "sscanf p fmt")
  then show ?thesis using assms Some p
    by (auto simp: con_debug_msg_def split: list.split_asm scan_val.split_asm if_split_asm)
qed

lemma console_typed: "typed_handlers console_handlers"
  by (auto simp: typed_handlers_def console_handlers_def cmd_null_def con_help_def c_bind_Inr_iff
      intro!: typed_bind intro: con_debug_msg_typed)

lemma drp_typed: "typed_handlers drp_handlers"
  by (simp add: typed_handlers_def drp_handlers_def drp_print_system_vars_def typed_on typed_drp typed_test_vars)

lemma fp_typed: "typed_handlers fp_handlers"
  by (simp add: typed_handlers_def fp_handlers_def typed_on typed_fp typed_test_fp)

lemma com_typed: "typed_handlers com_handlers"
  by (auto simp: typed_handlers_def com_handlers_def com_debug_def com_reset_wdt_def com_send_cmd_def com_send_tc_frame_def
      typed_com typed_ax c_bind_Inr_iff intro!: typed_on typed_bind split: option.splits)

lemma tm_typed: "typed_handlers tm_handlers"
  by (simp add: typed_handlers_def tm_handlers_def typed_on typed_tm)

lemma sub_typed: "typed_handlers sub_handlers"
  by (auto simp: typed_handlers_def sub_handlers_def subsys_order_def get_gps_data_def get_dpl_data_def get_prs_data_def open_dpl_1_def
      open_dpl_2_def open_dpl_sm_def close_dpl_sm_def send_iridium_msg1_def send_iridium_msg2_def run_sstv_def send_xbee_data_def
      send_sun_data_def send_iridium_data_def rpt_order_def intro!: typed_on typed_bind)

lemma obc_typed: "typed_handlers obc_handlers"
proof -
  have "typed (c_bind (obc_reset c hw fmt ps np h) (\<lambda>r. Inr (case r of Some (rc, h) \<Rightarrow> (rc, w1 h) | None \<Rightarrow> (CMD_OK, w2))))" for c hw fmt ps np h w1 w2
    by (auto simp: obc_reset_def c_bind_Inr_iff intro!: typed_bind split: option.splits platform.splits if_splits)
  note reset = this
  show ?thesis
    by (simp add: typed_handlers_def obc_handlers_def obc_ident_def obc_reset_wdt_def typed_on typed_pair typed_obc reset)
qed

lemma gssb_typed: "typed_handlers gssb_handlers"
  by (simp add: typed_handlers_def gssb_handlers_def typed_on typed_gssb case_prod_unfold)

lemma eps_typed: "typed_handlers eps_handlers"
  by (simp add: typed_handlers_def eps_handlers_def typed_on typed_eps case_prod_unfold)

lemma rw_typed: "typed_handlers rw_handlers"
  by (simp add: typed_handlers_def rw_handlers_def rw_sample_speed_def rw_sample_current_def typed_on typed_i2c)

lemma fod_typed: "typed_handlers fod_handlers"
  by (simp add: typed_handlers_def fod_handlers_def fod_update_data_def set_on_time_def fod_send_beacon_def deploy_femtosats_def
      get_femtosat_data_def enable_low_power_mode_def disable_low_power_mode_def typed_on typed_triple typed_i2c)

lemma all_typed: "typed_handlers handlers"
  using console_typed drp_typed fp_typed com_typed tm_typed sub_typed obc_typed gssb_typed eps_typed rw_typed fod_typed
  unfolding handlers_def typed_handlers_def by (simp add: ball_Un)

text \<open>Every function of the command table is one of them.\<close>

lemma tables_handled:
  "l_function ` set (cmd_obc_table c) \<subseteq> fst ` set (obc_handlers @ gssb_handlers)"
  "l_function ` set (cmd_drp_table c) \<subseteq> fst ` set drp_handlers"
  "l_function ` set (cmd_eps_table c) \<subseteq> fst ` set eps_handlers"
  "l_function ` set (cmd_com_table c) \<subseteq> fst ` set com_handlers"
  "l_function ` set (cmd_tm_table c) \<subseteq> fst ` set tm_handlers"
  "l_function ` set (cmd_subsys_table c) \<subseteq> fst ` set sub_handlers"
  "l_function ` set (cmd_rw_table c) \<subseteq> fst ` set rw_handlers"
  "l_function ` set (cmd_fod_table c) \<subseteq> fst ` set fod_handlers"
  "l_function ` set (cmd_console_table c) \<subseteq> fst ` set console_handlers"
  "l_function ` set (cmd_fp_table c) \<subseteq> fst ` set fp_handlers"
proof -
  note e = cmd_entry_def use_nanopower_def use_nanocom_def
  show "l_function ` set (cmd_obc_table c) \<subseteq> fst ` set (obc_handlers @ gssb_handlers)"
    by (cases "platform_of c"; simp add: cmd_obc_table_def e obc_handlers_def gssb_handlers_def)
  show "l_function ` set (cmd_drp_table c) \<subseteq> fst ` set drp_handlers" by (simp add: cmd_drp_table_def e drp_handlers_def)
  show "l_function ` set (cmd_eps_table c) \<subseteq> fst ` set eps_handlers"
    by (cases "platform_of c"; simp add: cmd_eps_table_def e eps_handlers_def)
  show "l_function ` set (cmd_com_table c) \<subseteq> fst ` set com_handlers"
    by (cases "platform_of c"; simp add: cmd_com_table_def e com_handlers_def)
  show "l_function ` set (cmd_tm_table c) \<subseteq> fst ` set tm_handlers" by (simp add: cmd_tm_table_def e tm_handlers_def)
  show "l_function ` set (cmd_subsys_table c) \<subseteq> fst ` set sub_handlers" by (simp add: cmd_subsys_table_def e sub_handlers_def)
  show "l_function ` set (cmd_rw_table c) \<subseteq> fst ` set rw_handlers"
    by (cases "platform_of c"; simp add: cmd_rw_table_def e rw_handlers_def)
  show "l_function ` set (cmd_fod_table c) \<subseteq> fst ` set fod_handlers" by (simp add: cmd_fod_table_def e fod_handlers_def)
  show "l_function ` set (cmd_console_table c) \<subseteq> fst ` set console_handlers" by (simp add: cmd_console_table_def e console_handlers_def)
  show "l_function ` set (cmd_fp_table c) \<subseteq> fst ` set fp_handlers" by (simp add: cmd_fp_table_def e fp_handlers_def)
qed

lemma table_handled:
  assumes "e \<in> set (cmd_table c)"
  shows "l_function e \<in> fst ` set handlers"
proof -
  note t = tables_handled [of c, THEN subsetD, OF imageI]
  have "e \<in> set (cmd_obc_table c) \<or> e \<in> set (cmd_drp_table c) \<or> e \<in> set (cmd_eps_table c) \<or> e \<in> set (cmd_com_table c) \<or>
      e \<in> set (cmd_tm_table c) \<or> e \<in> set (cmd_subsys_table c) \<or> e \<in> set (cmd_rw_table c) \<or> e \<in> set (cmd_fod_table c) \<or>
      e \<in> set (cmd_console_table c) \<or> e \<in> set (cmd_fp_table c)"
    using assms unfolding cmd_table_def by (simp only: set_append Un_iff list.set empty_iff split: if_split_asm) blast+
  then show ?thesis
    unfolding handlers_def set_append image_Un Un_iff
    by (elim disjE) (blast dest: t [unfolded set_append image_Un Un_iff])+
qed

lemma handlers_typed:
  fixes v :: "('x, 'n, 'h, 'g, 'e, 'i) env"
  assumes "run_handler c v k w = Inr (rc, w')"
  shows "cmd_result rc"
proof -
  have all: "typed_handlers (handlers :: (string \<times> ('x, 'n, 'h, 'g, 'e, 'i) handler) list)" by (rule all_typed)
  obtain h :: "('x, 'n, 'h, 'g, 'e, 'i) handler" where
    h: "map_of handlers (c_function k) = Some h" "h c v (c_fmt k) (c_params k) (c_nparams k) w = Inr (rc, w')"
    using assms by (auto simp: run_handler_def split: option.splits)
  have "typed (h c v (c_fmt k) (c_params k) (c_nparams k) w)"
    using all map_of_SomeD [OF h(1)] unfolding typed_handlers_def by fast
  then show ?thesis using h(2) by simp
qed

lemma registered_handled:
  fixes v :: "('x, 'n, 'h, 'g, 'e, 'i) env"
  assumes "e \<in> set (cmd_table c)" "c_function k = l_function e"
  shows "\<exists>h. (l_function e, h) \<in> set handlers \<and> run_handler c v k w = h c v (c_fmt k) (c_params k) (c_nparams k) w"
proof -
  have "l_function e \<in> fst ` set (handlers :: (string \<times> ('x, 'n, 'h, 'g, 'e, 'i) handler) list)"
    by (rule table_handled [OF assms(1)])
  then obtain h :: "('x, 'n, 'h, 'g, 'e, 'i) handler" where h: "map_of handlers (l_function e) = Some h"
    by (metis map_of_eq_None_iff not_None_eq)
  then show ?thesis using map_of_SomeD [OF h] assms(2) by (auto simp: run_handler_def)
qed

section \<open>From a line to its handler\<close>

lemma table_words: "e \<in> set (cmd_table c) \<Longrightarrow> word (l_name e)"
  by (cases "platform_of c")
    (auto simp: cmd_table_def cmd_tables use_nanopower_def use_nanocom_def cmd_entry_def word_def isspace_def split: if_splits)

lemma line_parsed:
  assumes "cmd_repo_init c cmd_repo_start = Some (rc, r)" "e \<in> set (cmd_table c)" "list_all isspace ws" "ws \<noteq> []"
    "no_lead_space a" "a \<noteq> []" "c_string a" "length a \<le> SCH_CMD_MAX_STR_PARAMS"
  shows "\<exists>k b. cmd_parse_from_str c (l_name e @ ws @ a) r = Inr (Some k) \<and> c_function k = l_function e \<and> c_fmt k = l_fmt e \<and>
    c_nparams k = l_nparams e \<and> c_params k = Some b \<and> c_str b = Inr a"
proof -
  have "cmd_wf c cmd_repo_start" by (simp add: cmd_wf_def cmd_repo_start_def)
  then obtain i where "cmd_get_str c (l_name e) r = Inr (Some (cmd_of i e))"
    using cmd_get_str_registered [OF cmd_repo_init_built [OF _ assms(1)] assms(2)] by blast
  then show ?thesis
    using cmd_parse_line [of "[]" "l_name e" ws a c r] table_words [OF assms(2)] assms(3-5) params_block_fits [OF assms(7,6,8)]
    by (auto simp: cmd_of_def)
qed

text \<open>A command sent while nothing is on its way.\<close>

lemma sent_when_idle:
  assumes "reachable run False False a s" "rank s = 0" "heap s p = None" "run k (app s) = Inr (rc, z)"
  shows "\<exists>s1. cmd_send False (Some (p, k)) s = Some s1 \<and>
    (\<exists>s2. (internal_step run False False ^^ rank s1) s1 s2) \<and>
    (\<forall>s2. (internal_step run False False ^^ rank s1) s1 s2 \<longrightarrow> executed s2 = executed s @ [k] \<and> app s2 = z \<and> in_flight s2 = [])"
proof -
  have inv: "flow_inv run False a s" by (rule flow_inv_reachable [OF assms(1)])
  have "q_items (dispatcher_queue s) = 0" using assms(2) by (simp add: rank_def)
  moreover have "q_size (dispatcher_queue s) = 25" using inv by (simp add: flow_inv_def pipe_ok_def)
  ultimately obtain s1 where s1: "cmd_send False (Some (p, k)) s = Some s1" "sent s1 = sent s @ [k]"
    by (auto simp: cmd_send_def blocking_send_eq)
  have r1: "reachable run False False a s1" by (rule reachable.send [OF assms(1) _ assms(3) s1(1)]) simp
  have ex: "executed s = sent s" using inv rank_0(1) [OF assms(2)] by (simp add: flow_inv_def waiting_def)
  have all: "run_all run (sent s1) a = Inr z"
    using inv assms(4) by (simp add: s1(2) run_all_snoc flow_inv_def ex)
  have "\<exists>s2. (internal_step run False False ^^ n) s1 s2" if "n \<le> rank s1" for n
    using that
  proof (induction n)
    case (Suc n)
    then obtain m where m: "(internal_step run False False ^^ n) s1 m" by auto
    then show ?case using completes [OF r1 all m] Suc.prems by (auto intro: relpowp_Suc_I)
  qed auto
  then show ?thesis using s1 completes [OF r1 all] ex by fastforce
qed

section \<open>Properties\<close>


text \<open>A computer on the bench: nothing is connected, the network takes everything.\<close>

definition bench_env :: "(unit, unit, unit, unit, unit, unit) env" where
  "bench_env = \<lparr> e_st = no_storage, e_fd = no_fp_driver,
     e_csp = \<lparr> csp_ping = \<lambda>_ n. (1, n), csp_buffer_get = \<lambda>_ n. (True, n), csp_buffer_free = \<lambda>n. n, csp_sendto = \<lambda>_ _ _ n. (0, n),
       csp_transaction = \<lambda>_ _ _ n. (0, None, n) \<rparr>,
     e_ax = \<lparr> ax100_param_running = 0, ax100_param_tx0 = 0, ax100_config = [], ax100_tx_config = [], rparam_get_single = \<lambda>_ _ n. (0, 0, n),
       rparam_set_single = \<lambda>_ _ _ n. (0, n) \<rparr>,
     e_board = \<lparr> led_toggle = \<lambda>_ h. h, led_A = 0, wdt_clear = \<lambda>h. h, sh_system = \<lambda>_ h. (0, h), pwm_enable = \<lambda>_ h. h,
       pwm_set_duty = \<lambda>_ _ h. h, lm70_read_temp = \<lambda>_ _. 0, f32_tenth = \<lambda>_. 0, mpu3300_read_temp = \<lambda>_. 0, mpu3300_read_gyro = \<lambda>_. (0, 0, 0),
       hmc5843_read_single = \<lambda>_. (0, 0, 0), pwr_switch = \<lambda>_ _ h. h \<rparr>,
     e_gssb = locked_panel,
     e_eps = \<lparr> eps_hardreset = \<lambda>e. (0, e), eps_hk_get = \<lambda>e. (0, \<lparr> hk_vbatt = 0, hk_cursun = 0, hk_cursys = 0, hk_temp = \<lambda>_. 0 \<rparr>, e),
       eps_config_get = \<lambda>e. (0, e), eps_heater = \<lambda>_ _ e. e \<rparr>,
     e_bus = quiet_bus, e_mktime = \<lambda>_. 0, e_ctime = \<lambda>_. [], e_shell = \<lambda>_. 0, e_trunc = \<lambda>_. 0, e_clock = 0, e_meminfo = None,
     e_stack = \<lambda>_. 0, e_junk = 0 \<rparr>"

definition bench_world :: "(unit, unit, unit, unit, unit, unit) world" where
  "bench_world = \<lparr> w_dat = dat_zero, w_net = (), w_board = (), w_gssb = (), w_eps = (), w_i2c = (),
     w_repo = snd (the (cmd_repo_init config_h cmd_repo_start)), w_halted = False \<rparr>"

definition set_var_entry :: cmd_list_t where
  "set_var_entry = cmd_entry ''drp_set_var'' ''drp_update_sys_var_idx'' ''%d %d'' 2"

lemma set_var_entry_in: "set_var_entry \<in> set (cmd_table config_h)"
  by (simp add: set_var_entry_def cmd_table_def cmd_drp_table_def)

lemma run_drp_set_var:
  "c_function k = ''drp_update_sys_var_idx'' \<Longrightarrow>
     run_handler c v k w = on_dat (drp_update_sys_var_idx c (e_st v) (c_fmt k) (c_params k) (c_nparams k) (w_dat w)) w"
  by (simp add: run_handler_def handlers_def console_handlers_def drp_handlers_def)

lemma run_set_var:
  assumes "c_function k = ''drp_update_sys_var_idx''" "c_fmt k = ''%d %d''" "c_nparams k = 2" "c_params k = Some b" "c_str b = Inr ''4 7''"
  shows "run_handler config_h bench_env k w =
    Inr (CMD_OK, w\<lparr> w_dat := dat_set_system_var config_h no_storage dat_obc_reset_counter 7 (w_dat w) \<rparr>)"
proof -
  have scan: "sscanf ''4 7'' ''%d %d'' = (2, [VInt 4, VInt 7])" by code_simp
  have "dat_of_idx (u32 4) = Some dat_obc_reset_counter" by code_simp
  moreover have "e_st bench_env = no_storage" by (simp add: bench_env_def)
  ultimately show ?thesis
    using assms scan by (simp add: run_drp_set_var drp_update_sys_var_idx_def scan_ints_def on_dat_def)
qed

lemma bench_data: "w_dat bench_world = dat_zero"
  by (simp add: bench_world_def)




end
