(* ===== verification/Clients.thy ===== *)
theory Clients
  imports Pipeline
begin

text \<open>
  The client tasks (console, housekeeping, communications, flight plan, reaction wheel, \<^verbatim>\<open>taskInit\<close>) in
  front of the pipeline: every one of them builds commands and sends them with \<^verbatim>\<open>cmd_send\<close>, while the
  dispatcher and the executer move.
\<close>

section \<open>Several tasks that send\<close>

text \<open>
  What each task still has to send, what has been sent so far with the number of its task, and the
  pipeline.  A task sends its next command into a fresh block whenever the dispatcher's queue has room
  (\<^verbatim>\<open>cmd_send\<close> waits otherwise).
\<close>

type_synonym sends = "(nat \<times> cmd_t) list"

inductive client_step ::
  "(cmd_t \<Rightarrow> 's \<Rightarrow> (int \<times> 's) c_result) \<Rightarrow> cmd_t list list \<times> sends \<times> 's pipeline \<Rightarrow> cmd_t list list \<times> sends \<times> 's pipeline \<Rightarrow> bool"
  for run where
  client_send: "i < length kss \<Longrightarrow> kss ! i = k # ks \<Longrightarrow> heap s p = None \<Longrightarrow> cmd_send False (Some (p, k)) s = Some s' \<Longrightarrow>
    client_step run (kss, log, s) (kss[i := ks], log @ [(i, k)], s')"
| client_internal: "internal_step run False False s s' \<Longrightarrow> client_step run (kss, log, s) (kss, log, s')"

inductive_cases client_stepE: "client_step run (kss, log, s) (kss', log', s')"

definition client_rank :: "cmd_t list list \<Rightarrow> 's pipeline \<Rightarrow> nat" where
  "client_rank kss s = 8 * sum_list (map length kss) + rank s"

text \<open>The commands of one task in a list of sends, and the lists that interleave those of all tasks.\<close>

definition of_client :: "nat \<Rightarrow> sends \<Rightarrow> cmd_t list" where
  "of_client i log = map snd (filter (\<lambda>x. fst x = i) log)"

definition interleaves :: "cmd_t list list \<Rightarrow> sends \<Rightarrow> bool" where
  "interleaves kss log \<longleftrightarrow> (\<forall>x \<in> set log. fst x < length kss) \<and> (\<forall>i < length kss. of_client i log = kss ! i)"

lemma of_client_simps [simp]:
  "of_client i [] = []" "of_client i (xs @ ys) = of_client i xs @ of_client i ys"
  "of_client i [x] = (if fst x = i then [snd x] else [])"
  by (simp_all add: of_client_def)

lemma of_client_tagged: "of_client i (map (Pair j) ks) = (if i = j then ks else [])"
  by (induction ks) (simp_all add: of_client_def o_def)

text \<open>The rest of every task behind one another.\<close>

definition in_turn :: "cmd_t list list \<Rightarrow> sends" where
  "in_turn kss = concat (map (\<lambda>i. map (Pair i) (kss ! i)) [0..<length kss])"

lemma of_client_in_turn:
  assumes "i < length kss"
  shows "of_client i (in_turn kss) = kss ! i"
proof -
  have "of_client i (concat (map (\<lambda>j. map (Pair j) (kss ! j)) [0..<n])) = (if i < n then kss ! i else [])" for n
    by (induction n) (auto simp: of_client_tagged)
  then show ?thesis using assms by (simp add: in_turn_def)
qed

lemma in_turn_clients: "x \<in> set (in_turn kss) \<Longrightarrow> fst x < length kss"
  by (auto simp: in_turn_def)

section \<open>Steps\<close>

lemma finite_heap:
  assumes "reachable run dbg tmo a s"
  shows "finite (dom (heap s))"
  using assms
proof (induction rule: reachable.induct)
  case start
  then show ?case by (simp add: main_queues_def)
next
  case (send s b p k s')
  then have "heap s' = (heap s)(p \<mapsto> k)" using cmd_send_flow [OF reachable_ok [OF send(1)] send(3,4)] by simp
  then show ?case using send.IH by (simp only: dom_fun_upd option.distinct if_False finite_insert)
next
  case (internal s s')
  note ok = reachable_ok [OF internal(1)]
  show ?case
    using internal(2)
  proof cases
    case (dispatcher b)
    then show ?thesis using dispatcher_step_flow [OF ok] internal.IH by simp
  next
    case (executer b)
    then have "heap s' = heap s \<or> (\<exists>p. heap s' = (heap s)(p := None))" using executer_step_flow [OF ok] by blast
    then show ?thesis
    proof (elim disjE exE)
      fix p
      assume "heap s' = (heap s)(p := None)"
      then show ?thesis using internal.IH by (simp only: dom_fun_upd simp_thms if_True finite_Diff)
    qed (simp add: internal.IH)
  qed
qed

lemma cmd_send_room:
  assumes "cmd_send False (Some (p, k)) s = Some s'"
  shows "sent s' = sent s @ [k]" "rank s' = rank s + 7"
  using assms by (auto simp: cmd_send_def blocking_send_eq rank_def split: if_splits)

text \<open>Where the tasks are, relative to where they were when the pipeline was in state \<open>s0\<close>.\<close>

definition clients_at :: "(cmd_t \<Rightarrow> 's \<Rightarrow> (int \<times> 's) c_result) \<Rightarrow> 's \<Rightarrow> cmd_t list list \<Rightarrow> 's pipeline \<Rightarrow>
    cmd_t list list \<Rightarrow> sends \<Rightarrow> 's pipeline \<Rightarrow> bool" where
  "clients_at run a kss0 s0 kss log s \<longleftrightarrow> reachable run False False a s \<and> sent s = sent s0 @ map snd log \<and>
     length kss = length kss0 \<and> (\<forall>x \<in> set log. fst x < length kss0) \<and>
     (\<forall>i < length kss0. of_client i log @ kss ! i = kss0 ! i)"

lemma sum_lengths_update:
  "i < length kss \<Longrightarrow> kss ! i = k # ks \<Longrightarrow> sum_list (map length kss) = Suc (sum_list (map length (kss[i := ks])))"
  by (induction kss arbitrary: i) (auto simp: nth_Cons' split: nat.splits if_splits)

lemma client_step_at:
  assumes "client_step run (kss, log, s) (kss', log', s')" "clients_at run a kss0 s0 kss log s"
  shows "clients_at run a kss0 s0 kss' log' s'" "client_rank kss s = Suc (client_rank kss' s')"
proof -
  have r: "reachable run False False a s" using assms(2) by (simp add: clients_at_def)
  have "clients_at run a kss0 s0 kss' log' s' \<and> client_rank kss s = Suc (client_rank kss' s')"
    using assms(1)
  proof (elim client_stepE)
    fix i k ks p
    assume send: "i < length kss" "kss ! i = k # ks" "heap s p = None" "cmd_send False (Some (p, k)) s = Some s'"
      "kss' = kss[i := ks]" "log' = log @ [(i, k)]"
    have "reachable run False False a s'" by (rule reachable.send [OF r _ send(3,4)]) simp
    then have "clients_at run a kss0 s0 kss' log' s'"
      using assms(2) send(1,2,5,6) cmd_send_room(1) [OF send(4)] by (auto simp: clients_at_def nth_list_update)
    then show ?thesis using sum_lengths_update [OF send(1,2)] cmd_send_room(2) [OF send(4)] send(5) by (simp add: client_rank_def)
  next
    assume move: "internal_step run False False s s'" "kss' = kss" "log' = log"
    have "sent s' = sent s" using reachable_relpowp [OF r, of 1 s'] move(1) by auto
    moreover have "reachable run False False a s'" by (rule reachable.internal [OF r move(1)])
    ultimately show ?thesis
      using assms(2) move(2,3) internal_step_load_rank(2) [OF move(1) load_reachable [OF r]] by (simp add: clients_at_def client_rank_def)
  qed
  then show "clients_at run a kss0 s0 kss' log' s'" "client_rank kss s = Suc (client_rank kss' s')" by simp_all
qed

lemma client_relpowp:
  assumes "(client_step run ^^ n) (kss0, [], s0) (kss, log, s)" "reachable run False False a s0"
  shows "clients_at run a kss0 s0 kss log s \<and> client_rank kss0 s0 = n + client_rank kss s"
  using assms(1)
proof (induction n arbitrary: kss log s)
  case 0
  then show ?case using assms(2) by (auto simp: clients_at_def)
next
  case (Suc n)
  then obtain km lm m where m: "(client_step run ^^ n) (kss0, [], s0) (km, lm, m)" "client_step run (km, lm, m) (kss, log, s)" by auto
  then show ?case using Suc.IH [OF m(1)] client_step_at [OF m(2)] by auto
qed

text \<open>However far the tasks are, what is left can still be sent in turn.\<close>

lemma clients_at_extends:
  assumes "clients_at run a kss0 s0 kss log s"
  shows "interleaves kss0 (log @ in_turn kss)"
  using assms of_client_in_turn [of _ kss] in_turn_clients [of _ kss] by (auto simp: clients_at_def interleaves_def)

lemma client_step_exists:
  assumes "clients_at run a kss0 s0 kss log s" "run_all run (sent s0 @ map snd (log @ in_turn kss)) a = Inr z" "client_rank kss s \<noteq> 0"
  shows "\<exists>q. client_step run (kss, log, s) q"
proof -
  have r: "reachable run False False a s" "sent s = sent s0 @ map snd log" using assms(1) by (simp_all add: clients_at_def)
  have "run_all run (sent s @ map snd (in_turn kss)) a = Inr z" using assms(2) r(2) by simp
  then obtain y where y: "run_all run (sent s) a = Inr y" unfolding run_all_append c_bind_Inr_iff by blast
  have move: "\<exists>q. client_step run (kss, log, s) q" if "rank s \<noteq> 0"
    using internal_step_exists [OF r(1) y that] by (auto intro: client_internal)
  show ?thesis
  proof (cases "rank s = 0")
    case True
    then have "\<exists>ks \<in> set kss. ks \<noteq> []" using assms(3) by (auto simp: client_rank_def)
    then obtain i where i: "i < length kss" "kss ! i \<noteq> []" by (auto simp: in_set_conv_nth)
    then obtain k ks where k: "kss ! i = k # ks" by (cases "kss ! i") auto
    have size: "q_size (dispatcher_queue s) = 25" using reachable_ok [OF r(1)] by (simp add: pipe_ok_def)
    have "q_items (dispatcher_queue s) = 0" using True by (simp add: rank_def)
    then obtain p s' where "p \<notin> dom (heap s)" "cmd_send False (Some (p, k)) s = Some s'"
      using ex_new_if_finite [OF infinite_UNIV_nat finite_heap [OF r(1)]] size by (auto simp: cmd_send_def blocking_send_eq)
    then show ?thesis using client_send [OF i(1) k, of s p s' run log] by (auto simp: domIff)
  qed (rule move)
qed

section \<open>Everything is executed\<close>

text \<open>
  The runs of the tasks, the dispatcher and the executer from \<open>kss\<close> and \<open>s\<close>: they all have the same
  length, none gets stuck earlier, and at the end what is executed interleaves what the tasks sent.
\<close>

definition all_executed ::
  "(cmd_t \<Rightarrow> 's \<Rightarrow> (int \<times> 's) c_result) \<Rightarrow> 's \<Rightarrow> cmd_t list list \<Rightarrow> 's pipeline \<Rightarrow> bool" where
  "all_executed run a kss s \<longleftrightarrow>
     (\<exists>q. (client_step run ^^ client_rank kss s) (kss, [], s) q) \<and>
     (\<forall>n kss' log s'. (client_step run ^^ n) (kss, [], s) (kss', log, s') \<longrightarrow>
        n \<le> client_rank kss s \<and> (n < client_rank kss s \<longrightarrow> (\<exists>q. client_step run (kss', log, s') q)) \<and>
        (n = client_rank kss s \<longrightarrow> interleaves kss log \<and> executed s' = sent s @ map snd log \<and>
           run_all run (sent s @ map snd log) a = Inr (app s') \<and> in_flight s' = []))"

lemma clients_complete:
  assumes "reachable run False False a s" "\<And>log. interleaves kss log \<Longrightarrow> \<exists>z. run_all run (sent s @ map snd log) a = Inr z"
  shows "all_executed run a kss s"
proof -
  have run: "n \<le> client_rank kss s \<and> (n < client_rank kss s \<longrightarrow> (\<exists>q. client_step run (kss', log, s') q)) \<and>
      (n = client_rank kss s \<longrightarrow> interleaves kss log \<and> executed s' = sent s @ map snd log \<and>
         run_all run (sent s @ map snd log) a = Inr (app s') \<and> in_flight s' = [])"
    if "(client_step run ^^ n) (kss, [], s) (kss', log, s')" for n kss' log s'
  proof -
    have at: "clients_at run a kss s kss' log s'" and n: "client_rank kss s = n + client_rank kss' s'"
      using client_relpowp [OF that assms(1)] by auto
    obtain z where z: "run_all run (sent s @ map snd (log @ in_turn kss')) a = Inr z"
      using assms(2) [OF clients_at_extends [OF at]] by blast
    have "interleaves kss log \<and> executed s' = sent s @ map snd log \<and>
        run_all run (sent s @ map snd log) a = Inr (app s') \<and> in_flight s' = []" if "client_rank kss' s' = 0"
    proof -
      have rest: "\<forall>ks \<in> set kss'. ks = []" "rank s' = 0" using that by (auto simp: client_rank_def)
      then have "\<forall>i < length kss. kss' ! i = []" using at by (auto simp: clients_at_def)
      then have i: "interleaves kss log" using at by (auto simp: interleaves_def clients_at_def)
      then obtain y where "run_all run (sent s @ map snd log) a = Inr y" using assms(2) by blast
      moreover have "reachable run False False a s'" "sent s' = sent s @ map snd log" using at by (simp_all add: clients_at_def)
      ultimately show ?thesis using i completes [of run a s' y 0 s'] rest(2) by simp
    qed
    then show ?thesis using client_step_exists [OF at z] n by auto
  qed
  have "\<exists>q. (client_step run ^^ n) (kss, [], s) q" if "n \<le> client_rank kss s" for n
    using that
  proof (induction n)
    case (Suc n)
    then obtain km lm m where "(client_step run ^^ n) (kss, [], s) (km, lm, m)" by (metis Suc_leD prod_cases3)
    then show ?case using run [of n km lm m] Suc.prems by (auto intro: relpowp_Suc_I)
  qed auto
  then show ?thesis using run by (auto simp: all_executed_def)
qed

lemma interleaves_one: "interleaves [ks] log \<Longrightarrow> map snd log = ks"
proof -
  assume i: "interleaves [ks] log"
  then have "filter (\<lambda>x. fst x = 0) log = log" by (auto simp: interleaves_def filter_id_conv)
  then show ?thesis using i by (simp add: interleaves_def of_client_def)
qed

section \<open>Properties\<close>

text \<open>
  C9.  Any number of client tasks at once.  Whatever is on its way when they begin, as long as the
  commands run without a fault in every order that keeps the order of each task: the tasks, the
  dispatcher and the executer together make exactly \<open>client_rank\<close> steps however they interleave and never
  block one another for good; at the end every command of every task has been executed once, those of
  one task in the order it sent them, all of them behind what was sent before, and the state is the one
  they produce in the order of execution.  (The build does not log at debug level; no 49-day wait runs
  out.)
\<close>

theorem clients_served:
  assumes "reachable run False False a s" "\<forall>log. interleaves kss log \<longrightarrow> (\<exists>z. run_all run (sent s @ map snd log) a = Inr z)"
  shows "(\<exists>q. (client_step run ^^ client_rank kss s) (kss, [], s) q) \<and>
    (\<forall>n kss' log s'. (client_step run ^^ n) (kss, [], s) (kss', log, s') \<longrightarrow>
       n \<le> client_rank kss s \<and> (n < client_rank kss s \<longrightarrow> (\<exists>q. client_step run (kss', log, s') q)) \<and>
       (n = client_rank kss s \<longrightarrow> (\<forall>i < length kss. of_client i log = kss ! i) \<and> executed s' = sent s @ map snd log \<and>
          run_all run (executed s') a = Inr (app s') \<and> in_flight s' = []))"
  using clients_complete [OF assms(1), of kss] assms(2) unfolding all_executed_def interleaves_def by auto

theorem clients_served_witness:
  "\<exists>log s'. (client_step count_cmd ^^ 38) ([[cmd_no 1, cmd_no 2], [cmd_no 3]], [], two_sent) ([[], []], log, s') \<and>
     of_client 0 log = [cmd_no 1, cmd_no 2] \<and> of_client 1 log = [cmd_no 3] \<and>
     executed s' = [cmd_no 5, cmd_no 7] @ map snd log \<and> in_flight s' = []"
proof -
  let ?kss = "[[cmd_no 1, cmd_no 2], [cmd_no 3]]"
  have "\<exists>z. run_all count_cmd ks m = Inr z" for ks m
    by (induction ks arbitrary: m) (simp_all add: count_cmd_def)
  then have "\<forall>log. interleaves ?kss log \<longrightarrow> (\<exists>z. run_all count_cmd (sent two_sent @ map snd log) 0 = Inr z)" by blast
  note c = clients_served [OF two_sent_reachable this]
  have rank: "client_rank ?kss two_sent = 38" by (simp add: client_rank_def two_sent_flight)
  obtain kss' log s' where run: "(client_step count_cmd ^^ 38) (?kss, [], two_sent) (kss', log, s')"
    using c rank by (metis prod_cases3)
  have at: "clients_at count_cmd 0 ?kss two_sent kss' log s'" "client_rank kss' s' = 0"
    using client_relpowp [OF run two_sent_reachable] rank by auto
  then have "kss' = [[], []]" by (auto simp: clients_at_def client_rank_def length_Suc_conv)
  moreover have "\<forall>i < length ?kss. of_client i log = ?kss ! i" "executed s' = sent two_sent @ map snd log" "in_flight s' = []"
    using c run rank by auto
  ultimately show ?thesis using run by (intro exI [of _ log] exI [of _ s']) (auto simp: two_sent_def numeral_2_eq_2 less_Suc_eq)
qed

end
