(* ===== verification/Uplink.thy ===== *)
theory Uplink
  imports Handlers CommServer Clients
begin

text \<open>
  From a packet to the functions it names: the server of \<^verbatim>\<open>taskCommunications.c\<close>, the queues of the dispatcher
  and the executer, and the handlers of all commands, composed.
\<close>

section \<open>A frame of telecommands\<close>

text \<open>A line of a frame: the entry of the table it names, blanks, and its parameters.\<close>

type_synonym telecommand = "cmd_list_t \<times> string \<times> string"

definition line_text :: "telecommand \<Rightarrow> string" where
  "line_text l = (case l of (e, ws, a) \<Rightarrow> l_name e @ ws @ a)"

definition line_ok :: "sch_config \<Rightarrow> telecommand \<Rightarrow> bool" where
  "line_ok c l = (case l of (e, ws, a) \<Rightarrow> e \<in> set (cmd_table c) \<and> list_all isspace ws \<and> ws \<noteq> [] \<and>
     no_lead_space a \<and> a \<noteq> [] \<and> c_string a \<and> length a \<le> SCH_CMD_MAX_STR_PARAMS \<and> CHR '';'' \<notin> set a)"

definition line_command :: "telecommand \<Rightarrow> cmd_t \<Rightarrow> bool" where
  "line_command l k = (case l of (e, ws, a) \<Rightarrow> c_function k = l_function e \<and> c_fmt k = l_fmt e \<and> c_nparams k = l_nparams e \<and>
     (\<exists>b. c_params k = Some b \<and> c_str b = Inr a))"

definition in_frame :: "char \<Rightarrow> bool" where
  "in_frame ch \<longleftrightarrow> ch \<noteq> CHR '';'' \<and> ch \<noteq> NUL"

lemma table_names: "list_all (\<lambda>e. list_all in_frame (l_name e)) (cmd_table c)"
  by (cases "platform_of c") (simp_all add: cmd_table_def cmd_tables use_nanopower_def use_nanocom_def cmd_entry_def in_frame_def)

lemma tc_line_in_frame: "tc_line l \<longleftrightarrow> l \<noteq> [] \<and> list_all in_frame l"
  by (auto simp: tc_line_def in_frame_def list_all_iff)

lemma in_frame_spaces: "list_all isspace ws \<Longrightarrow> list_all in_frame ws"
  by (induction ws) (auto simp: in_frame_def isspace_def)

lemma in_frame_text: "c_string a \<Longrightarrow> CHR '';'' \<notin> set a \<Longrightarrow> list_all in_frame a"
  by (auto simp: in_frame_def c_string_def list_all_iff)

lemma line_ok_tc_line: "line_ok c l \<Longrightarrow> tc_line (line_text l)"
proof -
  assume ok: "line_ok c l"
  obtain e ws a where l: "l = (e, ws, a)" by (cases l)
  have "list_all in_frame ws" using ok in_frame_spaces by (simp add: l line_ok_def)
  moreover have "list_all in_frame (l_name e)" using ok table_names [of c] by (auto simp: l line_ok_def list_all_iff)
  moreover have "list_all in_frame a" using ok in_frame_text by (simp add: l line_ok_def)
  moreover have "a \<noteq> []" using ok by (simp add: l line_ok_def)
  ultimately show ?thesis unfolding tc_line_in_frame line_text_def l by simp
qed

lemma frame_commands:
  assumes "cmd_repo_init c cmd_repo_start = Some (rc, r)" "list_all (line_ok c) ls" "rest \<noteq> []"
  shows "\<exists>ks. com_receive_tc c r (text_packet (tc_frame (map line_text ls)) rest) = Inr ks \<and> list_all2 line_command ls ks"
proof -
  have tc: "list_all tc_line (map line_text ls)" using assms(2) line_ok_tc_line by (auto simp: list_all_iff)
  have "\<exists>k. parse_and_send c r (line_text l) = Inr [k] \<and> line_command l k" if "line_ok c l" for l
  proof -
    obtain e ws a where l: "l = (e, ws, a)" by (cases l)
    have ok: "e \<in> set (cmd_table c)" "list_all isspace ws" "ws \<noteq> []" "no_lead_space a" "a \<noteq> []" "c_string a"
        "length a \<le> SCH_CMD_MAX_STR_PARAMS"
      using that by (simp_all add: l line_ok_def)
    obtain k b where "cmd_parse_from_str c (l_name e @ ws @ a) r = Inr (Some k)" "c_function k = l_function e"
        "c_fmt k = l_fmt e" "c_nparams k = l_nparams e" "c_params k = Some b" "c_str b = Inr a"
      using line_parsed [OF assms(1) ok] by blast
    then show ?thesis by (simp add: l line_text_def line_command_def parse_and_send_def)
  qed
  then obtain f where f: "\<And>l. line_ok c l \<Longrightarrow> parse_and_send c r (line_text l) = Inr [f l] \<and> line_command l (f l)" by metis
  have "c_mapM (parse_and_send c r) (map line_text ls) = Inr (map (\<lambda>l. [f l]) ls)"
    using assms(2)
  proof (induction ls)
    case (Cons l ls)
    then show ?case using f [of l] by simp
  qed simp
  then have "com_receive_tc c r (text_packet (tc_frame (map line_text ls)) rest) = Inr (map f ls)"
    using packet_text_packet [OF NUL_tc_frame [OF tc] assms(3)]
    by (simp add: com_receive_tc_def strtok_tc_frame [OF tc])
  moreover have "list_all2 line_command ls (map f ls)"
    using assms(2) f by (auto simp: list_all2_map2 list_all2_same list_all_iff)
  ultimately show ?thesis by blast
qed

context csp_pool
begin

text \<open>The server sends the commands of a frame that arrives on the port for telecommands.\<close>

lemma tc_served:
  assumes "comm_inv sv v" "srv_pc v = SrvRead conn" "sv_read sv conn (srv_net v) = (Some (h, pkt), n)"
    "sv_dport sv conn n = SCH_TRX_PORT_TC" "com_receive_tc c r pkt = Inr ks"
  shows "\<exists>v'. comm_step sv c st r info clock v = Inr v' \<and> srv_sent v' = srv_sent v @ ks"
proof -
  have lent: "h \<notin> sv_lent sv (srv_net v)" "sv_lent sv n = insert h (sv_lent sv (srv_net v))"
    using read_some [OF assms(3)] by simp_all
  then have h: "h \<in> sv_lent sv n" "rep_tmp v \<in> sv_lent sv n" "h \<noteq> rep_tmp v" using assms(1) by (auto simp: comm_inv_def)
  let ?s = "dat_set_system_var c st dat_com_last_tc (i32 clock)
     (dat_set_system_var c st dat_com_count_tc (i32 (dat_get_system_var c st dat_com_count_tc (srv_data v) + 1)) (srv_data v))"
  obtain left n' where "serve_packet sv c st r info clock conn (rep_tmp v) h pkt (srv_data v) n = Inr (ks, ?s, left, n')"
    using free_and_reply [OF h, of conn "\<lambda>left n. Inr (ks, ?s, left, n)"] h(1) assms(4,5)
    by (auto simp: serve_packet_def with_buf_def)
  then show ?thesis using assms(2,3) by (simp add: comm_step_def)
qed

end

text \<open>One task that sends.\<close>

lemma one_client:
  assumes "reachable run False False a s" "run_all run (sent s @ ks) a = Inr z"
  shows "(\<exists>q. (client_step run ^^ client_rank [ks] s) ([ks], [], s) q) \<and>
    (\<forall>m kss log s'. (client_step run ^^ m) ([ks], [], s) (kss, log, s') \<longrightarrow>
       m \<le> client_rank [ks] s \<and> (m < client_rank [ks] s \<longrightarrow> (\<exists>q. client_step run (kss, log, s') q)) \<and>
       (m = client_rank [ks] s \<longrightarrow> executed s' = sent s @ ks \<and> app s' = z \<and> in_flight s' = []))"
proof -
  have "all_executed run a [ks] s"
    using clients_complete [OF assms(1), of "[ks]"] assms(2) interleaves_one [of ks] by metis
  then show ?thesis using assms(2) interleaves_one [of ks] unfolding all_executed_def by fastforce
qed

section \<open>Properties\<close>


text \<open>Two commands in one packet, to a computer on the bench.\<close>

definition two_lines :: "telecommand list" where
  "two_lines = [(set_var_entry, '' '', ''4 7''), (set_var_entry, '' '', ''4 7'')]"

definition two_lines_net :: sim_net where
  "two_lines_net = \<lparr> sim_out = [], sim_inbox = [(SCH_TRX_PORT_TC, 1, [text_packet (tc_frame (map line_text two_lines)) [0]])],
     sim_answers = [] \<rparr>"

lemma two_lines_ok: "list_all (line_ok config_h) two_lines"
  using set_var_entry_in by (simp add: two_lines_def line_ok_def isspace_def no_lead_space_def c_string_def)


end
