(* ===== verification/Layout.thy ===== *)
theory Layout
  imports SqlStorage
begin

text \<open>
  The structures of \<^verbatim>\<open>repoData.h\<close> field by field, and how the texts of \<^verbatim>\<open>data_map\<close>, from which the storage
  drivers take a sample apart, agree with them.
\<close>

section \<open>Structures\<close>

text \<open>A field: its type and its name.  All of them are four bytes wide and none is padded.\<close>

type_synonym field = "string \<times> string"

definition status_struct :: "field list" where
  "status_struct =
     [(''int32_t'', ''dat_obc_opmode''), (''int32_t'', ''dat_obc_last_reset''), (''int32_t'', ''dat_obc_hrs_alive''),
      (''int32_t'', ''dat_obc_hrs_wo_reset''), (''int32_t'', ''dat_obc_reset_counter''),
      (''int32_t'', ''dat_obc_sw_wdt''), (''float'', ''dat_obc_temp_1''), (''float'', ''dat_obc_temp_2''),
      (''float'', ''dat_obc_temp_3''), (''int32_t'', ''dat_dep_deployed''),
      (''int32_t'', ''dat_dep_ant_deployed''), (''int32_t'', ''dat_dep_date_time''),
      (''int32_t'', ''dat_rtc_date_time''), (''int32_t'', ''dat_com_count_tm''),
      (''int32_t'', ''dat_com_count_tc''), (''int32_t'', ''dat_com_last_tc''), (''uint32_t'', ''dat_com_freq''),
      (''uint32_t'', ''dat_com_tx_pwr''), (''uint32_t'', ''dat_com_baud''), (''uint32_t'', ''dat_com_mode''),
      (''uint32_t'', ''dat_com_bcn_period''), (''int32_t'', ''dat_fpl_last''), (''int32_t'', ''dat_fpl_queue''),
      (''float'', ''dat_ads_acc_x''), (''float'', ''dat_ads_acc_y''), (''float'', ''dat_ads_acc_z''),
      (''float'', ''dat_ads_mag_x''), (''float'', ''dat_ads_mag_y''), (''float'', ''dat_ads_mag_z''),
      (''uint32_t'', ''dat_eps_vbatt''), (''uint32_t'', ''dat_eps_cur_sun''),
      (''uint32_t'', ''dat_eps_cur_sys''), (''uint32_t'', ''dat_eps_temp_bat0''), (''float'', ''dat_fod_ver''),
      (''int'', ''dat_fod_released''), (''int'', ''dat_fod_on_time''), (''int'', ''dat_fod_attempts''),
      (''uint32_t'', ''dat_mem_temp''), (''uint32_t'', ''dat_mem_ads''), (''uint32_t'', ''dat_mem_eps''),
      (''uint32_t'', ''dat_mem_lang''), (''uint32_t'', ''dat_mem_gps''), (''uint32_t'', ''dat_mem_prs''),
      (''uint32_t'', ''dat_mem_dpl''), (''uint32_t'', ''dat_mem_fod''), (''uint32_t'', ''dat_mem_ack_temp''),
      (''uint32_t'', ''dat_mem_ack_ads''), (''uint32_t'', ''dat_mem_ack_eps''),
      (''uint32_t'', ''dat_mem_ack_lang''), (''uint32_t'', ''dat_mem_ack_gps''),
      (''uint32_t'', ''dat_mem_ack_prs''), (''uint32_t'', ''dat_mem_ack_dpl''),
      (''uint32_t'', ''dat_mem_ack_fod''), (''int32_t'', ''dat_system_last_var'')]"

fun payload_struct :: "payload_id \<Rightarrow> field list" where
  "payload_struct temp_sensors =
     [(''int'', ''timestamp''), (''float'', ''obc_temp_1''), (''float'', ''obc_temp_2''), (''float'', ''obc_temp_3'')]"
| "payload_struct ads_sensors =
     [(''int'', ''timestamp''), (''float'', ''acc_x''), (''float'', ''acc_y''), (''float'', ''acc_z''),
      (''float'', ''mag_x''), (''float'', ''mag_y''), (''float'', ''mag_z'')]"
| "payload_struct eps_sensors =
     [(''int'', ''timestamp''), (''uint32_t'', ''cursun''), (''uint32_t'', ''cursys''), (''uint32_t'', ''vbatt''),
      (''int32_t'', ''temp1''), (''int32_t'', ''temp2''), (''int32_t'', ''temp3''), (''int32_t'', ''temp4''),
      (''int32_t'', ''temp5''), (''int32_t'', ''temp6'')]"
| "payload_struct lang_sensors =
     [(''int'', ''timestamp''), (''float'', ''sweep_voltage''), (''float'', ''plasma_voltage''),
      (''float'', ''plasma_temperature''), (''int'', ''particles_counter'')]"
| "payload_struct gps_sensors =
     [(''int'', ''timestamp''), (''float'', ''latitude''), (''float'', ''longitude''), (''float'', ''height''),
      (''float'', ''velocity_x''), (''float'', ''velocity_y''), (''int'', ''satellites_number''),
      (''int'', ''mode'')]"
| "payload_struct prs_sensors =
     [(''int'', ''timestamp''), (''float'', ''pressure''), (''float'', ''temperature''), (''float'', ''height'')]"
| "payload_struct dpl_sensors =
     [(''int'', ''timestamp''), (''int'', ''port_status'')]"
| "payload_struct fod_sensors =
     [(''float'', ''ver''), (''int'', ''released''), (''int'', ''on_time''), (''int'', ''attempts'')]"

section \<open>The status structure\<close>

text \<open>
  The fields are the first 53 variables, in the order of the enumeration, and a last field that takes
  the name of the constant for their number.
\<close>

lemma length_status_struct: "length status_struct = 54" "distinct (map snd status_struct)"
  by (simp_all add: status_struct_def)

text \<open>The floats are those that are copied as floats, and the version of the deployer.\<close>

lemma status_struct_floats:
  "v \<in> set (take 53 dat_all) \<Longrightarrow>
     fst (status_struct ! dat_idx v) = ''float'' \<longleftrightarrow> v \<in> set status_floats \<or> v = dat_fod_ver"
  by (cases v) (simp_all add: status_struct_def status_floats_def dat_all_def)

section \<open>Samples\<close>

text \<open>The format of a field: times are written as unsigned numbers although they are declared \<^verbatim>\<open>int\<close>.\<close>

definition field_format :: "field \<Rightarrow> string" where
  "field_format f = (if fst f = ''float'' then ''%f'' else if fst f = ''uint32_t'' \<or> snd f = ''timestamp'' then ''%u'' else ''%d'')"

lemma dm_size_struct: "dm_size (data_map p) = 4 * length (payload_struct p)"
  by (cases p) simp_all

lemma fod_tokens:
  "get_payloads_tokens fod_sensors = [(Some ''%u'', ''timestamp''), (Some ''%f'', ''ver''), (Some ''%d'', ''released''),
     (Some ''%d'', ''on_time''), (Some ''%d'', ''attempts'')]"
  by code_simp

text \<open>Apart from the deployer's, every payload has exactly the columns of its structure.\<close>

lemma payload_tokens:
  assumes "p \<noteq> fod_sensors"
  shows "get_payloads_tokens p = map (\<lambda>f. (Some (field_format f), snd f)) (payload_struct p)"
proof -
  have "list_all (\<lambda>p. get_payloads_tokens p = map (\<lambda>f. (Some (field_format f), snd f)) (payload_struct p))
      [temp_sensors, ads_sensors, eps_sensors, lang_sensors, gps_sensors, prs_sensors, dpl_sensors]"
    by code_simp
  then show ?thesis using assms by (cases p) simp_all
qed

text \<open>
  A field of a sample is written under its name, as the text of its own four bytes, whenever both fit
  their arrays of twenty bytes.
\<close>

lemma insert_field_struct:
  assumes "p \<noteq> fod_sensors" "length data = dm_size (data_map p)" "j < length (payload_struct p)"
  shows "insert_field data (j, get_payloads_tokens p ! j) =
    (let f = payload_struct p ! j; value = get_value_string (field_format f) (take 4 (drop (4 * j) data)) in
     c_bind (fits 20 ('' '' @ snd f)) (\<lambda>name. c_bind (fits 20 value) (\<lambda>val. Inr (name, val))))"
proof -
  have size: "get_sizeof_type (field_format f) = 4" for f
    by (simp add: field_format_def get_sizeof_type_def)
  have "get_payloads_tokens p ! j = (Some (field_format (payload_struct p ! j)), snd (payload_struct p ! j))"
    using assms(3) by (simp add: payload_tokens [OF assms(1)])
  moreover have "j * 4 + 4 \<le> length data" using assms(2,3) by (simp add: dm_size_struct)
  ultimately show ?thesis by (simp add: insert_field_def size Let_def mult.commute)
qed

text \<open>
  The deployer's sample starts with its version and not with a time: every column gets the field before
  its own, and the last one the four bytes behind the structure.
\<close>

lemma fod_sample_overruns:
  assumes "length data = dm_size (data_map fod_sensors)"
  shows "insert_field data (4, get_payloads_tokens fod_sensors ! 4) = Inl OutOfBounds"
    "map snd (tl (get_payloads_tokens fod_sensors)) = map snd (payload_struct fod_sensors)"
proof -
  show "insert_field data (4, get_payloads_tokens fod_sensors ! 4) = Inl OutOfBounds"
    using assms by (simp add: fod_tokens insert_field_def get_sizeof_type_def)
  show "map snd (tl (get_payloads_tokens fod_sensors)) = map snd (payload_struct fod_sensors)" by (simp add: fod_tokens)
qed

end
