(* ===== verification/Printing.thy ===== *)
theory Printing
  imports Layout CmdCOM RepoCommand
begin

text \<open>
  What the program prints: the status structure (\<^verbatim>\<open>dat_print_status\<close>, \<^verbatim>\<open>repoData.c\<close>), the names of the
  transceiver's parameters (\<^verbatim>\<open>_com_config_help\<close>, \<^verbatim>\<open>cmdCOM.c\<close>), a command (\<^verbatim>\<open>cmd_print\<close>, \<^verbatim>\<open>repoCommand.c\<close>) and the
  log macros of \<^verbatim>\<open>utils.h\<close>.
\<close>

section \<open>The status structure\<close>

text \<open>The name of a variable, as the preprocessor makes a string of it, and whether its field is unsigned.\<close>

definition dat_name :: "dat_system \<Rightarrow> string" where
  "dat_name v = snd (status_struct ! dat_idx v)"

definition status_unsigned :: "dat_system \<Rightarrow> bool" where
  "status_unsigned v \<longleftrightarrow> fst (status_struct ! dat_idx v) = ''uint32_t''"

text \<open>
  \<^verbatim>\<open>DAT_PRINT_SYSTEM_VAR\<close> converts the field to \<^verbatim>\<open>unsigned long\<close>, which has \<open>bits\<close> bits (64 on Linux and 32 on the
  boards), so a negative number is extended to that width.  The version of the deployer is a float: the
  conversion cuts its fraction off; when the value does not fit, C leaves the result open, and it is the
  parameter \<open>wild\<close>.
\<close>

definition f32_trunc :: "nat \<Rightarrow> nat" where
  "f32_trunc b =
     (let e = f32_exponent b; f = b mod 2 ^ 23; m = (if e = 0 then f else f + 2 ^ 23); e1 = (if e = 0 then 1 else e)
      in if 150 \<le> e1 then m * 2 ^ (e1 - 150) else m div 2 ^ (150 - e1))"

definition ulong_of_float :: "nat \<Rightarrow> (nat \<Rightarrow> nat) \<Rightarrow> nat \<Rightarrow> nat" where
  "ulong_of_float bits wild b =
     (if f32_exponent b = 255 \<or> ((b div 2 ^ 31) mod 2 = 1 \<and> f32_trunc b \<noteq> 0) \<or> 2 ^ bits \<le> f32_trunc b then wild b
      else f32_trunc b)"

definition printed_value :: "nat \<Rightarrow> (nat \<Rightarrow> nat) \<Rightarrow> dat_system \<Rightarrow> u32w \<Rightarrow> string" where
  "printed_value bits wild var field =
     (if var \<in> set status_floats then f32_text (unat field)
      else show_nat
        (if var = dat_fod_ver then ulong_of_float bits wild (unat field)
         else if status_unsigned var then unat field
         else nat (sint field mod 2 ^ bits)))"

definition dat_print_status :: "nat \<Rightarrow> (nat \<Rightarrow> nat) \<Rightarrow> u32w list \<Rightarrow> string" where
  "dat_print_status bits wild status =
     concat (map (\<lambda>(var, field). [CHR 0x09] @ dat_name var @ '': '' @ printed_value bits wild var field @ [CHR 0x0A])
       (zip (take 53 dat_all) status))"

section \<open>Parameters and commands\<close>

definition com_config_help :: "'n ax100 \<Rightarrow> string" where
  "com_config_help ax = concat (map (\<lambda>p. [CHR 0x09] @ p_name p @ [CHR 0x0A]) (ax100_config ax @ ax100_tx_config ax))"

text \<open>
  \<^verbatim>\<open>cmd_print\<close> reads the command only in a build that logs everything; a command without parameters then
  gives a null pointer to \<^verbatim>\<open>%s\<close>.
\<close>

definition cmd_print :: "bool \<Rightarrow> sch_config \<Rightarrow> cmd_t \<Rightarrow> cmd_repo \<Rightarrow> int c_result" where
  "cmd_print verbose c cmd r =
     (if \<not> verbose then Inr 0
      else c_bind (cmd_get_name c (c_id cmd) r) (\<lambda>name.
        case (name, c_params cmd) of
          (Some _, Some b) \<Rightarrow> c_bind (c_str b) (\<lambda>_. Inr 0)
        | _ \<Rightarrow> Inl NullDeref))"

section \<open>The log\<close>

datatype log_level = LOG_LVL_NONE | LOG_LVL_ERROR | LOG_LVL_WARN | LOG_LVL_INFO | LOG_LVL_DEBUG | LOG_LVL_VERBOSE

primrec log_rank :: "log_level \<Rightarrow> nat" where
  "log_rank LOG_LVL_NONE = 0"
| "log_rank LOG_LVL_ERROR = 1"
| "log_rank LOG_LVL_WARN = 2"
| "log_rank LOG_LVL_INFO = 3"
| "log_rank LOG_LVL_DEBUG = 4"
| "log_rank LOG_LVL_VERBOSE = 5"

text \<open>The levels are compared as numbers.\<close>

instantiation log_level :: linorder
begin

definition less_eq_log_level :: "log_level \<Rightarrow> log_level \<Rightarrow> bool" where
  "less_eq_log_level a b \<longleftrightarrow> log_rank a \<le> log_rank b"

definition less_log_level :: "log_level \<Rightarrow> log_level \<Rightarrow> bool" where
  "less_log_level a b \<longleftrightarrow> log_rank a < log_rank b"

instance
proof
  fix a b :: log_level
  show "a \<le> b \<Longrightarrow> b \<le> a \<Longrightarrow> a = b" by (cases a; cases b) (simp_all add: less_eq_log_level_def)
qed (auto simp: less_eq_log_level_def less_log_level_def)

end

primrec log_label :: "log_level \<Rightarrow> string" where
  "log_label LOG_LVL_NONE = []"
| "log_label LOG_LVL_ERROR = ''ERROR''"
| "log_label LOG_LVL_WARN = ''WARN ''"
| "log_label LOG_LVL_INFO = ''INFO ''"
| "log_label LOG_LVL_DEBUG = ''DEBUG''"
| "log_label LOG_LVL_VERBOSE = ''VERB ''"

text \<open>\<^verbatim>\<open>LOGE\<close> to \<^verbatim>\<open>LOGV\<close> in a build with the given \<^verbatim>\<open>LOG_LEVEL\<close>, for a message that has been formatted.\<close>

definition log_line :: "log_level \<Rightarrow> log_level \<Rightarrow> nat \<Rightarrow> string \<Rightarrow> string \<Rightarrow> string" where
  "log_line LOG_LEVEL lvl time tag msg =
     (if lvl \<le> LOG_LEVEL
      then ''['' @ log_label lvl @ ''][''  @ show_nat time @ ''][''  @ tag @ ''] '' @ msg @ [CHR 0x0A] else [])"

section \<open>What is printed\<close>

lemma unat_of_i32: "in_i32 x \<Longrightarrow> unat (word_of_int x :: u32w) = nat (if 0 \<le> x then x else x + 2 ^ 32)"
proof -
  assume x: "in_i32 x"
  have "x mod 2 ^ 32 = (if 0 \<le> x then x else x + 2 ^ 32)"
  proof (cases "0 \<le> x")
    case True
    then show ?thesis using x by (simp add: in_i32_def)
  next
    case False
    then have "(x + 2 ^ 32) mod 2 ^ 32 = x + 2 ^ 32" using x by (intro mod_pos_pos_trivial) (simp_all add: in_i32_def)
    then show ?thesis using False by (metis mod_add_self2)
  qed
  then show ?thesis by (simp add: unsigned_of_int take_bit_eq_mod)
qed

text \<open>
  An integer variable of the repository is printed as it is unless it is negative: then it appears as
  a number of 32 bits when its field is unsigned, and of the width of \<^verbatim>\<open>unsigned long\<close> otherwise.
\<close>

lemma printed_integer:
  assumes "x = dat_get_system_var c st v s" "in_i32 x" "v \<notin> set status_floats" "v \<noteq> dat_fod_ver" "32 \<le> bits"
  shows "printed_value bits wild v (status_field c st s v) =
    show_nat (nat (if 0 \<le> x then x else if status_unsigned v then x + 2 ^ 32 else x + 2 ^ bits))"
proof -
  have field: "status_field c st s v = word_of_int x" using assms by (simp add: status_field_def Let_def)
  have "sint (word_of_int x :: u32w) = x"
    using assms(2) by (simp add: signed_of_int signed_take_bit_int_eq_self in_i32_def)
  moreover have "x mod 2 ^ bits = (if 0 \<le> x then x else x + 2 ^ bits)"
  proof -
    have wide: "(2 :: int) ^ 32 \<le> 2 ^ bits" using assms(5) by (intro power_increasing) simp_all
    show ?thesis
    proof (cases "0 \<le> x")
      case True
      then show ?thesis using assms(2) wide by (simp add: in_i32_def)
    next
      case False
      then have "(x + 2 ^ bits) mod 2 ^ bits = x + 2 ^ bits"
        using assms(2) wide by (intro mod_pos_pos_trivial) (simp_all add: in_i32_def)
      then show ?thesis using False by (metis mod_add_self2)
    qed
  qed
  ultimately show ?thesis using assms(3,4) by (simp add: printed_value_def field unat_of_i32 [OF assms(2)])
qed

text \<open>
  A build that logs more prints every line a build that logs less does, and the same one; every message of a
  level is one line that starts with the label of its level.
\<close>

lemma log_line_mono: "a \<le> b \<Longrightarrow> log_line a lvl time tag msg \<noteq> [] \<Longrightarrow> log_line b lvl time tag msg = log_line a lvl time tag msg"
  by (auto simp: log_line_def split: if_splits)

lemma log_line_label: "log_line b lvl time tag msg \<noteq> [] \<Longrightarrow> take (2 + length (log_label lvl)) (log_line b lvl time tag msg) = ''['' @ log_label lvl @ '']''"
  by (auto simp: log_line_def split: if_splits)

end
