(* ===== verification/PowerLoss.thy ===== *)
theory PowerLoss
  imports RepoData
begin

text \<open>
  A reset between two writes to the storage (\<^verbatim>\<open>dat_set_system_var\<close>, \<^verbatim>\<open>repoData.c\<close>): the writes of one
  cell each that a sequence of updates makes, the states in which it can be cut off, and what the
  next boot reads there.
\<close>

section \<open>The writes of an update\<close>

text \<open>The cells that setting a variable writes, in their order, and the writes of several updates.\<close>

definition set_writes :: "sch_config \<Rightarrow> dat_system \<Rightarrow> int \<Rightarrow> (nat \<times> int) list" where
  "set_writes c index value =
     (dat_idx index, value) #
     (if storage_triple_wr c
      then [(dat_idx index + dat_system_last_var, value), (dat_idx index + dat_system_last_var * 2, value)] else [])"

definition all_writes :: "sch_config \<Rightarrow> (dat_system \<times> int) list \<Rightarrow> (nat \<times> int) list" where
  "all_writes c sets = concat (map (\<lambda>(v, x). set_writes c v x) sets)"

definition run_writes :: "sch_config \<Rightarrow> 'x storage \<Rightarrow> (nat \<times> int) list \<Rightarrow> 'x dat_state \<Rightarrow> 'x dat_state" where
  "run_writes c st ws s = fold (\<lambda>(i, x). cell_set c st i x) ws s"

definition run_sets :: "sch_config \<Rightarrow> 'x storage \<Rightarrow> (dat_system \<times> int) list \<Rightarrow> 'x dat_state \<Rightarrow> 'x dat_state" where
  "run_sets c st sets s = fold (\<lambda>(v, x). dat_set_system_var c st v x) sets s"

lemma run_writes_simps [simp]:
  "run_writes c st [] s = s" "run_writes c st ((i, x) # ws) s = run_writes c st ws (cell_set c st i x s)"
  "run_writes c st (ws @ vs) s = run_writes c st vs (run_writes c st ws s)"
  by (simp_all add: run_writes_def)

lemma run_sets_simps [simp]:
  "run_sets c st [] s = s" "run_sets c st ((v, x) # sets) s = run_sets c st sets (dat_set_system_var c st v x s)"
  by (simp_all add: run_sets_def)

lemma all_writes_simps [simp]:
  "all_writes c [] = []" "all_writes c ((v, x) # sets) = set_writes c v x @ all_writes c sets"
  by (simp_all add: all_writes_def)

text \<open>Together the writes of an update are the update.\<close>

lemma run_set_writes: "run_writes c st (set_writes c v x) s = dat_set_system_var c st v x s"
  by (simp add: set_writes_def dat_set_system_var_def Let_def)

lemma run_all_writes: "run_writes c st (all_writes c sets) s = run_sets c st sets s"
  by (induction sets arbitrary: s) (auto simp: run_set_writes)

section \<open>An update that is cut off\<close>

definition copies_all_agree :: "sch_config \<Rightarrow> 'x storage \<Rightarrow> 'x dat_state \<Rightarrow> bool" where
  "copies_all_agree c st s \<longleftrightarrow> (storage_triple_wr c \<longrightarrow> (\<forall>v. copies_agree c st v s))"

lemma copies_all_agree_set:
  assumes "dat_inv c st s" "in_i32 x" "copies_all_agree c st s"
  shows "copies_all_agree c st (dat_set_system_var c st v x s)"
  using assms by (auto simp: copies_all_agree_def intro: copies_agree_set)

text \<open>
  The state in which a reset finds the storage after \<open>n\<close> of the writes, and how many of the updates the
  next boot sees: with three copies an update counts from its second write on.
\<close>

definition cut_off :: "sch_config \<Rightarrow> 'x storage \<Rightarrow> (dat_system \<times> int) list \<Rightarrow> nat \<Rightarrow> 'x dat_state \<Rightarrow> 'x dat_state" where
  "cut_off c st sets n s = run_writes c st (take n (all_writes c sets)) s"

definition seen :: "sch_config \<Rightarrow> nat \<Rightarrow> nat" where
  "seen c n = (if storage_triple_wr c then (n + 1) div 3 else n)"

lemma length_set_writes: "length (set_writes c v x) = (if storage_triple_wr c then 3 else 1)"
  by (simp add: set_writes_def)

lemma seen_later: "length (set_writes c v x) \<le> n \<Longrightarrow> seen c n = Suc (seen c (n - length (set_writes c v x)))"
  by (auto simp: length_set_writes seen_def le_iff_add split: if_splits)

lemma run_writes_inv:
  "dat_inv c st s \<Longrightarrow> list_all (\<lambda>(i, x). cell_ok c i \<and> in_i32 x) ws \<Longrightarrow> dat_inv c st (run_writes c st ws s)"
  by (induction ws arbitrary: s) (auto simp: cell_set_get)

lemma all_writes_ok: "list_all (\<lambda>(v, x). in_i32 x) sets \<Longrightarrow> list_all (\<lambda>(i, x). cell_ok c i \<and> in_i32 x) (all_writes c sets)"
  by (induction sets) (auto simp: set_writes_def)

lemma cut_off_inv:
  assumes "dat_inv c st s" "list_all (\<lambda>(v, x). in_i32 x) sets"
  shows "dat_inv c st (cut_off c st sets n s)"
  unfolding cut_off_def using all_writes_ok [OF assms(2), of c]
  by (intro run_writes_inv assms(1)) (auto simp: list_all_iff dest: in_set_takeD)

text \<open>Inside an update.\<close>

lemma cut_off_inside:
  assumes "dat_inv c st s" "in_i32 x" "copies_all_agree c st s" "n < length (set_writes c v x)"
  shows "dat_get_system_var c st w (run_writes c st (take n (set_writes c v x)) s) =
    (if w = v \<and> seen c n = 1 then x else dat_get_system_var c st w s)"
proof (cases "storage_triple_wr c")
  case True
  then have "n = 0 \<or> n = 1 \<or> n = 2" "copies_agree c st w s" "copies_agree c st v s"
    using assms(3,4) by (auto simp: length_set_writes copies_all_agree_def)
  then show ?thesis using True assms(1,2)
    by (elim disjE) (auto simp: seen_def set_writes_def dat_get_system_var_def copies_agree_def cell_set_get Let_def)
next
  case False
  then show ?thesis using assms(4) by (simp add: length_set_writes seen_def)
qed

section \<open>Properties\<close>



end
