(* ===== verification/Spec2Isabelle.thy ===== *)
theory Spec2Isabelle
  imports TaskFlightPlan TaskWatchdog TaskConsole StartUp Mission FlashFlight FlashSamples SqlFlight
    CommSetup Board BoardTools Uplink Printing PowerLoss
begin

text \<open>
  A verification library for the SUCHAI flight software, balloon edition (\<^verbatim>\<open>src/\<close>).

  \<^bold>\<open>The program.\<close>  The flight software runs on a Linux board or on a microcontroller (AVR32, ESP32,
  Nanomind) as a set of tasks around a command table.  \<^verbatim>\<open>main\<close> builds the table of commands
  (\<^verbatim>\<open>repoCommand.c\<close>, filled by the \<^verbatim>\<open>cmd_xxx_init\<close> functions) and the data repository
  (\<^verbatim>\<open>repoData.c\<close>), creates three queues and starts the dispatcher, the executer and \<^verbatim>\<open>taskInit\<close>.
  Client tasks (housekeeping, reaction-wheel test, console, flight plan, communications, watchdog)
  build commands by name, attach their parameters and put them into the dispatcher's queue; the
  dispatcher hands one at a time to the executer, which calls the command's function and frees the
  command.  The functions read and write the status variables and payload samples of the data
  repository, which lives in RAM or behind a storage driver (\<^verbatim>\<open>data_storage.c\<close>), and talk to other
  boards over CSP, I2C and serial buses.

  \<^bold>\<open>How C is read.\<close>  (\<open>Prelude\<close>, \<open>LibC\<close>, \<open>Config\<close>)
  A C \<^verbatim>\<open>int\<close> is a HOL \<open>int\<close> kept in range by \<open>i32\<close>; unsigned counters and bit patterns are words.
  A function that can leave defined behaviour returns a \<open>c_result\<close>: \<open>Inl\<close> carries the \<open>c_fault\<close>
  (null pointer, overrun of a block or of a local array, use after free, missing NUL, failed assertion,
  deadlock) that stops the run.  Signed additions whose overflow C leaves undefined wrap, as the
  compilers of the supported targets make them.  \<open>LibC\<close> models the string functions, \<^verbatim>\<open>strtok\<close>,
  \<^verbatim>\<open>sprintf\<close> and \<^verbatim>\<open>sscanf\<close> as far as the program uses them and proves that printed integers are scanned
  back.  \<open>sch_config\<close> holds the options of \<^verbatim>\<open>config.h\<close> the code is compiled under, so that one
  definition covers all builds; \<open>config_h\<close> is the configuration that is checked in.
  Code that is not in the repository (the CSP library, the buses, the chips, SQLite and PostgreSQL, the
  libraries of the power supply, the transceiver and the antenna panel) is a record of functions that the
  definitions take as an argument.

  \<^bold>\<open>Theories and sources.\<close>

  \<^item> \<open>RepoCommand\<close>, \<open>CmdTable\<close>, \<open>CmdLine\<close> (\<^verbatim>\<open>repoCommand.c\<close>, the registration in every \<^verbatim>\<open>cmd*.c\<close>): the
    table \<open>cmd_list\<close> with its index, \<open>cmd_add\<close>, \<open>cmd_get_str\<close>, \<open>cmd_get_idx\<close>, the three ways to
    attach parameters, \<open>cmd_free\<close>, \<open>cmd_parse_from_str\<close>, sorting (the quicksort of the source) and
    listing; \<open>cmd_repo_init\<close> with its filling loop.  The locale \<open>registry\<close> is the contract of a table
    that is filled once, interpreted on the model.  Shown: which builds start up and which hang, that
    every registered name is found with its handler, that listing keeps the lookups, what every command
    line parses to, and that integer parameters survive the trip through text.
  \<^item> \<open>OsLayer\<close> (\<^verbatim>\<open>os/Linux/pthread_queue.c\<close>, \<^verbatim>\<open>osQueue.c\<close>, \<^verbatim>\<open>osSemphr.c\<close>, \<^verbatim>\<open>osDelay.c\<close>): the ring buffer behind
    a queue refines a bounded list (locale \<open>bounded_fifo\<close>); send and receive keep their contract
    whatever the other threads do while they wait; deadlines and delays with their wrap-around.
  \<^item> \<open>OsThreads\<close> (\<^verbatim>\<open>os/Linux/osThread.c\<close>, \<^verbatim>\<open>osScheduler.c\<close>, \<^verbatim>\<open>os/FreeRTOS/*.c\<close>): threads over the POSIX library (locale \<open>posix\<close>)
    and the wrappers of FreeRTOS.  Shown: which threads run, on which stack, and what happens when one cannot be
    created.
  \<^item> \<open>Pipeline\<close> (\<^verbatim>\<open>taskDispatcher.c\<close>, \<^verbatim>\<open>taskExecuter.c\<close>, \<^verbatim>\<open>globals.h\<close>): program counters, queues and a heap
    of commands under an interleaving step relation.  Shown by rule induction: commands are executed once
    and in order, the tasks make progress and finish, no dangling pointer is followed; the debug build
    has a race.
  \<^item> \<open>StatusVars\<close>, \<open>RepoData\<close> (\<^verbatim>\<open>repoData.h\<close>, \<^verbatim>\<open>repoData.c\<close>): the status variables with their three copies and
    the vote, payload samples, the clock, the status structure, start-up.  The storage driver is the
    record \<open>storage\<close>; \<open>value_store\<close> and \<open>payload_store\<close> say what it must guarantee.  The locale
    \<open>status_repo\<close> gives every client the laws of reading and writing variables.
  \<^item> \<open>RepoFP\<close>, \<open>FlightPlan\<close>, \<open>CmdFP\<close>, \<open>TaskFlightPlan\<close> (\<^verbatim>\<open>repoData.c\<close>, \<^verbatim>\<open>cmdFP.c\<close>, \<^verbatim>\<open>taskFlightPlan.c\<close>): the plan of 25 entries in
    RAM as a refinement of a function from times to lists of entries, with its mutex and the life of its
    blocks; the mutex that is not given back stops the plan after one entry.  \<open>FlightPlan\<close> chooses between
    this table and the record \<open>fp_driver\<close> of a storage driver, as the source does.  The locale \<open>plan_source\<close>
    is what the task needs of a plan: whatever implements it, the task executes the entries as they fall
    due; it is a sublocale of both storage drivers.
  \<^item> \<open>FlashStorage\<close>, \<open>FlashPlan\<close>, \<open>FlashSamples\<close>, \<open>FlashFlight\<close> (\<^verbatim>\<open>drivers/nanomind/data_storage.c\<close>): variables in FRAM,
    samples and the flight plan in flash, byte by byte.  The locale \<open>chips\<close> states what the two chips
    do (flash only clears bits and is erased in blocks); the driver refines a list of entries and a
    map of samples, and the flight plan task runs on top of it (locale \<open>flash_system\<close>).
  \<^item> \<open>SqlStorage\<close> (\<^verbatim>\<open>drivers/Linux/data_storage.c\<close>): the texts of the SQL statements, the local arrays they
    are written into, the exact text of a float, and the use of the results.  The locale \<open>sql_values\<close>
    states what SQLite promises of the table of variables, interpreted on a table that scans the driver's
    statements.  \<open>SqlFlight\<close> adds the table of the flight plan (locales \<open>sql_rows\<close>, \<open>sql_plans\<close>, \<open>sql_system\<close>, \<open>linux_system\<close>):
    the driver refines a map from times to entries, for any texts that hold no quote, and the task of
    the flight plan runs on it.
  \<^item> \<open>CmdDRP\<close>, \<open>CmdCOM\<close>, \<open>CmdTM\<close>, \<open>CmdOBC\<close>, \<open>CmdEPS\<close>, \<open>CmdRW\<close>, \<open>CmdFOD\<close>, \<open>CmdSubSys\<close> (\<^verbatim>\<open>cmd*.c\<close>): one definition per
    handler, with every branch and every error path.
  \<^item> \<open>Handlers\<close> (\<^verbatim>\<open>taskExecuter.c\<close> and the tables of all \<^verbatim>\<open>cmd*.c\<close>): the call through the function pointer of a command, for
    every function the table registers, on one state of the whole system.  Shown: every registered function has
    its handler, a handler that returns gives one of the three results, and a line of text ends as exactly
    one execution of its handler.
  \<^item> \<open>Clients\<close> (\<^verbatim>\<open>cmd_send\<close> in all client tasks): any number of tasks that send at once, in front of the dispatcher
    and the executer; every run has the same length, and what is executed interleaves what was sent.
  \<^item> \<open>Uplink\<close>: the server of the communications, the pipeline and the handlers composed, from a packet to
    the functions its lines name.
  \<^item> \<open>TaskCommon\<close>, \<open>TaskPhases\<close>, \<open>TaskCommunications\<close>, \<open>TaskConsole\<close>, \<open>TaskWatchdog\<close> (\<^verbatim>\<open>task*.c\<close>): one round of
    each loop.  The locale \<open>phase_automaton\<close> carries both tasks that derive the balloon phase from the
    minutes alive.
  \<^item> \<open>CommServer\<close>, \<open>CommSetup\<close> (\<^verbatim>\<open>taskCommunications.c\<close>, \<^verbatim>\<open>init_communications\<close>): the loops of the server with the buffers it
    borrows from the CSP library (locale \<open>csp_pool\<close>), as a step relation; the calls that set the library up
    and the routes they leave (locale \<open>cidr_table\<close>, longest prefix first).
  \<^item> \<open>Board\<close>, \<open>BoardTools\<close> (\<^verbatim>\<open>init.c\<close> of the three boards, \<^verbatim>\<open>hexdump.c\<close>, \<^verbatim>\<open>memcheck.c\<close>): the calls that bring a board up, in order;
    no interrupt is taken before its handler is registered; the dump equals a description line by line;
    the memory check finds every address fault.
  \<^item> \<open>PowerLoss\<close> (\<^verbatim>\<open>repoData.c\<close>): updates of the status variables that a reset cuts off between two writes.
  \<^item> \<open>Layout\<close>, \<open>Printing\<close> (\<^verbatim>\<open>repoData.h\<close>, \<^verbatim>\<open>dat_print_status\<close>, \<^verbatim>\<open>_com_config_help\<close>, \<^verbatim>\<open>cmd_print\<close>, \<^verbatim>\<open>utils.h\<close>): the structures field
    by field and their agreement with the columns of \<^verbatim>\<open>data_map\<close>; the texts that are printed and the lines
    of the log.
  \<^item> \<open>StartUp\<close> (\<^verbatim>\<open>main.c\<close>, \<^verbatim>\<open>taskInit.c\<close>) and \<open>Mission\<close>: the boot, and the flight as housekeeping, command
    execution and the repository composed second by second.

  \<^bold>\<open>Properties.\<close>  Each is the theorem behind a text that starts with its number.
  C1, C2, C34, C35: the command table and the parser.  C3 to C5, C9 to C11, C40: the pipeline, its queues
  and the tasks that send.  C6 to C8: what a line of text and a packet execute.  C12 to C14: the data
  repository.  C15 to C17, C36 to C38: phases, timetable, flight and boot.  C18, C24 to C27: telemetry,
  telecommands, the server and its routes.  C19 to C23, C31: the storage drivers.  C28 to C30, C32, C33:
  the flight plan and its task.  C39: threads.

  \<^bold>\<open>Bounds and termination.\<close>  No theorem is about a cut-off run.  Loops over arrays are structural or
  have a measure.  The loop of \<open>cmd_repo_init\<close>, which can run for ever, is a partial function into
  \<open>option\<close>; C1 says when it returns and when not, \<open>cmd_repo_init_hanging_builds\<close> names
  builds where it does not.  The waits of the queues consume the list of results the condition variable
  gives; C10 and C11 say when they return.  The pipeline's \<open>rank\<close> bounds the steps of both tasks from above and below (C4), and
  \<open>client_rank\<close> those of all tasks that send (C9).

  \<^bold>\<open>Not modelled.\<close>  The formatting of the messages of the log macros and the banner of \<^verbatim>\<open>main\<close>;
  the hooks of FreeRTOS in \<^verbatim>\<open>main.c\<close>, which toggle a light or stop; the body of the CSP router and the other threads of the libraries; the vendored
  code (the AVR32 port of FreeRTOS under \<^verbatim>\<open>drivers/atmel/suchai/lowlevel\<close>, the headers of the CSP library, the configuration headers of the
  Atmel framework).  Calls that take a repository mutex on entry and release it on every path are single
  steps.
\<close>

end
